(* ===== verification/Prelude.thy ===== *)
theory Prelude
  imports Main "HOL-Library.Word" "HOL-Library.Multiset"
begin

text \<open>
  What every component shares: the widths of C's integer types and the casts between them, byte
  strings, the collections of rewrite rules that the component theories extend, and a few facts on
  lists and multisets.

  \<^item> \<open>u8\<close> ... \<open>u64\<close> are the unsigned types (\<open>uint8_t\<close>, \<open>guint8\<close>, ...); their \<open>+\<close>, \<open>-\<close>, \<open>*\<close> wrap.
  \<^item> A C \<open>int\<close> is an \<^typ>\<open>int\<close>; \<open>cast_int\<close> is the conversion \<open>(int)v\<close> of a wider value, modulo \<open>2^32\<close>
    into the signed range, as gcc and clang define it.
  \<^item> A C string is the list of its bytes before the terminating NUL; a \<open>char *\<close> that may be NULL is
    a \<^typ>\<open>string option\<close>.
  \<^item> A pointer to an opaque object is a \<open>ptr\<close>, 0 for NULL.
\<close>

type_synonym u8 = "8 word"
type_synonym u16 = "16 word"
type_synonym u32 = "32 word"
type_synonym u64 = "64 word"
type_synonym ptr = nat

named_theorems own_simps \<open>what a trace of external calls owns\<close>
named_theorems wf_intros \<open>preservation of the well-formedness invariants\<close>

section \<open>Integer casts\<close>

definition cast_int :: "int \<Rightarrow> int" where
  "cast_int v = sint (word_of_int v :: 32 word)"

definition int_range :: "int \<Rightarrow> bool" where
  "int_range v \<longleftrightarrow> -(2^31) \<le> v \<and> v < 2^31"

lemma cast_int_range [simp]: "int_range (cast_int v)"
  using sint_ge [of "word_of_int v :: 32 word"] sint_lt [of "word_of_int v :: 32 word"]
  by (simp add: cast_int_def int_range_def)

lemma cast_int_id: "int_range v \<Longrightarrow> cast_int v = v"
  unfolding cast_int_def int_range_def
  by (simp add: int_word_sint)

section \<open>Lists\<close>

lemma takeWhile_all: "\<forall>x \<in> set xs. P x \<Longrightarrow> takeWhile P xs = xs"
  by (simp add: takeWhile_eq_all_conv)

lemma dropWhile_hd: "xs \<noteq> [] \<Longrightarrow> \<not> P (hd xs) \<Longrightarrow> dropWhile P xs = xs"
  by (cases xs) auto

lemma foldl_invariant:
  assumes "I s" and "\<And>s x. x \<in> set xs \<Longrightarrow> I s \<Longrightarrow> I (f s x)"
  shows "I (foldl f s xs)"
  using assms by (induction xs arbitrary: s) auto

section \<open>Multisets\<close>

lemma add_mset_diff_other: "x \<noteq> y \<Longrightarrow> add_mset x M - {#y#} = add_mset x (M - {#y#})"
  by (rule diff_union_swap [symmetric]) simp

end
