(* ===== verification/C_Library.thy ===== *)
theory C_Library
  imports Prelude
begin

text \<open>
  The parts of the C library that the program's own logic runs through, in the "C" locale the
  program starts in: character classes, the comparisons of \<open>string.h\<close> and \<open>strings.h\<close> (the source
  only ever compares their result with 0, so they are modelled as predicates), \<open>strtol\<close> in base 10
  with its saturation at the 64-bit \<open>long\<close> of the target, and the decimal conversions of \<open>printf\<close>.
\<close>

definition NUL :: char where
  "NUL = CHR 0x00"

definition isspace :: "char \<Rightarrow> bool" where
  "isspace c \<longleftrightarrow> c = CHR '' '' \<or> (9 \<le> (of_char c :: nat) \<and> (of_char c :: nat) \<le> 13)"

definition isdigit :: "char \<Rightarrow> bool" where
  "isdigit c \<longleftrightarrow> 48 \<le> (of_char c :: nat) \<and> (of_char c :: nat) \<le> 57"

definition tolower :: "char \<Rightarrow> char" where
  "tolower c = (if 65 \<le> (of_char c :: nat) \<and> (of_char c :: nat) \<le> 90
                then char_of (of_char c + (32 :: nat)) else c)"

text \<open>\<open>strcasecmp(a, b) == 0\<close>, \<open>strncasecmp(a, b, n) == 0\<close> and \<open>strncmp(a, b, n) == 0\<close>.\<close>

definition strcaseeq :: "string \<Rightarrow> string \<Rightarrow> bool" where
  "strcaseeq a b \<longleftrightarrow> map tolower a = map tolower b"

definition strncaseeq :: "string \<Rightarrow> string \<Rightarrow> nat \<Rightarrow> bool" where
  "strncaseeq a b n \<longleftrightarrow> map tolower (take n a) = map tolower (take n b)"

definition strneq :: "string \<Rightarrow> string \<Rightarrow> nat \<Rightarrow> bool" where
  "strneq a b n \<longleftrightarrow> take n a = take n b"

section \<open>strtol in base 10\<close>

definition LONG_MAX :: int where
  "LONG_MAX = 2 ^ 63 - 1"

definition LONG_MIN :: int where
  "LONG_MIN = - (2 ^ 63)"

definition digit_val :: "char \<Rightarrow> nat" where
  "digit_val c = of_char c - 48"

definition dec_value :: "string \<Rightarrow> nat" where
  "dec_value ds = foldl (\<lambda>n c. 10 * n + digit_val c) 0 ds"

definition saturate_long :: "int \<Rightarrow> int" where
  "saturate_long v = (if v < LONG_MIN then LONG_MIN else if LONG_MAX < v then LONG_MAX else v)"

text \<open>
  \<open>strtol_sign s\<close> splits the optional sign off \<open>s\<close>. The result of \<open>strtol10\<close> is the value, the
  rest of the string that \<open>*endptr\<close> points to (the whole string when there is no conversion), and
  whether \<open>errno\<close> is set to ERANGE.
\<close>

definition strtol_sign :: "string \<Rightarrow> bool \<times> string" where
  "strtol_sign s = (case s of
      [] \<Rightarrow> (False, [])
    | c # cs \<Rightarrow> if c = CHR ''-'' then (True, cs) else if c = CHR ''+'' then (False, cs) else (False, s))"

definition strtol10 :: "string \<Rightarrow> int \<times> string \<times> bool" where
  "strtol10 s =
     (let (neg, body) = strtol_sign (dropWhile isspace s);
          ds = takeWhile isdigit body;
          v = (if neg then - int (dec_value ds) else int (dec_value ds))
      in if ds = [] then (0, s, False)
         else (saturate_long v, dropWhile isdigit body, v < LONG_MIN \<or> LONG_MAX < v))"

section \<open>Decimal output\<close>

fun dec_nat :: "nat \<Rightarrow> string" where
  "dec_nat n = (if n < 10 then [char_of (48 + n)] else dec_nat (n div 10) @ [char_of (48 + n mod 10)])"

declare dec_nat.simps [simp del]

definition dec_int :: "int \<Rightarrow> string" where
  "dec_int v = (if v < 0 then CHR ''-'' # dec_nat (nat (- v)) else dec_nat (nat v))"

lemma of_char_digit [simp]: "(n :: nat) < 10 \<Longrightarrow> (of_char (char_of (48 + n) :: char) :: nat) = 48 + n"
  by (simp add: of_char_of)

lemma isdigit_digit [simp]: "(n :: nat) < 10 \<Longrightarrow> isdigit (char_of (48 + n))"
  by (simp add: isdigit_def)

lemma digit_val_digit [simp]: "(n :: nat) < 10 \<Longrightarrow> digit_val (char_of (48 + n)) = n"
  by (simp add: digit_val_def)

lemma dec_nat_nonempty [simp]: "dec_nat n \<noteq> []"
  by (subst dec_nat.simps) simp

lemma dec_nat_digits: "c \<in> set (dec_nat n) \<Longrightarrow> isdigit c"
proof (induction n rule: dec_nat.induct)
  case (1 n)
  then show ?case
    by (subst (asm) (2) dec_nat.simps) (auto split: if_splits)
qed

lemma takeWhile_dec_nat [simp]: "takeWhile isdigit (dec_nat n) = dec_nat n"
  by (rule takeWhile_all) (auto simp: dec_nat_digits)

lemma dropWhile_dec_nat [simp]: "dropWhile isdigit (dec_nat n) = []"
  by (simp add: dec_nat_digits)

lemma dec_value_dec_nat [simp]: "dec_value (dec_nat n) = n"
proof (induction n rule: dec_nat.induct)
  case (1 n)
  then show ?case
    by (subst dec_nat.simps) (auto simp: dec_value_def)
qed

lemma isdigit_not_space: "isdigit c \<Longrightarrow> \<not> isspace c"
  by (auto simp: isdigit_def isspace_def)

lemma isdigit_not_sign: "isdigit c \<Longrightarrow> c \<noteq> CHR ''-'' \<and> c \<noteq> CHR ''+''"
  by (auto simp: isdigit_def)

lemma isdigit_not_NUL: "isdigit c \<Longrightarrow> c \<noteq> NUL"
  by (auto simp: isdigit_def NUL_def)

lemma hd_dec_nat: "isdigit (hd (dec_nat n))"
  by (rule dec_nat_digits) (rule hd_in_set, simp)

lemma strtol_sign_digits: "isdigit c \<Longrightarrow> strtol_sign (c # cs) = (False, c # cs)"
  by (auto simp: strtol_sign_def dest: isdigit_not_sign)

lemma strtol10_dec_nat:
  assumes "rest = [] \<or> \<not> isdigit (hd rest)" and "int n \<le> LONG_MAX"
  shows "strtol10 (dec_nat n @ rest) = (int n, rest, False)"
proof -
  obtain c cs where c: "dec_nat n = c # cs" by (cases "dec_nat n") auto
  with hd_dec_nat [of n] have dc: "isdigit c" by simp
  have "dropWhile isspace (dec_nat n @ rest) = dec_nat n @ rest"
    using c dc by (simp add: isdigit_not_space)
  moreover have "strtol_sign (dec_nat n @ rest) = (False, dec_nat n @ rest)"
    using c dc by (simp add: strtol_sign_digits)
  moreover have "takeWhile isdigit (dec_nat n @ rest) = dec_nat n"
    using assms(1) by (cases rest) (auto simp: takeWhile_append dec_nat_digits)
  moreover have "dropWhile isdigit (dec_nat n @ rest) = rest"
    using assms(1) by (cases rest) (auto simp: dropWhile_append dec_nat_digits)
  ultimately show ?thesis
    using assms(2) by (auto simp: strtol10_def saturate_long_def LONG_MIN_def LONG_MAX_def)
qed

text \<open>A printed \<open>int\<close> is read back by \<open>strtol\<close> without a rest.\<close>

lemma strtol10_dec_int:
  assumes "int_range v"
  shows "strtol10 (dec_int v) = (v, [], False)"
proof (cases "v < 0")
  case False
  then show ?thesis
    using assms strtol10_dec_nat [of "[]" "nat v"]
    by (simp add: dec_int_def int_range_def LONG_MAX_def)
next
  case True
  then show ?thesis
    using assms
    by (simp add: strtol10_def strtol_sign_def isspace_def dec_int_def int_range_def
        saturate_long_def LONG_MIN_def LONG_MAX_def)
qed

text \<open>How many digits are printed.\<close>

lemma length_dec_nat: "n < 10 ^ k \<Longrightarrow> 0 < k \<Longrightarrow> length (dec_nat n) \<le> k"
proof (induction k arbitrary: n)
  case (Suc k)
  show ?case
  proof (cases "n < 10")
    case True
    then show ?thesis by (simp add: dec_nat.simps [of n])
  next
    case False
    with Suc.prems have "n div 10 < 10 ^ k" and "0 < k"
      by (simp_all add: div_less_iff_less_mult, cases k, simp_all)
    with Suc.IH have "length (dec_nat (n div 10)) \<le> k" by blast
    with False show ?thesis by (simp add: dec_nat.simps [of n])
  qed
qed simp

end
