(* ===== verification/Config.thy ===== *)
theory Config
  imports C_Library
begin

text \<open>
  The configuration record of \<open>include/config.h\<close>, its defaults, the record-mode names and the small
  readers that \<open>config.c\<close> (command line) and \<open>config_ini.c\<close> (INI file) each have a copy of: the
  bounded string copy and the integer reader. Their contracts are the locales \<open>bounded_copy\<close> and
  \<open>int_reader\<close>, interpreted on both copies.
\<close>

section \<open>Data\<close>

datatype RecordMode = RECORD_MODE_STANDARD | RECORD_MODE_SEQUENTIAL | RECORD_MODE_FRAGMENTED

definition PATH_MAX :: nat where
  "PATH_MAX = 4096"

record RecordCfg =
  enable :: int
  output_path :: string
  mode :: RecordMode

record AppCfg =
  card_path :: string
  connector_name :: string
  config_path :: string
  plane_id :: int
  udp_port :: int
  vid_pt :: int
  appsink_max_buffers :: int
  gst_log :: int
  record_cfg :: RecordCfg

text \<open>The fields of the nested struct \<open>cfg->record\<close>.\<close>

definition set_record_enable :: "int \<Rightarrow> AppCfg \<Rightarrow> AppCfg" where
  "set_record_enable v cfg = cfg\<lparr>record_cfg := (record_cfg cfg)\<lparr>enable := v\<rparr>\<rparr>"

definition set_record_path :: "string \<Rightarrow> AppCfg \<Rightarrow> AppCfg" where
  "set_record_path p cfg = cfg\<lparr>record_cfg := (record_cfg cfg)\<lparr>output_path := p\<rparr>\<rparr>"

definition set_record_mode :: "RecordMode \<Rightarrow> AppCfg \<Rightarrow> AppCfg" where
  "set_record_mode m cfg = cfg\<lparr>record_cfg := (record_cfg cfg)\<lparr>mode := m\<rparr>\<rparr>"

lemmas set_record_defs = set_record_enable_def set_record_path_def set_record_mode_def

definition cfg_defaults :: AppCfg where
  "cfg_defaults =
     \<lparr>card_path = ''/dev/dri/card0'', connector_name = [], config_path = [],
      plane_id = 76, udp_port = 5600, vid_pt = 97, appsink_max_buffers = 4, gst_log = 0,
      record_cfg = \<lparr>enable = 0, output_path = ''/media'', mode = RECORD_MODE_SEQUENTIAL\<rparr>\<rparr>"

section \<open>Record modes\<close>

definition kRecordModeAliases :: "(string \<times> RecordMode) list" where
  "kRecordModeAliases =
    [(''standard'', RECORD_MODE_STANDARD), (''default'', RECORD_MODE_STANDARD),
     (''sequential'', RECORD_MODE_SEQUENTIAL), (''append'', RECORD_MODE_SEQUENTIAL),
     (''fragmented'', RECORD_MODE_FRAGMENTED), (''fragment'', RECORD_MODE_FRAGMENTED)]"

text \<open>The loop over the aliases; \<open>mode_out\<close> is the cell the caller passes, returned updated.\<close>

fun parse_mode_loop :: "(string \<times> RecordMode) list \<Rightarrow> string \<Rightarrow> RecordMode \<Rightarrow> int \<times> RecordMode" where
  "parse_mode_loop [] v out = (-1, out)"
| "parse_mode_loop ((name, m) # rest) v out =
     (if strcaseeq v name then (0, m) else parse_mode_loop rest v out)"

definition cfg_parse_record_mode :: "string option \<Rightarrow> RecordMode \<Rightarrow> int \<times> RecordMode" where
  "cfg_parse_record_mode value mode_out =
     (case value of None \<Rightarrow> (-1, mode_out)
      | Some v \<Rightarrow> parse_mode_loop kRecordModeAliases v mode_out)"

fun cfg_record_mode_name :: "RecordMode \<Rightarrow> string" where
  "cfg_record_mode_name RECORD_MODE_STANDARD = ''standard''"
| "cfg_record_mode_name RECORD_MODE_SEQUENTIAL = ''sequential''"
| "cfg_record_mode_name RECORD_MODE_FRAGMENTED = ''fragmented''"

lemma cfg_parse_record_mode_cases:
  "cfg_parse_record_mode value m = (r, m') \<Longrightarrow> (r = 0 \<or> r = -1) \<and> (r \<noteq> 0 \<longrightarrow> m' = m)"
  by (auto simp: cfg_parse_record_mode_def kRecordModeAliases_def split: option.splits if_splits)

section \<open>The bounded string copy\<close>

text \<open>
  \<open>dst\<close> is the string the \<open>dst_sz\<close> byte buffer holds before the call; \<open>strnlen(src, dst_sz - 1)\<close>
  bytes are copied and the NUL is written behind them.
\<close>

definition cli_copy_string :: "string \<Rightarrow> nat \<Rightarrow> string option \<Rightarrow> string" where
  "cli_copy_string dst dst_sz src =
     (if dst_sz = 0 then dst
      else case src of None \<Rightarrow> []
           | Some s \<Rightarrow> (let len = min (length s) (dst_sz - 1) in take len s))"

locale bounded_copy =
  fixes copy :: "string \<Rightarrow> nat \<Rightarrow> string option \<Rightarrow> string"
  assumes copy_fits: "length s < sz \<Longrightarrow> copy dst sz (Some s) = s"
    and copy_bound: "0 < sz \<Longrightarrow> length (copy dst sz src) < sz"
    and copy_prefix: "0 < sz \<Longrightarrow> \<exists>r. copy dst sz (Some s) @ r = s"
begin

lemma copy_bytes: "0 < sz \<Longrightarrow> set (copy dst sz (Some s)) \<subseteq> set s"
  using copy_prefix [of sz dst s] by (metis Un_upper1 set_append)

lemma copy_no_NUL: "0 < sz \<Longrightarrow> NUL \<notin> set s \<Longrightarrow> NUL \<notin> set (copy dst sz (Some s))"
  using copy_bytes by blast

lemma copy_idem: "0 < sz \<Longrightarrow> copy dst sz (Some (copy dst' sz (Some s))) = copy dst' sz (Some s)"
  by (rule copy_fits) (rule copy_bound)

end

interpretation cli_copy: bounded_copy cli_copy_string
  by unfold_locales
    (auto simp: cli_copy_string_def Let_def min_def split: option.splits
      intro: append_take_drop_id)

section \<open>The integer reader\<close>

text \<open>
  \<open>parse_int_arg\<close> of \<open>config.c\<close>: the value of \<open>*out\<close> after the call beside the return code. The
  \<open>long\<close> that \<open>strtol\<close> returns is cast to \<open>int\<close> unchecked.
\<close>

definition parse_int_arg :: "string option \<Rightarrow> int \<Rightarrow> int \<times> int" where
  "parse_int_arg value out =
     (case value of None \<Rightarrow> (-1, out)
      | Some s \<Rightarrow>
          (case strtol10 s of (v, endp, _) \<Rightarrow>
             if endp = s \<or> endp \<noteq> [] then (-1, out) else (0, cast_int v)))"

locale int_reader =
  fixes read_int :: "string option \<Rightarrow> int \<Rightarrow> int \<times> int"
  assumes reads: "strtol10 s = (v, [], e) \<Longrightarrow> s \<noteq> [] \<Longrightarrow> read_int (Some s) out = (0, cast_int v)"
    and rejects: "strtol10 s = (v, r, e) \<Longrightarrow> r \<noteq> [] \<or> s = [] \<Longrightarrow> read_int (Some s) out = (-1, out)"
    and null: "read_int None out = (-1, out)"
begin

lemma result_cases:
  obtains (ok) v where "read_int src out = (0, cast_int v)"
  | (bad) "read_int src out = (-1, out)"
proof (cases src)
  case None
  then show thesis using null bad by simp
next
  case (Some s)
  obtain v r e where s: "strtol10 s = (v, r, e)" by (cases "strtol10 s") auto
  show thesis
  proof (cases "r \<noteq> [] \<or> s = []")
    case True
    then show thesis using rejects [OF s] Some bad by blast
  next
    case False
    then show thesis using reads [of s v e] s Some ok by blast
  qed
qed

lemma keeps_range: "int_range out \<Longrightarrow> int_range (snd (read_int src out))"
  by (cases rule: result_cases [of src out]) auto

lemma reads_printed:
  assumes "int_range v"
  shows "read_int (Some (dec_int v)) out = (0, v)"
  using reads [OF strtol10_dec_int [OF assms]] assms
  by (simp add: cast_int_id dec_int_def)

end

interpretation cli_int: int_reader parse_int_arg
  by unfold_locales (auto simp: parse_int_arg_def)

section \<open>Well-formed configurations\<close>

text \<open>
  Each string fits its buffer with its NUL and holds no NUL of its own; each \<open>int\<close> is in range.
\<close>

definition c_string :: "nat \<Rightarrow> string \<Rightarrow> bool" where
  "c_string sz s \<longleftrightarrow> length s < sz \<and> NUL \<notin> set s"

definition wf_record_cfg :: "RecordCfg \<Rightarrow> bool" where
  "wf_record_cfg r \<longleftrightarrow> int_range (enable r) \<and> c_string PATH_MAX (output_path r)"

definition wf_cfg :: "AppCfg \<Rightarrow> bool" where
  "wf_cfg c \<longleftrightarrow>
     c_string 64 (card_path c) \<and> c_string 32 (connector_name c) \<and> c_string PATH_MAX (config_path c)
   \<and> int_range (plane_id c) \<and> int_range (udp_port c) \<and> int_range (vid_pt c)
   \<and> int_range (appsink_max_buffers c) \<and> int_range (gst_log c) \<and> wf_record_cfg (record_cfg c)"

lemma wf_cfg_defaults [wf_intros]: "wf_cfg cfg_defaults"
  by (simp add: wf_cfg_def cfg_defaults_def wf_record_cfg_def c_string_def int_range_def
      PATH_MAX_def NUL_def)

lemma c_string_copy [wf_intros]:
  "NUL \<notin> set s \<Longrightarrow> 0 < sz \<Longrightarrow> c_string sz (cli_copy_string dst sz (Some s))"
  by (simp add: c_string_def cli_copy.copy_bound cli_copy.copy_no_NUL)

end
