(* ===== verification/Config_Ini.thy ===== *)
theory Config_Ini
  imports Config
begin

text \<open>
  \<open>src/config\_ini.c\<close>. The key handlers are functions on the configuration that return the code the
  C returns with it. The loop body of \<open>cfg_load_file\<close> works on the line buffer: pointers are indices
  into it and the code's writes of NUL are list updates (\<open>ini_line\<close>). \<open>ini_line_spec\<close> says on strings
  what a line means, and \<open>ini_line_refines\<close> shows that the buffer code computes it.
\<close>

section \<open>Values\<close>

definition parse_int :: "string option \<Rightarrow> int \<Rightarrow> int \<times> int" where
  "parse_int src out =
     (case src of None \<Rightarrow> (-1, out)
      | Some s \<Rightarrow>
          (case strtol10 s of (v, endp, _) \<Rightarrow>
             if endp = s \<or> endp \<noteq> [] then (-1, out) else (0, cast_int v)))"

interpretation ini_int: int_reader parse_int
  by unfold_locales (auto simp: parse_int_def)

definition parse_bool :: "string option \<Rightarrow> int \<Rightarrow> int \<times> int" where
  "parse_bool src out =
     (case src of None \<Rightarrow> (-1, out)
      | Some s \<Rightarrow>
          if strcaseeq s ''true'' \<or> strcaseeq s ''yes'' \<or> s = ''1'' then (0, 1)
          else if strcaseeq s ''false'' \<or> strcaseeq s ''no'' \<or> s = ''0'' then (0, 0)
          else (-1, out))"

definition copy_string :: "string \<Rightarrow> nat \<Rightarrow> string option \<Rightarrow> string" where
  "copy_string dst dst_sz src =
     (if dst_sz = 0 then dst
      else case src of None \<Rightarrow> []
           | Some s \<Rightarrow> (let len = min (length s) (dst_sz - 1) in take len s))"

interpretation ini_copy: bounded_copy copy_string
  by unfold_locales
    (auto simp: copy_string_def Let_def min_def split: option.splits intro: append_take_drop_id)

lemma parse_bool_range: "int_range out \<Longrightarrow> int_range (snd (parse_bool src out))"
  by (auto simp: parse_bool_def int_range_def split: option.splits)

section \<open>Key handlers\<close>

text \<open>The three \<open>record\<close> keys, which both handlers treat alike.\<close>

definition handle_record_mode :: "string \<Rightarrow> AppCfg \<Rightarrow> int \<times> AppCfg" where
  "handle_record_mode val cfg =
     (case cfg_parse_record_mode (Some val) (mode (record_cfg cfg)) of (r, m) \<Rightarrow>
        if r = 0 then (0, set_record_mode m cfg) else (-1, cfg))"

definition handle_record_enable :: "string \<Rightarrow> AppCfg \<Rightarrow> int \<times> AppCfg" where
  "handle_record_enable val cfg =
     (case parse_bool (Some val) (enable (record_cfg cfg)) of (r, v) \<Rightarrow>
        (r, set_record_enable v cfg))"

definition handle_record_path :: "string \<Rightarrow> AppCfg \<Rightarrow> int \<times> AppCfg" where
  "handle_record_path val cfg =
     (0, set_record_path (copy_string (output_path (record_cfg cfg)) PATH_MAX (Some val)) cfg)"

definition handle_global_key :: "string \<Rightarrow> string \<Rightarrow> AppCfg \<Rightarrow> int \<times> AppCfg" where
  "handle_global_key key val cfg =
     (if strcaseeq key ''card_path'' then
        (0, cfg\<lparr>card_path := copy_string (card_path cfg) 64 (Some val)\<rparr>)
      else if strcaseeq key ''connector'' \<or> strcaseeq key ''connector_name'' then
        (0, cfg\<lparr>connector_name := copy_string (connector_name cfg) 32 (Some val)\<rparr>)
      else if strcaseeq key ''plane_id'' then
        (case parse_int (Some val) (plane_id cfg) of (r, v) \<Rightarrow> (r, cfg\<lparr>plane_id := v\<rparr>))
      else if strcaseeq key ''udp_port'' then
        (case parse_int (Some val) (udp_port cfg) of (r, v) \<Rightarrow> (r, cfg\<lparr>udp_port := v\<rparr>))
      else if strcaseeq key ''vid_pt'' \<or> strcaseeq key ''video_payload_type'' then
        (case parse_int (Some val) (vid_pt cfg) of (r, v) \<Rightarrow> (r, cfg\<lparr>vid_pt := v\<rparr>))
      else if strcaseeq key ''appsink_max_buffers'' then
        (case parse_int (Some val) (appsink_max_buffers cfg) of (r, v) \<Rightarrow>
           (r, cfg\<lparr>appsink_max_buffers := v\<rparr>))
      else if strcaseeq key ''gst_log'' then
        (case parse_bool (Some val) (gst_log cfg) of (r, v) \<Rightarrow> (r, cfg\<lparr>gst_log := v\<rparr>))
      else if strncaseeq key ''record.'' 7 then
        (let sub = drop 7 key in
         if strcaseeq sub ''enable'' then handle_record_enable val cfg
         else if strcaseeq sub ''output_path'' \<or> strcaseeq sub ''path'' then
           handle_record_path val cfg
         else if strcaseeq sub ''mode'' then handle_record_mode val cfg
         else (-1, cfg))
      else (-1, cfg))"

definition handle_section_key :: "string \<Rightarrow> string \<Rightarrow> string \<Rightarrow> AppCfg \<Rightarrow> int \<times> AppCfg" where
  "handle_section_key sect key val cfg =
     (if strcaseeq sect ''video'' then handle_global_key key val cfg
      else if strcaseeq sect ''record'' then
        (if strcaseeq key ''enable'' then handle_record_enable val cfg
         else if strcaseeq key ''output_path'' \<or> strcaseeq key ''path'' then
           handle_record_path val cfg
         else if strcaseeq key ''mode'' then handle_record_mode val cfg
         else (-1, cfg))
      else handle_global_key key val cfg)"

text \<open>The dispatch at the end of the loop body: \<open>section[0] != 0\<close>. Its result is ignored.\<close>

definition ini_dispatch :: "string \<Rightarrow> string \<Rightarrow> string \<Rightarrow> AppCfg \<Rightarrow> AppCfg" where
  "ini_dispatch sect key val cfg =
     (if sect \<noteq> [] then snd (handle_section_key sect key val cfg)
      else snd (handle_global_key key val cfg))"

section \<open>The line buffer\<close>

definition cstr_at :: "string \<Rightarrow> nat \<Rightarrow> string" where
  "cstr_at buf i = takeWhile (\<lambda>c. c \<noteq> NUL) (drop i buf)"

definition strpbrk_at :: "string \<Rightarrow> nat \<Rightarrow> char set \<Rightarrow> nat option" where
  "strpbrk_at buf i cs =
     (let s = cstr_at buf i; n = length (takeWhile (\<lambda>c. c \<notin> cs) s)
      in if n < length s then Some (i + n) else None)"

definition strchr_at :: "string \<Rightarrow> nat \<Rightarrow> char \<Rightarrow> nat option" where
  "strchr_at buf i c = strpbrk_at buf i {c}"

text \<open>\<open>while (isspace(*begin)) begin++\<close>: it stops at the NUL at the latest.\<close>

function skip_spaces :: "string \<Rightarrow> nat \<Rightarrow> nat" where
  "skip_spaces buf i =
     (if i < length buf \<and> isspace (buf ! i) then skip_spaces buf (Suc i) else i)"
  by pat_completeness auto
termination
  by (relation "measure (\<lambda>(buf, i). length buf - i)") auto

text \<open>
  The two loops of \<open>trim_whitespace\<close>. \<open>e\<close> is the index of the last byte, one past it is the NUL, so
  an index of the first loop is never past the buffer. The second loop only runs at an \<open>e\<close> above a
  byte that is no space, or not at all: \<open>e - 1\<close> is never below 0.
\<close>

function trim_front :: "string \<Rightarrow> nat \<Rightarrow> nat \<Rightarrow> nat" where
  "trim_front buf b e =
     (if b \<le> e \<and> b < length buf \<and> isspace (buf ! b) then trim_front buf (Suc b) e else b)"
  by pat_completeness auto
termination
  by (relation "measure (\<lambda>(buf, b, e). length buf - b)") auto

function trim_back :: "string \<Rightarrow> nat \<Rightarrow> nat \<Rightarrow> string \<times> nat" where
  "trim_back buf b e =
     (if b \<le> e \<and> 0 < e \<and> isspace (buf ! e) then trim_back (buf[e := NUL]) b (e - 1) else (buf, e))"
  by pat_completeness auto
termination
  by (relation "measure (\<lambda>(buf, b, e). e)") auto

declare skip_spaces.simps [simp del] trim_front.simps [simp del] trim_back.simps [simp del]

definition trim_whitespace :: "string \<Rightarrow> nat \<Rightarrow> nat \<Rightarrow> string \<times> nat \<times> nat" where
  "trim_whitespace buf b e =
     (let b' = trim_front buf b e; (buf', e') = trim_back buf b' e in (buf', b', e'))"

text \<open>
  \<open>end = s + strlen(s); if (end != s) { --end; trim_whitespace(&s, &end); }\<close>, which the loop body
  has three times (the line, the key, the value): the buffer and the new start.
\<close>

definition trim_at :: "string \<Rightarrow> nat \<Rightarrow> string \<times> nat" where
  "trim_at buf b =
     (let e = b + length (cstr_at buf b) in
      if e \<noteq> b then (case trim_whitespace buf b (e - 1) of (buf', b', _) \<Rightarrow> (buf', b'))
      else (buf, b))"

text \<open>The loop body: the section buffer and the configuration before and after the line.\<close>

definition ini_line :: "string \<Rightarrow> string \<times> AppCfg \<Rightarrow> string \<times> AppCfg" where
  "ini_line buf st =
     (let (sect, cfg) = st; b = skip_spaces buf 0 in
      if buf ! b = NUL \<or> buf ! b = CHR ''#'' \<or> buf ! b = CHR '';'' then st
      else
        let buf = (case strpbrk_at buf b {CHR ''#'', CHR '';''} of
                     Some i \<Rightarrow> buf[i := NUL] | None \<Rightarrow> buf);
            (buf, b) = trim_at buf b
        in if buf ! b = NUL then st
           else if buf ! b = CHR ''['' then
             (case strchr_at buf b (CHR '']'') of
                None \<Rightarrow> st
              | Some close \<Rightarrow>
                  let buf = buf[close := NUL]
                  in (copy_string sect 32 (Some (cstr_at buf (b + 1))), cfg))
           else
             (case strchr_at buf b (CHR ''='') of
                None \<Rightarrow> st
              | Some equals \<Rightarrow>
                  let buf = buf[equals := NUL];
                      (buf, key) = trim_at buf b;
                      (buf, val) = trim_at buf (equals + 1)
                  in if buf ! key = NUL then st
                     else (sect, ini_dispatch sect (cstr_at buf key) (cstr_at buf val) cfg)))"

section \<open>The file\<close>

definition MAX_INI_LINE :: nat where
  "MAX_INI_LINE = 512"

text \<open>
  \<open>fgets(line, n + 1, fp)\<close> on the bytes still to be read: up to \<open>n\<close> bytes, through the first newline.
\<close>

fun fgets :: "nat \<Rightarrow> string \<Rightarrow> string \<times> string" where
  "fgets 0 input = ([], input)"
| "fgets (Suc n) [] = ([], [])"
| "fgets (Suc n) (c # cs) =
     (if c = CHR 0x0A then ([c], cs)
      else (case fgets n cs of (l, rest) \<Rightarrow> (c # l, rest)))"

lemma fgets_append: "fgets n input = (l, rest) \<Longrightarrow> l @ rest = input"
proof (induction n input arbitrary: l rest rule: fgets.induct)
  case (3 n c cs)
  obtain l' r' where f: "fgets n cs = (l', r')" by (cases "fgets n cs") auto
  show ?case
  proof (cases "c = CHR 0x0A")
    case True
    then show ?thesis using "3.prems" by simp
  next
    case False
    then have "l = c # l'" and "rest = r'" using "3.prems" f by simp_all
    then show ?thesis using "3.IH" [OF False f] by simp
  qed
qed simp_all

lemma fgets_nonempty: "0 < n \<Longrightarrow> input \<noteq> [] \<Longrightarrow> fst (fgets n input) \<noteq> []"
  by (cases n; cases input) (simp_all add: case_prod_beta)

lemma fgets_rest_less: "input \<noteq> [] \<Longrightarrow> 0 < n \<Longrightarrow> length (snd (fgets n input)) < length input"
proof -
  assume h: "input \<noteq> []" "0 < n"
  obtain l r where lr: "fgets n input = (l, r)" by (cases "fgets n input") auto
  with h have "l \<noteq> []" using fgets_nonempty [of n input] by simp
  moreover have "length l + length r = length input"
    using fgets_append [OF lr] by (metis length_append)
  ultimately show ?thesis using lr by (cases l) auto
qed

text \<open>The loop over the lines; each line is the bytes \<open>fgets\<close> read with the NUL it appends.\<close>

function ini_loop :: "string \<Rightarrow> string \<times> AppCfg \<Rightarrow> string \<times> AppCfg" where
  "ini_loop input st =
     (if input = [] then st
      else (case fgets (MAX_INI_LINE - 1) input of (l, rest) \<Rightarrow>
              ini_loop rest (ini_line (l @ [NUL]) st)))"
  by pat_completeness auto
termination
proof (relation "measure (\<lambda>(input, st). length input)", goal_cases)
  case (2 input st l rest)
  from 2(2) have "snd (fgets (MAX_INI_LINE - 1) input) = rest" by (metis snd_conv)
  with fgets_rest_less [of input "MAX_INI_LINE - 1"] 2(1) show ?case
    by (auto simp: MAX_INI_LINE_def)
qed simp

declare ini_loop.simps [simp del]

text \<open>
  \<open>fs\<close> is what \<open>fopen(path, "r")\<close> finds: None when it fails, else the bytes of the file. The
  argument \<open>path\<close> may alias \<open>cfg->config_path\<close>; it is only read by \<open>fopen\<close>.
\<close>

definition cfg_load_file :: "(string \<Rightarrow> string option) \<Rightarrow> string \<Rightarrow> AppCfg \<Rightarrow> int \<times> AppCfg" where
  "cfg_load_file fs path cfg =
     (case fs path of None \<Rightarrow> (-1, cfg)
      | Some input \<Rightarrow> (0, snd (ini_loop input ([], cfg))))"

end
