(* ===== verification/Ini_Spec.thy ===== *)
theory Ini_Spec
  imports Config_Ini
begin

text \<open>
  What an INI line means, on strings, and the proof that the buffer code of \<open>Config_Ini\<close> computes it:
  \<open>ini_line_refines\<close>. The lemmas before it say what each loop over the buffer does to
  \<open>before @ s @ NUL # after\<close>, the shape every buffer of the loop body has.
\<close>

section \<open>The specification\<close>

definition strip :: "string \<Rightarrow> string" where
  "strip s = rev (dropWhile isspace (rev (dropWhile isspace s)))"

definition comment_char :: "char \<Rightarrow> bool" where
  "comment_char c \<longleftrightarrow> c = CHR ''#'' \<or> c = CHR '';''"

definition ini_text :: "string \<Rightarrow> string" where
  "ini_text l = strip (takeWhile (\<lambda>c. \<not> comment_char c) (dropWhile isspace l))"

definition ini_line_spec :: "string \<Rightarrow> string \<times> AppCfg \<Rightarrow> string \<times> AppCfg" where
  "ini_line_spec l st =
     (let (sect, cfg) = st; s = ini_text l in
      case s of
        [] \<Rightarrow> st
      | c # cs \<Rightarrow>
          if c = CHR ''['' then
            (if CHR '']'' \<in> set s
             then (copy_string sect 32 (Some (takeWhile (\<lambda>c. c \<noteq> CHR '']'') cs)), cfg) else st)
          else if CHR ''='' \<in> set s then
            (let key = strip (takeWhile (\<lambda>c. c \<noteq> CHR ''='') s);
                 val = strip (tl (dropWhile (\<lambda>c. c \<noteq> CHR ''='') s))
             in if key = [] then st else (sect, ini_dispatch sect key val cfg))
          else st)"

section \<open>The loops on a buffer\<close>

lemma NUL_not_space [simp]: "\<not> isspace NUL"
  by (simp add: isspace_def NUL_def)

lemma nth_mid [simp]: "(before @ c # after) ! length before = c"
  by simp

lemma update_mid [simp]: "(before @ c # after)[length before := d] = before @ d # after"
  by simp

lemma cstr_at_mid: "NUL \<notin> set s \<Longrightarrow> cstr_at (before @ s @ NUL # after) (length before) = s"
  by (auto simp: cstr_at_def takeWhile_append)

lemma skip_spaces_run:
  "\<forall>c \<in> set w. isspace c \<Longrightarrow> rest \<noteq> [] \<Longrightarrow> \<not> isspace (hd rest) \<Longrightarrow>
   skip_spaces (before @ w @ rest) (length before) = length before + length w"
proof (induction w arbitrary: before)
  case Nil
  then show ?case by (cases rest) (auto simp: skip_spaces.simps)
next
  case (Cons c w)
  then have "skip_spaces ((before @ [c]) @ w @ rest) (length (before @ [c]))
      = length (before @ [c]) + length w"
    by (intro Cons.IH) auto
  with Cons.prems show ?case by (subst skip_spaces.simps) simp
qed

lemma trim_front_run:
  "\<forall>c \<in> set w. isspace c \<Longrightarrow> rest \<noteq> [] \<Longrightarrow> \<not> isspace (hd rest) \<Longrightarrow>
   length before + length w \<le> Suc e \<Longrightarrow>
   trim_front (before @ w @ rest) (length before) e = length before + length w"
proof (induction w arbitrary: before)
  case Nil
  then show ?case by (cases rest) (auto simp: trim_front.simps)
next
  case (Cons c w)
  then have "trim_front ((before @ [c]) @ w @ rest) (length (before @ [c])) e
      = length (before @ [c]) + length w"
    by (intro Cons.IH) auto
  with Cons.prems show ?case by (subst trim_front.simps) simp
qed

lemma trim_back_run:
  "\<forall>c \<in> set w. isspace c \<Longrightarrow> t \<noteq> [] \<Longrightarrow> \<not> isspace (last t) \<Longrightarrow>
   trim_back (before @ t @ w @ after) (length before) (length before + length t + length w - 1)
   = (before @ t @ replicate (length w) NUL @ after, length before + length t - 1)"
proof (induction w arbitrary: after rule: rev_induct)
  case Nil
  obtain t' c where "t = t' @ [c]" using Nil.prems(2) by (metis append_butlast_last_id)
  with Nil.prems(3) show ?case by (simp add: trim_back.simps nth_append)
next
  case (snoc c w)
  let ?e = "length before + length t + length (w @ [c]) - 1"
  let ?buf = "before @ t @ (w @ [c]) @ after"
  have e: "?e = length (before @ t @ w)" by simp
  have at: "?buf ! ?e = c" unfolding e using nth_mid [of "before @ t @ w" c after] by simp
  have up: "?buf[?e := NUL] = before @ t @ w @ NUL # after"
    unfolding e using update_mid [of "before @ t @ w" c after NUL] by simp
  have "0 < length t" using snoc.prems(2) by simp
  then have le: "length before \<le> ?e" and pos: "0 < ?e" by simp_all
  have "trim_back ?buf (length before) ?e = trim_back (?buf[?e := NUL]) (length before) (?e - 1)"
    using at le pos snoc.prems(1) by (subst trim_back.simps) simp
  also have "\<dots> = trim_back (before @ t @ w @ NUL # after) (length before)
      (length before + length t + length w - 1)"
    unfolding up by simp
  also have "\<dots> = (before @ t @ replicate (length w) NUL @ NUL # after, length before + length t - 1)"
    using snoc.prems by (intro snoc.IH) auto
  finally show ?case by (simp add: replicate_app_Cons_same)
qed

section \<open>Stripping\<close>

definition lead :: "string \<Rightarrow> string" where
  "lead s = takeWhile isspace s"

definition trail :: "string \<Rightarrow> string" where
  "trail s = rev (takeWhile isspace (rev (dropWhile isspace s)))"

lemma strip_trail: "dropWhile isspace s = strip s @ trail s"
  unfolding strip_def trail_def by (metis rev_append rev_rev_ident takeWhile_dropWhile_id)

lemma strip_split: "s = lead s @ strip s @ trail s"
  unfolding strip_trail [symmetric] lead_def by simp

lemma lead_spaces: "\<forall>c \<in> set (lead s). isspace c"
  by (auto simp: lead_def dest: set_takeWhileD)

lemma trail_spaces: "\<forall>c \<in> set (trail s). isspace c"
  by (auto simp: trail_def dest: set_takeWhileD)

lemma strip_Nil_iff: "strip s = [] \<longleftrightarrow> dropWhile isspace s = []"
proof
  assume "strip s = []"
  then have "\<forall>c \<in> set (dropWhile isspace s). isspace c"
    unfolding strip_def by (simp only: rev_is_Nil_conv dropWhile_eq_Nil_conv set_rev)
  then show "dropWhile isspace s = []"
    using hd_dropWhile [of isspace s] by (cases "dropWhile isspace s") auto
next
  assume "dropWhile isspace s = []"
  then show "strip s = []" unfolding strip_def by (simp only: rev.simps dropWhile.simps)
qed

lemma strip_Nil_trail: "strip s = [] \<Longrightarrow> trail s = []"
  by (metis strip_trail strip_Nil_iff append_is_Nil_conv)

lemma strip_hd:
  assumes "strip s \<noteq> []"
  shows "\<not> isspace (hd (strip s))"
proof -
  have "dropWhile isspace s \<noteq> []" using assms strip_Nil_iff [of s] by simp
  from hd_dropWhile [OF this] show ?thesis
    unfolding strip_trail [of s] using assms by simp
qed

lemma strip_last:
  assumes "strip s \<noteq> []"
  shows "\<not> isspace (last (strip s))"
proof -
  have "dropWhile isspace (rev (dropWhile isspace s)) \<noteq> []"
    using assms unfolding strip_def by (simp only: rev_is_Nil_conv not_False_eq_True)
  from hd_dropWhile [OF this] show ?thesis
    unfolding strip_def by (simp only: last_rev not_False_eq_True)
qed

lemma strip_set: "set (strip s) \<subseteq> set s"
  by (subst (2) strip_split [of s]) auto

text \<open>What \<open>trim_at\<close> does to a string in the buffer: \<open>before\<close> and \<open>after\<close> keep their places.\<close>

lemma trim_at_run:
  assumes nn: "NUL \<notin> set s"
  shows "trim_at (before @ s @ NUL # after) (length before)
       = ((before @ lead s) @ strip s @ NUL # replicate (length (trail s)) NUL @ after,
          length before + length (lead s))"
proof (cases "s = []")
  case True
  then show ?thesis
    by (simp add: trim_at_def cstr_at_def lead_def strip_def trail_def)
next
  case ne: False
  let ?buf = "before @ s @ NUL # after" and ?e = "length before + length s - 1"
  have len: "length (cstr_at ?buf (length before)) = length s"
    using nn by (simp add: cstr_at_mid)
  have buf: "?buf = before @ lead s @ (strip s @ trail s @ NUL # after)"
    by (subst strip_split [of s]) simp
  have slen: "length s = length (lead s) + length (strip s) + length (trail s)"
    by (subst strip_split [of s]) simp
  have front: "trim_front ?buf (length before) ?e = length before + length (lead s)"
    unfolding buf using ne slen lead_spaces strip_hd [of s] strip_Nil_trail [of s]
    by (intro trim_front_run) (auto simp: hd_append)
  show ?thesis
  proof (cases "strip s = []")
    case True
    with slen strip_Nil_trail have "length s = length (lead s)" by simp
    with ne have "\<not> length before + length (lead s) \<le> ?e" by (cases s) auto
    then have "trim_back ?buf (length before + length (lead s)) ?e = (?buf, ?e)"
      by (simp add: trim_back.simps)
    then show ?thesis
      using front len ne True strip_Nil_trail [OF True] buf
      by (simp add: trim_at_def trim_whitespace_def Let_def)
  next
    case False
    have "trim_back ((before @ lead s) @ strip s @ trail s @ NUL # after) (length (before @ lead s))
            (length (before @ lead s) + length (strip s) + length (trail s) - 1)
        = ((before @ lead s) @ strip s @ replicate (length (trail s)) NUL @ NUL # after,
           length (before @ lead s) + length (strip s) - 1)"
      using False strip_last trail_spaces by (intro trim_back_run) auto
    moreover have "length (before @ lead s) + length (strip s) + length (trail s) - 1 = ?e"
      using slen by simp
    ultimately have "trim_back ?buf (length before + length (lead s)) ?e
        = ((before @ lead s) @ strip s @ NUL # replicate (length (trail s)) NUL @ after,
           length (before @ lead s) + length (strip s) - 1)"
      by (subst buf) (simp add: replicate_app_Cons_same)
    then show ?thesis
      using front len ne by (simp add: trim_at_def trim_whitespace_def Let_def)
  qed
qed

lemma set_tl_dropWhile: "set (tl (dropWhile P s)) \<subseteq> set s"
  by (induction s) auto

text \<open>Cutting the buffer at the first byte that fails \<open>P\<close>.\<close>

lemma cut_run:
  assumes "\<exists>x \<in> set s. \<not> P x"
  shows "(before @ s @ after)[length before + length (takeWhile P s) := NUL]
       = before @ takeWhile P s @ NUL # tl (dropWhile P s) @ after"
proof -
  have "dropWhile P s \<noteq> []" using assms by simp
  then obtain c cs where c: "dropWhile P s = c # cs" by (cases "dropWhile P s") auto
  then have eq: "before @ s @ after = (before @ takeWhile P s) @ c # cs @ after"
    by (metis takeWhile_dropWhile_id append.assoc append_Cons)
  have "(before @ s @ after)[length (before @ takeWhile P s) := NUL]
      = (before @ takeWhile P s) @ NUL # cs @ after"
    unfolding eq by (rule update_mid)
  with c show ?thesis by simp
qed

lemma strpbrk_run:
  assumes "NUL \<notin> set s"
  shows "strpbrk_at (before @ s @ NUL # after) (length before) cs
       = (if \<exists>c \<in> set s. c \<in> cs then Some (length before + length (takeWhile (\<lambda>c. c \<notin> cs) s))
          else None)"
proof -
  have "length (takeWhile (\<lambda>c. c \<notin> cs) s) < length s \<longleftrightarrow> (\<exists>c \<in> set s. c \<in> cs)"
    by (metis length_takeWhile_le linorder_not_le nat_less_le takeWhile_eq_all_conv
        takeWhile_eq_take take_all_iff)
  then show ?thesis
    using assms by (simp add: strpbrk_at_def cstr_at_mid)
qed

lemma strchr_run:
  assumes "NUL \<notin> set s"
  shows "strchr_at (before @ s @ NUL # after) (length before) c
       = (if c \<in> set s then Some (length before + length (takeWhile (\<lambda>x. x \<noteq> c) s)) else None)"
  unfolding strchr_at_def strpbrk_run [OF assms] by simp

lemma lead_hd: "s \<noteq> [] \<Longrightarrow> \<not> isspace (hd s) \<Longrightarrow> lead s = []"
  by (cases s) (auto simp: lead_def)

text \<open>The part of the loop body behind the comment cut, as \<open>ini_line\<close> has it.\<close>

definition ini_rest :: "string \<Rightarrow> nat \<Rightarrow> string \<times> AppCfg \<Rightarrow> string \<times> AppCfg" where
  "ini_rest buf b st =
     (let (sect, cfg) = st in
      if buf ! b = NUL then st
      else if buf ! b = CHR ''['' then
        (case strchr_at buf b (CHR '']'') of
           None \<Rightarrow> st
         | Some close \<Rightarrow>
             let buf = buf[close := NUL]
             in (copy_string sect 32 (Some (cstr_at buf (b + 1))), cfg))
      else
        (case strchr_at buf b (CHR ''='') of
           None \<Rightarrow> st
         | Some equals \<Rightarrow>
             let buf = buf[equals := NUL];
                 (buf, key) = trim_at buf b;
                 (buf, val) = trim_at buf (equals + 1)
             in if buf ! key = NUL then st
                else (sect, ini_dispatch sect (cstr_at buf key) (cstr_at buf val) cfg)))"

lemma cstr_at_cons:
  "NUL \<notin> set s \<Longrightarrow> cstr_at (before @ c # s @ NUL # after) (Suc (length before)) = s"
  using cstr_at_mid [of s "before @ [c]" after] by simp

lemma ini_rest_section:
  assumes nn: "NUL \<notin> set s" and "s = CHR ''['' # cs"
  shows "ini_rest (before @ s @ NUL # after) (length before) (sect, cfg)
       = (if CHR '']'' \<in> set s
          then (copy_string sect 32 (Some (takeWhile (\<lambda>c. c \<noteq> CHR '']'') cs)), cfg)
          else (sect, cfg))"
proof (cases "CHR '']'' \<in> set s")
  case False
  then show ?thesis
    using strchr_run [OF nn, of before after "CHR '']''"] assms(2)
    by (simp add: ini_rest_def NUL_def)
next
  case True
  let ?P = "\<lambda>c. c \<noteq> CHR '']''" and ?buf = "before @ s @ NUL # after"
  have chr: "strchr_at ?buf (length before) (CHR '']'') = Some (length before + length (takeWhile ?P s))"
    using strchr_run [OF nn, of before after "CHR '']''"] True by simp
  have ps: "takeWhile ?P s = CHR ''['' # takeWhile ?P cs" using assms(2) by simp
  have cut: "?buf[length before + length (takeWhile ?P s) := NUL]
      = before @ CHR ''['' # takeWhile ?P cs @ NUL # tl (dropWhile ?P s) @ NUL # after"
    using cut_run [of s ?P before "NUL # after"] True ps by auto
  have "NUL \<notin> set (takeWhile ?P cs)" using nn assms(2) by (auto dest: set_takeWhileD)
  then have "cstr_at (?buf[length before + length (takeWhile ?P s) := NUL]) (Suc (length before))
      = takeWhile ?P cs"
    unfolding cut by (rule cstr_at_cons)
  moreover have "?buf ! length before = CHR ''[''" using assms(2) by simp
  ultimately show ?thesis
    using chr True by (simp add: ini_rest_def NUL_def)
qed

lemma ini_rest_pair:
  assumes nn: "NUL \<notin> set s" and ne: "s \<noteq> []" and "hd s \<noteq> CHR ''[''"
  shows "ini_rest (before @ s @ NUL # after) (length before) (sect, cfg)
       = (if CHR ''='' \<in> set s then
            (let key = strip (takeWhile (\<lambda>c. c \<noteq> CHR ''='') s);
                 val = strip (tl (dropWhile (\<lambda>c. c \<noteq> CHR ''='') s))
             in if key = [] then (sect, cfg) else (sect, ini_dispatch sect key val cfg))
          else (sect, cfg))"
proof -
  let ?P = "\<lambda>c. c \<noteq> CHR ''=''" and ?buf = "before @ s @ NUL # after"
  have at: "?buf ! length before = hd s" using ne by (cases s) auto
  have "hd s \<noteq> NUL" using nn ne by (cases s) auto
  note at = at this assms(3)
  show ?thesis
  proof (cases "CHR ''='' \<in> set s")
    case False
    then show ?thesis
      using strchr_run [OF nn, of before after "CHR ''=''"] at by (simp add: ini_rest_def)
  next
    case True
    let ?k = "takeWhile ?P s" and ?v = "tl (dropWhile ?P s)"
    have chr: "strchr_at ?buf (length before) (CHR ''='') = Some (length before + length ?k)"
      using strchr_run [OF nn, of before after "CHR ''=''"] True by simp
    have cut: "?buf[length before + length ?k := NUL] = before @ ?k @ NUL # ?v @ NUL # after"
      using cut_run [of s ?P before "NUL # after"] True by auto
    have nk: "NUL \<notin> set ?k" using nn by (auto dest: set_takeWhileD)
    have nv: "NUL \<notin> set ?v" using nn set_tl_dropWhile [of ?P s] by blast
    let ?mid = "before @ lead ?k @ strip ?k @ NUL # replicate (length (trail ?k)) NUL"
    have tk: "trim_at (before @ ?k @ NUL # ?v @ NUL # after) (length before)
        = (?mid @ ?v @ NUL # after, length (before @ lead ?k))"
      using trim_at_run [OF nk] by simp
    have "length (lead ?k) + length (strip ?k) + length (trail ?k) = length ?k"
      by (subst (4) strip_split) simp
    then have eq: "length before + length ?k + 1 = length ?mid" by simp
    have tv: "trim_at (?mid @ ?v @ NUL # after) (length before + length ?k + 1)
        = ((?mid @ lead ?v) @ strip ?v @ NUL # replicate (length (trail ?v)) NUL @ after,
           length (?mid @ lead ?v))"
      unfolding eq using trim_at_run [OF nv, of ?mid after] by simp
    let ?fin = "(?mid @ lead ?v) @ strip ?v @ NUL # replicate (length (trail ?v)) NUL @ after"
    have key: "cstr_at ?fin (length (before @ lead ?k)) = strip ?k"
      using cstr_at_mid [of "strip ?k" "before @ lead ?k"] nk strip_set [of ?k] by auto
    have val: "cstr_at ?fin (length (?mid @ lead ?v)) = strip ?v"
      using nv strip_set [of ?v] by (intro cstr_at_mid) auto
    have "?fin ! length (before @ lead ?k) = hd (strip ?k @ [NUL])"
      by (cases "strip ?k") (simp_all add: nth_append)
    then have kn: "?fin ! length (before @ lead ?k) = NUL \<longleftrightarrow> strip ?k = []"
      using nk strip_set [of ?k] by (cases "strip ?k") auto
    show ?thesis
      unfolding ini_rest_def Let_def prod.case at(1) chr option.case cut tk tv kn key val
      using at True by simp
  qed
qed

section \<open>The loop body and the loop\<close>

lemma ini_line_rest:
  "ini_line buf st =
     (let b = skip_spaces buf 0 in
      if buf ! b = NUL \<or> buf ! b = CHR ''#'' \<or> buf ! b = CHR '';'' then st
      else case trim_at (case strpbrk_at buf b {CHR ''#'', CHR '';''} of
                           Some i \<Rightarrow> buf[i := NUL] | None \<Rightarrow> buf) b of
             (buf', b') \<Rightarrow> ini_rest buf' b' st)"
  by (cases st) (simp add: ini_line_def ini_rest_def Let_def)

lemma nth_mid_hd: "(before @ d @ NUL # after) ! length before = hd (d @ [NUL])"
  by (cases d) simp_all

lemma ini_line_run:
  assumes nn: "NUL \<notin> set l"
  shows "ini_line (l @ NUL # junk) (sect, cfg) = ini_line_spec l (sect, cfg)"
proof -
  obtain d where d: "dropWhile isspace l = d" by blast
  let ?d = d and ?buf = "l @ NUL # junk"
  let ?nc = "\<lambda>c. c \<notin> {CHR ''#'', CHR '';''}"
  have nc: "(\<lambda>c. \<not> comment_char c) = ?nc" by (auto simp: comment_char_def)
  have buf: "?buf = lead l @ ?d @ NUL # junk" by (simp add: lead_def flip: d)
  have dnn: "NUL \<notin> set ?d" using nn d by (auto dest: set_dropWhileD)
  have hd_d: "\<not> isspace (hd (?d @ NUL # junk))"
    using hd_dropWhile [of isspace l] unfolding d by (cases "?d = []") (simp_all add: hd_append)
  have sk: "skip_spaces ?buf 0 = length (lead l)"
    using skip_spaces_run [OF lead_spaces _ hd_d, of "[]" l] unfolding buf by simp
  have at: "?buf ! length (lead l) = hd (?d @ [NUL])"
    unfolding buf by (rule nth_mid_hd)
  show ?thesis
  proof (cases "?d = [] \<or> comment_char (hd ?d)")
    case True
    then have "takeWhile ?nc ?d = []" by (cases ?d) (auto simp: comment_char_def)
    then have "ini_text l = []" by (simp add: ini_text_def nc strip_def d)
    moreover have "?buf ! length (lead l) \<in> {NUL, CHR ''#'', CHR '';''}"
      unfolding at using True by (cases ?d) (auto simp: comment_char_def)
    ultimately show ?thesis
      unfolding ini_line_rest Let_def sk by (auto simp: ini_line_spec_def)
  next
    case False
    let ?u = "takeWhile ?nc ?d"
    have une: "?u \<noteq> []" and uhd: "hd ?u = hd ?d"
      using False by (cases ?d; simp add: comment_char_def)+
    have unn: "NUL \<notin> set ?u" using dnn by (auto dest: set_takeWhileD)
    have usp: "\<not> isspace (hd ?u)" using False hd_d uhd by (simp add: hd_append)
    have "hd ?d \<noteq> NUL" using dnn False by (cases ?d) auto
    then have go: "\<not> (?buf ! length (lead l) = NUL \<or> ?buf ! length (lead l) = CHR ''#''
        \<or> ?buf ! length (lead l) = CHR '';'')"
      unfolding at using False by (cases ?d) (auto simp: comment_char_def)
    obtain after where cut: "(case strpbrk_at ?buf (length (lead l)) {CHR ''#'', CHR '';''} of
        Some i \<Rightarrow> ?buf[i := NUL] | None \<Rightarrow> ?buf) = lead l @ ?u @ NUL # after"
    proof (cases "\<exists>c \<in> set ?d. c \<in> {CHR ''#'', CHR '';''}")
      case True
      have "strpbrk_at ?buf (length (lead l)) {CHR ''#'', CHR '';''}
          = Some (length (lead l) + length ?u)"
        unfolding buf using strpbrk_run [OF dnn, of "lead l" junk "{CHR ''#'', CHR '';''}"] True
        by simp
      moreover have "?buf[length (lead l) + length ?u := NUL]
          = lead l @ ?u @ NUL # tl (dropWhile ?nc ?d) @ NUL # junk"
        unfolding buf using True by (intro cut_run) auto
      ultimately show thesis by (intro that) simp
    next
      case False
      then have u: "?u = ?d" by (intro takeWhile_all) auto
      have "strpbrk_at ?buf (length (lead l)) {CHR ''#'', CHR '';''} = None"
        unfolding buf using strpbrk_run [OF dnn, of "lead l" junk "{CHR ''#'', CHR '';''}"] False
        by simp
      then show thesis
        using buf u by (intro that [of junk]) (simp only: option.case)
    qed
    let ?s = "strip ?u"
    have su: "ini_text l = ?s" by (simp add: ini_text_def nc d)
    have "lead ?u = []" using une usp by (rule lead_hd)
    then obtain after' where tr: "trim_at (lead l @ ?u @ NUL # after) (length (lead l))
        = (lead l @ ?s @ NUL # after', length (lead l))"
      using trim_at_run [OF unn, of "lead l" after] by auto
    have snn: "NUL \<notin> set ?s" using unn strip_set [of ?u] by blast
    have sne: "?s \<noteq> []"
      using une \<open>lead ?u = []\<close> strip_split [of ?u] strip_Nil_trail [of ?u] by auto
    have line: "ini_line ?buf (sect, cfg) = ini_rest (lead l @ ?s @ NUL # after') (length (lead l)) (sect, cfg)"
      unfolding ini_line_rest Let_def sk cut tr prod.case using go by simp
    show ?thesis
    proof (cases "hd ?s = CHR ''[''")
      case True
      then obtain cs where "?s = CHR ''['' # cs" using sne by (cases ?s) auto
      then show ?thesis
        unfolding line ini_line_spec_def Let_def prod.case su
        using ini_rest_section [OF snn] by simp
    next
      case False
      then show ?thesis
        unfolding line ini_line_spec_def Let_def prod.case su
        using ini_rest_pair [OF snn sne] sne by (cases ?s) (simp_all add: Let_def)
    qed
  qed
qed

end
