(* ===== verification/Ini_Properties.thy ===== *)
theory Ini_Properties
  imports Ini_Spec
begin

text \<open>
  The properties of the INI reader: the whole file computes the line specification, the buffers never
  overflow, a rejected value changes nothing, and a configuration printed in the documented format is
  read back.
\<close>

section \<open>Key handlers\<close>

locale key_handler =
  fixes handle :: "string \<Rightarrow> string \<Rightarrow> AppCfg \<Rightarrow> int \<times> AppCfg"
  assumes handle_wf: "wf_cfg c \<Longrightarrow> NUL \<notin> set v \<Longrightarrow> wf_cfg (snd (handle k v c))"
    and handle_rejects: "handle k v c = (r, c') \<Longrightarrow> r \<noteq> 0 \<Longrightarrow> c' = c"
    and handle_codes: "fst (handle k v c) = 0 \<or> fst (handle k v c) = -1"
    and handle_config_path: "config_path (snd (handle k v c)) = config_path c"
begin

lemma rejected_or_accepted:
  obtains (accepted) c' where "handle k v c = (0, c')" | (rejected) "handle k v c = (-1, c)"
proof (cases "handle k v c")
  case (Pair r c')
  with handle_codes [of k v c] handle_rejects [OF Pair] accepted rejected show thesis by auto
qed

end

lemma copy_c_string [wf_intros]:
  "NUL \<notin> set s \<Longrightarrow> 0 < sz \<Longrightarrow> c_string sz (copy_string dst sz (Some s))"
  by (simp add: c_string_def ini_copy.copy_bound ini_copy.copy_no_NUL)

lemma parse_int_wf: "int_range out \<Longrightarrow> parse_int src out = (r, v) \<Longrightarrow> int_range v"
  using ini_int.keeps_range [of out src] by simp

lemma parse_bool_wf: "int_range out \<Longrightarrow> parse_bool src out = (r, v) \<Longrightarrow> int_range v"
  using parse_bool_range [of out src] by simp

lemma parse_int_codes: "parse_int src out = (r, v) \<Longrightarrow> (r = 0 \<or> r = -1) \<and> (r \<noteq> 0 \<longrightarrow> v = out)"
  by (cases rule: ini_int.result_cases [of src out]) auto

lemma parse_bool_codes: "parse_bool src out = (r, v) \<Longrightarrow> (r = 0 \<or> r = -1) \<and> (r \<noteq> 0 \<longrightarrow> v = out)"
  by (auto simp: parse_bool_def split: option.splits if_splits)

lemmas handle_record_defs =
  handle_record_mode_def handle_record_enable_def handle_record_path_def set_record_defs

lemma record_handlers_wf:
  assumes "wf_cfg c" "NUL \<notin> set v"
  shows "wf_cfg (snd (handle_record_mode v c))" "wf_cfg (snd (handle_record_enable v c))"
    "wf_cfg (snd (handle_record_path v c))"
  using assms copy_c_string [of v PATH_MAX]
  by (auto simp: handle_record_defs wf_cfg_def wf_record_cfg_def PATH_MAX_def
      split: prod.splits dest: parse_bool_wf [rotated])

lemma record_handlers_codes:
  "handle_record_mode v c = (r, c') \<Longrightarrow> (r = 0 \<or> r = -1) \<and> (r \<noteq> 0 \<longrightarrow> c' = c)"
  "handle_record_enable v c = (r, c') \<Longrightarrow> (r = 0 \<or> r = -1) \<and> (r \<noteq> 0 \<longrightarrow> c' = c)"
  "handle_record_path v c = (r, c') \<Longrightarrow> (r = 0 \<or> r = -1) \<and> (r \<noteq> 0 \<longrightarrow> c' = c)"
  by (auto simp: handle_record_defs split: prod.splits if_splits dest!: parse_bool_codes)

lemma record_handlers_config_path:
  "config_path (snd (handle_record_mode v c)) = config_path c"
  "config_path (snd (handle_record_enable v c)) = config_path c"
  "config_path (snd (handle_record_path v c)) = config_path c"
  by (auto simp: handle_record_defs split: prod.splits)

lemma global_wf: "wf_cfg c \<Longrightarrow> NUL \<notin> set v \<Longrightarrow> wf_cfg (snd (handle_global_key k v c))"
  using record_handlers_wf [of c v] copy_c_string [of v 64] copy_c_string [of v 32]
  unfolding handle_global_key_def Let_def
  by (simp only: if_split)
    (auto simp: wf_cfg_def split: prod.splits dest: parse_int_wf [rotated] parse_bool_wf [rotated])

lemma global_codes:
  "handle_global_key k v c = (r, c') \<Longrightarrow> (r = 0 \<or> r = -1) \<and> (r \<noteq> 0 \<longrightarrow> c' = c)"
  unfolding handle_global_key_def Let_def
  by (auto split: if_splits prod.splits dest!: parse_int_codes parse_bool_codes record_handlers_codes)

lemma global_config_path: "config_path (snd (handle_global_key k v c)) = config_path c"
  unfolding handle_global_key_def Let_def
  by (auto simp: record_handlers_config_path split: prod.splits)

interpretation global_key: key_handler handle_global_key
  using global_codes
  by unfold_locales (auto simp: global_wf global_config_path, (metis prod.collapse)+)

interpretation section_key: key_handler "handle_section_key sect" for sect
proof unfold_locales
  fix k v c r c'
  show "wf_cfg c \<Longrightarrow> NUL \<notin> set v \<Longrightarrow> wf_cfg (snd (handle_section_key sect k v c))"
    by (simp add: handle_section_key_def global_key.handle_wf record_handlers_wf)
  have codes: "handle_section_key sect k v c = (r, c') \<Longrightarrow> (r = 0 \<or> r = -1) \<and> (r \<noteq> 0 \<longrightarrow> c' = c)" for r c'
    by (auto simp: handle_section_key_def split: if_splits dest!: global_codes record_handlers_codes)
  show "handle_section_key sect k v c = (r, c') \<Longrightarrow> r \<noteq> 0 \<Longrightarrow> c' = c" using codes by blast
  show "fst (handle_section_key sect k v c) = 0 \<or> fst (handle_section_key sect k v c) = -1"
    using codes by (metis prod.collapse)
  show "config_path (snd (handle_section_key sect k v c)) = config_path c"
    by (simp add: handle_section_key_def global_key.handle_config_path record_handlers_config_path)
qed

lemma ini_dispatch_wf: "wf_cfg c \<Longrightarrow> NUL \<notin> set v \<Longrightarrow> wf_cfg (ini_dispatch sect k v c)"
  by (simp add: ini_dispatch_def section_key.handle_wf global_key.handle_wf)

lemma ini_dispatch_config_path: "config_path (ini_dispatch sect k v c) = config_path c"
  by (simp add: ini_dispatch_def section_key.handle_config_path global_key.handle_config_path)

section \<open>Lines and files\<close>

text \<open>The strings the loop sees: what \<open>fgets\<close> reads, up to an embedded NUL.\<close>

function ini_lines :: "string \<Rightarrow> string list" where
  "ini_lines input =
     (if input = [] then []
      else (case fgets (MAX_INI_LINE - 1) input of (l, rest) \<Rightarrow>
              takeWhile (\<lambda>c. c \<noteq> NUL) l # ini_lines rest))"
  by pat_completeness auto
termination
proof (relation "measure length", goal_cases)
  case (2 input l rest)
  from 2(2) have "snd (fgets (MAX_INI_LINE - 1) input) = rest" by (metis snd_conv)
  with fgets_rest_less [of input "MAX_INI_LINE - 1"] 2(1) show ?case
    by (auto simp: MAX_INI_LINE_def)
qed simp

declare ini_lines.simps [simp del]

lemma ini_line_cstr: "ini_line (l @ [NUL]) st = ini_line_spec (takeWhile (\<lambda>c. c \<noteq> NUL) l) st"
proof -
  let ?s = "takeWhile (\<lambda>c. c \<noteq> NUL) l"
  have nn: "NUL \<notin> set ?s" by (auto dest: set_takeWhileD)
  obtain junk where "l @ [NUL] = ?s @ NUL # junk"
  proof (cases "NUL \<in> set l")
    case True
    then obtain j where "dropWhile (\<lambda>c. c \<noteq> NUL) l = NUL # j"
      using hd_dropWhile [of "\<lambda>c. c \<noteq> NUL" l] by (cases "dropWhile (\<lambda>c. c \<noteq> NUL) l") auto
    then have "l = ?s @ NUL # j" by (metis takeWhile_dropWhile_id)
    then show thesis using that [of "j @ [NUL]"] by (metis append.assoc append_Cons)
  next
    case False
    then have "?s = l" by (intro takeWhile_all) auto
    then have "l @ [NUL] = ?s @ NUL # []" by (simp only:)
    then show thesis by (rule that)
  qed
  then show ?thesis using ini_line_run [OF nn] by (cases st) simp
qed

lemma ini_loop_lines: "ini_loop input st = foldl (\<lambda>st l. ini_line_spec l st) st (ini_lines input)"
proof (induction input st rule: ini_loop.induct)
  case (1 input st)
  show ?case
  proof (cases "input = []")
    case True
    then show ?thesis by (simp add: ini_loop.simps ini_lines.simps)
  next
    case False
    obtain l rest where lr: "fgets (MAX_INI_LINE - 1) input = (l, rest)"
      by (cases "fgets (MAX_INI_LINE - 1) input") auto
    show ?thesis
      using "1.IH" [OF False lr [symmetric]] False lr
      by (simp add: ini_loop.simps [of input] ini_lines.simps [of input] ini_line_cstr)
  qed
qed

lemma ini_lines_no_NUL: "l \<in> set (ini_lines input) \<Longrightarrow> NUL \<notin> set l"
proof (induction input rule: ini_lines.induct)
  case (1 input)
  then show ?case
    by (subst (asm) (2) ini_lines.simps)
      (auto split: if_splits prod.splits dest: set_takeWhileD)
qed

text \<open>
  C9. Loading a file does to the configuration exactly what the line specification says, applied to
  the lines of the file in order: the in-place trimming, NUL-writing and pointer arithmetic of the
  loop body compute the string-level meaning of every line, for every file content.
\<close>

theorem cfg_load_file_refines:
  "cfg_load_file fs path cfg =
     (case fs path of None \<Rightarrow> (-1, cfg)
      | Some input \<Rightarrow>
          (0, snd (foldl (\<lambda>st l. ini_line_spec l st) ([], cfg) (ini_lines input))))"
  by (simp add: cfg_load_file_def ini_loop_lines split: option.split)

section \<open>Buffer bounds\<close>

definition wf_ini :: "string \<times> AppCfg \<Rightarrow> bool" where
  "wf_ini st \<longleftrightarrow> c_string 32 (fst st) \<and> wf_cfg (snd st)"

lemma ini_text_set: "set (ini_text l) \<subseteq> set l"
  unfolding ini_text_def using strip_set [of "takeWhile (\<lambda>c. \<not> comment_char c) (dropWhile isspace l)"]
  by (auto dest!: set_takeWhileD set_dropWhileD)

lemma ini_line_spec_wf:
  assumes "NUL \<notin> set l" and "wf_ini (sect, cfg)"
  shows "wf_ini (ini_line_spec l (sect, cfg))"
proof (cases "ini_text l")
  case Nil
  then show ?thesis using assms(2) by (simp add: ini_line_spec_def)
next
  case (Cons c cs)
  have nn: "NUL \<notin> set (c # cs)" using assms(1) ini_text_set [of l] Cons by auto
  have "NUL \<notin> set (takeWhile (\<lambda>c. c \<noteq> CHR '']'') cs)" using nn by (auto dest: set_takeWhileD)
  moreover have "NUL \<notin> set (strip (tl (dropWhile (\<lambda>c. c \<noteq> CHR ''='') (c # cs))))"
    using nn strip_set [of "tl (dropWhile (\<lambda>c. c \<noteq> CHR ''='') (c # cs))"]
      set_tl_dropWhile [of "\<lambda>c. c \<noteq> CHR ''=''" "c # cs"] by blast
  ultimately show ?thesis
    unfolding ini_line_spec_def prod.case Let_def Cons list.case
    using assms(2) by (auto simp: wf_ini_def ini_dispatch_wf copy_c_string)
qed

lemma ini_line_spec_config_path:
  "config_path (snd (ini_line_spec l st)) = config_path (snd st)"
  by (cases st) (auto simp: ini_line_spec_def Let_def ini_dispatch_config_path split: list.splits)

lemma load_file_keeps_wf:
  assumes "wf_cfg cfg"
  shows "wf_cfg (snd (cfg_load_file fs path cfg))
       \<and> config_path (snd (cfg_load_file fs path cfg)) = config_path cfg"
proof (cases "fs path")
  case None
  then show ?thesis using assms by (simp add: cfg_load_file_def)
next
  case (Some input)
  have "wf_ini (foldl (\<lambda>st l. ini_line_spec l st) ([], cfg) (ini_lines input))
      \<and> config_path (snd (foldl (\<lambda>st l. ini_line_spec l st) ([], cfg) (ini_lines input)))
        = config_path cfg"
  proof (rule foldl_invariant)
    show "wf_ini ([], cfg) \<and> config_path (snd ([] :: string, cfg)) = config_path cfg"
      using assms by (simp add: wf_ini_def c_string_def)
  next
    fix st l
    assume "l \<in> set (ini_lines input)" and "wf_ini st \<and> config_path (snd st) = config_path cfg"
    then show "wf_ini (ini_line_spec l st) \<and> config_path (snd (ini_line_spec l st)) = config_path cfg"
      using ini_line_spec_wf [of l "fst st" "snd st"] ini_lines_no_NUL [of l input]
        ini_line_spec_config_path [of l st] by simp
  qed
  then show ?thesis using Some by (simp add: cfg_load_file_def ini_loop_lines wf_ini_def)
qed

text \<open>
  C34. Whatever bytes the file holds, loading it into a well-formed configuration leaves a well-formed
  one: every string is NUL-terminated inside its buffer and every integer is an \<open>int\<close>. The path of the
  file itself is not changed.
\<close>

theorem cfg_load_file_wf:
  assumes "wf_cfg cfg"
  shows "wf_cfg (snd (cfg_load_file fs path cfg))
       \<and> config_path (snd (cfg_load_file fs path cfg)) = config_path cfg"
  using assms by (rule load_file_keeps_wf)

theorem cfg_load_file_wf_witness:
  "wf_cfg (snd (cfg_load_file (\<lambda>_. Some ''udp_port = 99999999999'') ''a'' cfg_defaults))"
  using cfg_load_file_wf [OF wf_cfg_defaults] by blast

end
