(* ===== verification/Ini_Roundtrip.thy ===== *)
theory Ini_Roundtrip
  imports Ini_Properties
begin

text \<open>
  The documented INI format as a printer (\<open>ini_render\<close>: the two sections of the README with every
  key), and the proof that \<open>cfg_load_file\<close> reads back the configuration that was printed.
\<close>

abbreviation NL :: char where
  "NL \<equiv> CHR 0x0A"

section \<open>Printing\<close>

definition ini_pair :: "string \<Rightarrow> string \<Rightarrow> string" where
  "ini_pair k v = k @ '' = '' @ v"

definition ini_bool :: "int \<Rightarrow> string" where
  "ini_bool b = (if b = 0 then ''false'' else ''true'')"

definition ini_render_lines :: "AppCfg \<Rightarrow> string list" where
  "ini_render_lines c =
    [''[video]'',
     ini_pair ''card_path'' (card_path c),
     ini_pair ''connector'' (connector_name c),
     ini_pair ''plane_id'' (dec_int (plane_id c)),
     ini_pair ''udp_port'' (dec_int (udp_port c)),
     ini_pair ''vid_pt'' (dec_int (vid_pt c)),
     ini_pair ''appsink_max_buffers'' (dec_int (appsink_max_buffers c)),
     ini_pair ''gst_log'' (ini_bool (gst_log c)),
     ''[record]'',
     ini_pair ''enable'' (ini_bool (enable (record_cfg c))),
     ini_pair ''output_path'' (output_path (record_cfg c)),
     ini_pair ''mode'' (cfg_record_mode_name (mode (record_cfg c)))]"

definition ini_render :: "AppCfg \<Rightarrow> string" where
  "ini_render c = concat (map (\<lambda>l. l @ [NL]) (ini_render_lines c))"

text \<open>The values a line can carry: no blank ends, no comment, newline or NUL, and short enough.\<close>

definition ini_value :: "string \<Rightarrow> bool" where
  "ini_value v \<longleftrightarrow> strip v = v \<and> length v < 400
     \<and> (\<forall>c \<in> set v. \<not> comment_char c \<and> c \<noteq> NUL \<and> c \<noteq> NL)"

definition ini_printable :: "AppCfg \<Rightarrow> bool" where
  "ini_printable c \<longleftrightarrow> wf_cfg c \<and> ini_value (card_path c) \<and> ini_value (connector_name c)
     \<and> ini_value (output_path (record_cfg c))
     \<and> gst_log c \<in> {0, 1} \<and> enable (record_cfg c) \<in> {0, 1}"

section \<open>Reading lines back\<close>

lemma fgets_line: "NL \<notin> set l \<Longrightarrow> length l < n \<Longrightarrow> fgets n (l @ NL # rest) = (l @ [NL], rest)"
proof (induction l arbitrary: n)
  case Nil
  then show ?case by (cases n) auto
next
  case (Cons c l)
  then show ?case by (cases n) auto
qed

lemma ini_lines_line:
  assumes "NL \<notin> set l" and "NUL \<notin> set l" and "length l < 511"
  shows "ini_lines (l @ NL # rest) = (l @ [NL]) # ini_lines rest"
proof -
  have "takeWhile (\<lambda>c. c \<noteq> NUL) (l @ [NL]) = l @ [NL]"
    using assms(2) by (intro takeWhile_all) (auto simp: NUL_def)
  then show ?thesis
    using fgets_line [OF assms(1), of 511 rest] assms(3)
    by (simp add: ini_lines.simps [of "l @ NL # rest"] MAX_INI_LINE_def)
qed

lemma ini_lines_render:
  "\<forall>l \<in> set ls. NL \<notin> set l \<and> NUL \<notin> set l \<and> length l < 511 \<Longrightarrow>
   ini_lines (concat (map (\<lambda>l. l @ [NL]) ls)) = map (\<lambda>l. l @ [NL]) ls"
  by (induction ls) (simp_all add: ini_lines_line, simp add: ini_lines.simps)

lemma strip_mid:
  assumes "\<forall>c \<in> set a. isspace c" and "\<forall>c \<in> set b. isspace c"
    and "t \<noteq> []" and "\<not> isspace (hd t)" and "\<not> isspace (last t)"
  shows "strip (a @ t @ b) = t"
proof -
  have "dropWhile isspace (a @ t @ b) = t @ b"
    using assms(1,3,4) by (simp add: dropWhile_append) (cases t; simp)
  moreover have "dropWhile isspace (rev (t @ b)) = rev t"
    using assms(2,3,5) by (simp add: dropWhile_append) (cases "rev t"; simp add: hd_rev [symmetric])
  ultimately show ?thesis by (simp only: strip_def rev_rev_ident)
qed

lemma strip_id: "v = [] \<or> \<not> isspace (hd v) \<and> \<not> isspace (last v) \<Longrightarrow> strip v = v"
proof (cases "v = []")
  case True
  then show ?thesis by (simp add: strip_def)
next
  case False
  moreover assume "v = [] \<or> \<not> isspace (hd v) \<and> \<not> isspace (last v)"
  ultimately show ?thesis using strip_mid [of "[]" "[]" v] by simp
qed

lemma strip_fixD: "strip v = v \<Longrightarrow> v \<noteq> [] \<Longrightarrow> \<not> isspace (hd v) \<and> \<not> isspace (last v)"
  using strip_hd [of v] strip_last [of v] by simp

text \<open>A key: no blank, comment, bracket or equals sign in it.\<close>

definition ini_key :: "string \<Rightarrow> bool" where
  "ini_key k \<longleftrightarrow> k \<noteq> [] \<and> hd k \<noteq> CHR ''[''
     \<and> (\<forall>c \<in> set k. \<not> isspace c \<and> \<not> comment_char c \<and> c \<noteq> CHR ''='' \<and> c \<noteq> NUL)"

lemma space_NL [simp]: "isspace NL" "isspace (CHR '' '')"
  by (simp_all add: isspace_def)

lemma not_space_eq [simp]: "\<not> isspace (CHR ''='')"
  by (simp add: isspace_def)

lemma ini_text_pair:
  assumes "ini_key k" and "ini_value v"
  shows "ini_text (ini_pair k v @ [NL]) = (if v = [] then k @ '' ='' else k @ '' = '' @ v)"
proof -
  let ?l = "ini_pair k v @ [NL]"
  have nk: "k \<noteq> []" "\<not> isspace (hd k)" using assms(1) by (auto simp: ini_key_def)
  have "dropWhile isspace ?l = ?l"
    using nk by (intro dropWhile_hd) (auto simp: ini_pair_def)
  moreover have "takeWhile (\<lambda>c. \<not> comment_char c) ?l = ?l"
    using assms by (intro takeWhile_all) (auto simp: ini_pair_def ini_key_def ini_value_def comment_char_def)
  ultimately have "ini_text ?l = strip ?l" by (simp add: ini_text_def)
  also have "\<dots> = (if v = [] then k @ '' ='' else k @ '' = '' @ v)"
  proof (cases "v = []")
    case True
    then show ?thesis
      using strip_mid [of "[]" "['' ''!0, NL]" "k @ '' =''"] nk by (simp add: ini_pair_def)
  next
    case False
    then have "\<not> isspace (last v)" using assms(2) strip_fixD by (simp add: ini_value_def)
    then show ?thesis
      using strip_mid [of "[]" "[NL]" "k @ '' = '' @ v"] nk False by (simp add: ini_pair_def)
  qed
  finally show ?thesis .
qed

lemma ini_line_pair:
  assumes k: "ini_key k" and v: "ini_value v"
  shows "ini_line_spec (ini_pair k v @ [NL]) (sect, cfg) = (sect, ini_dispatch sect k v cfg)"
proof -
  let ?P = "\<lambda>c. c \<noteq> CHR ''=''"
  obtain w where w: "ini_text (ini_pair k v @ [NL]) = k @ '' ='' @ w"
    and wv: "if v = [] then w = [] else w = '' '' @ v"
    using ini_text_pair [OF k v] by (cases "v = []") auto
  have kP: "\<forall>c \<in> set k. ?P c" and kne: "k \<noteq> []" "hd k \<noteq> CHR ''[''"
    using k by (auto simp: ini_key_def)
  have tk: "takeWhile ?P (k @ '' ='' @ w) = k @ '' ''"
    using kP by (simp add: takeWhile_append)
  have td: "dropWhile ?P (k @ '' ='' @ w) = CHR ''='' # w"
    using kP by (simp add: dropWhile_append)
  have "strip ([] @ k @ '' '') = k"
    using k by (intro strip_mid) (auto simp: ini_key_def)
  then have key: "strip (k @ '' '') = k" by simp
  have val: "strip w = v"
  proof (cases "v = []")
    case True
    then show ?thesis using wv by (simp add: strip_def)
  next
    case False
    then have "strip ('' '' @ v @ []) = v"
      using v strip_fixD [of v] by (intro strip_mid) (auto simp: ini_value_def)
    then show ?thesis using wv False by simp
  qed
  obtain c cs where c: "k = c # cs" using kne by (cases k) auto
  have "ini_line_spec (ini_pair k v @ [NL]) (sect, cfg)
      = (let key = strip (takeWhile ?P (k @ '' ='' @ w));
             val = strip (tl (dropWhile ?P (k @ '' ='' @ w)))
         in if key = [] then (sect, cfg) else (sect, ini_dispatch sect key val cfg))"
    unfolding ini_line_spec_def prod.case Let_def w using c kne by simp
  then show ?thesis unfolding tk td using key val kne by simp
qed

lemma ini_line_section:
  assumes "\<forall>c \<in> set n. \<not> isspace c \<and> \<not> comment_char c \<and> c \<noteq> CHR '']''" and "length n < 32"
  shows "ini_line_spec (CHR ''['' # n @ [CHR '']'', NL]) (sect, cfg) = (n, cfg)"
proof -
  let ?l = "CHR ''['' # n @ [CHR '']'', NL]" and ?t = "CHR ''['' # n @ [CHR '']'']"
  have "dropWhile isspace ?l = ?l" by (intro dropWhile_hd) (auto simp: isspace_def)
  moreover have "takeWhile (\<lambda>c. \<not> comment_char c) ?l = ?l"
    using assms by (intro takeWhile_all) (auto simp: comment_char_def)
  moreover have "strip ([] @ ?t @ [NL]) = ?t"
    by (intro strip_mid) (auto simp: isspace_def)
  ultimately have "ini_text ?l = ?t" by (simp add: ini_text_def)
  moreover have "takeWhile (\<lambda>c. c \<noteq> CHR '']'') (n @ [CHR '']'']) = n"
    using assms(1) by (auto simp: takeWhile_append)
  ultimately show ?thesis
    using assms(2) by (simp add: ini_line_spec_def ini_copy.copy_fits)
qed

section \<open>The round trip\<close>

lemma ini_value_no_space:
  "\<forall>c \<in> set v. \<not> isspace c \<and> \<not> comment_char c \<and> c \<noteq> NUL \<Longrightarrow> length v < 400 \<Longrightarrow> ini_value v"
  using space_NL by (auto simp: ini_value_def intro!: strip_id)

lemma isdigit_not_comment: "isdigit c \<Longrightarrow> \<not> comment_char c"
  by (auto simp: isdigit_def comment_char_def)

lemma ini_value_dec_int:
  assumes "int_range v"
  shows "ini_value (dec_int v)"
proof (rule ini_value_no_space)
  show "\<forall>c \<in> set (dec_int v). \<not> isspace c \<and> \<not> comment_char c \<and> c \<noteq> NUL"
  proof
    fix c assume "c \<in> set (dec_int v)"
    then consider "isdigit c" | "c = CHR ''-''"
      by (auto simp: dec_int_def dest: dec_nat_digits split: if_splits)
    then show "\<not> isspace c \<and> \<not> comment_char c \<and> c \<noteq> NUL"
      by cases (auto dest: isdigit_not_space isdigit_not_comment isdigit_not_NUL,
        simp_all add: isspace_def comment_char_def NUL_def)
  qed
  have "nat (- v) < 10 ^ 10" and "nat v < 10 ^ 10" using assms by (auto simp: int_range_def)
  then show "length (dec_int v) < 400"
    using length_dec_nat [of "nat (- v)" 10] length_dec_nat [of "nat v" 10]
    by (simp add: dec_int_def)
qed

text \<open>What each printed key does, evaluated once.\<close>

lemmas key_eval = handle_section_key_def handle_global_key_def strcaseeq_def tolower_def

lemma dispatch_video:
  "ini_dispatch ''video'' ''card_path'' v c = c\<lparr>card_path := copy_string (card_path c) 64 (Some v)\<rparr>"
  "ini_dispatch ''video'' ''connector'' v c = c\<lparr>connector_name := copy_string (connector_name c) 32 (Some v)\<rparr>"
  "ini_dispatch ''video'' ''plane_id'' v c = c\<lparr>plane_id := snd (parse_int (Some v) (plane_id c))\<rparr>"
  "ini_dispatch ''video'' ''udp_port'' v c = c\<lparr>udp_port := snd (parse_int (Some v) (udp_port c))\<rparr>"
  "ini_dispatch ''video'' ''vid_pt'' v c = c\<lparr>vid_pt := snd (parse_int (Some v) (vid_pt c))\<rparr>"
  "ini_dispatch ''video'' ''appsink_max_buffers'' v c
     = c\<lparr>appsink_max_buffers := snd (parse_int (Some v) (appsink_max_buffers c))\<rparr>"
  "ini_dispatch ''video'' ''gst_log'' v c = c\<lparr>gst_log := snd (parse_bool (Some v) (gst_log c))\<rparr>"
  by (simp_all add: ini_dispatch_def key_eval char_of_def case_prod_beta)

lemma dispatch_record:
  "ini_dispatch ''record'' ''enable'' v c
     = set_record_enable (snd (parse_bool (Some v) (enable (record_cfg c)))) c"
  "ini_dispatch ''record'' ''output_path'' v c
     = set_record_path (copy_string (output_path (record_cfg c)) PATH_MAX (Some v)) c"
  "ini_dispatch ''record'' ''mode'' v c = snd (handle_record_mode v c)"
  by (simp_all add: ini_dispatch_def key_eval char_of_def case_prod_beta handle_record_enable_def
      handle_record_path_def)

lemma parse_bool_ini_bool: "b \<in> {0, 1} \<Longrightarrow> parse_bool (Some (ini_bool b)) out = (0, b)"
  by (auto simp: parse_bool_def ini_bool_def strcaseeq_def tolower_def char_of_def)

lemma mode_name_roundtrip: "cfg_parse_record_mode (Some (cfg_record_mode_name m)) out = (0, m)"
  by (cases m) (simp_all add: cfg_parse_record_mode_def kRecordModeAliases_def strcaseeq_def
      tolower_def char_of_def)

lemma ini_value_words:
  "ini_value (ini_bool b)" "ini_value (cfg_record_mode_name m)"
  by (rule ini_value_no_space; cases m; simp add: ini_bool_def isspace_def comment_char_def NUL_def)+

lemma ini_keys:
  "ini_key ''card_path''" "ini_key ''connector''" "ini_key ''plane_id''" "ini_key ''udp_port''"
  "ini_key ''vid_pt''" "ini_key ''appsink_max_buffers''" "ini_key ''gst_log''" "ini_key ''enable''"
  "ini_key ''output_path''" "ini_key ''mode''"
  by (simp_all add: ini_key_def isspace_def comment_char_def NUL_def)

lemma ini_sections:
  "ini_line_spec (''[video]'' @ [NL]) (sect, cfg) = (''video'', cfg)"
  "ini_line_spec (''[record]'' @ [NL]) (sect, cfg) = (''record'', cfg)"
  using ini_line_section [of "''video''" sect cfg] ini_line_section [of "''record''" sect cfg]
  by (simp_all add: isspace_def comment_char_def)

lemma printable_values:
  assumes "ini_printable c"
  shows "ini_value (card_path c)" "ini_value (connector_name c)" "ini_value (output_path (record_cfg c))"
    "ini_value (dec_int (plane_id c))" "ini_value (dec_int (udp_port c))" "ini_value (dec_int (vid_pt c))"
    "ini_value (dec_int (appsink_max_buffers c))"
  using assms by (simp_all add: ini_printable_def wf_cfg_def ini_value_dec_int)

lemma pair_short:
  assumes "ini_key k" "ini_value v" "length k < 100"
  shows "NL \<notin> set (ini_pair k v) \<and> NUL \<notin> set (ini_pair k v) \<and> length (ini_pair k v) < 511"
proof -
  have "NL \<notin> set k" "NUL \<notin> set k" using assms(1) space_NL(1) unfolding ini_key_def by blast+
  moreover have "NL \<notin> set v" "NUL \<notin> set v" "length v < 400"
    using assms(2) unfolding ini_value_def by blast+
  moreover have "NUL \<noteq> CHR '' ''" "NUL \<noteq> CHR ''=''" by (simp_all add: NUL_def)
  ultimately show ?thesis using assms(3) by (simp add: ini_pair_def)
qed

lemma render_lines_short:
  assumes "ini_printable c"
  shows "list_all (\<lambda>l. NL \<notin> set l \<and> NUL \<notin> set l \<and> length l < 511) (ini_render_lines c)"
proof -
  note vals = printable_values [OF assms]
  show ?thesis
    unfolding ini_render_lines_def list.pred_inject
    by (intro conjI TrueI pair_short vals ini_keys ini_value_words) (simp_all add: NUL_def)
qed

text \<open>
  C23. The documented INI format round-trips: loading the file printed from a configuration gives that
  configuration back, whatever was in the fields before, except for the path of the file, which is
  not a key.
\<close>

theorem cfg_load_file_roundtrip:
  assumes c: "ini_printable c" and f: "fs path = Some (ini_render c)"
  shows "cfg_load_file fs path c0 = (0, c\<lparr>config_path := config_path c0\<rparr>)"
proof -
  note vals = printable_values [OF c]
  have wf: "int_range (plane_id c)" "int_range (udp_port c)" "int_range (vid_pt c)"
    "int_range (appsink_max_buffers c)" "length (card_path c) < 64" "length (connector_name c) < 32"
    "length (output_path (record_cfg c)) < PATH_MAX" "gst_log c \<in> {0, 1}" "enable (record_cfg c) \<in> {0, 1}"
    using c by (auto simp: ini_printable_def wf_cfg_def wf_record_cfg_def c_string_def)
  have "ini_lines (ini_render c) = map (\<lambda>l. l @ [NL]) (ini_render_lines c)"
    unfolding ini_render_def using render_lines_short [OF c]
    by (intro ini_lines_render) (simp only: list_all_iff)
  then have "snd (foldl (\<lambda>st l. ini_line_spec l st) ([], c0) (ini_lines (ini_render c)))
      = c\<lparr>config_path := config_path c0\<rparr>"
    by (simp only: ini_render_lines_def list.map foldl.simps ini_sections
          ini_line_pair [OF ini_keys(1) vals(1)] ini_line_pair [OF ini_keys(2) vals(2)]
          ini_line_pair [OF ini_keys(3) vals(4)] ini_line_pair [OF ini_keys(4) vals(5)]
          ini_line_pair [OF ini_keys(5) vals(6)] ini_line_pair [OF ini_keys(6) vals(7)]
          ini_line_pair [OF ini_keys(7) ini_value_words(1)]
          ini_line_pair [OF ini_keys(8) ini_value_words(1)]
          ini_line_pair [OF ini_keys(9) vals(3)] ini_line_pair [OF ini_keys(10) ini_value_words(2)]
          dispatch_video dispatch_record)
      (rule AppCfg.equality; simp add: wf ini_copy.copy_fits ini_int.reads_printed
        parse_bool_ini_bool [OF wf(8)] parse_bool_ini_bool [OF wf(9)] mode_name_roundtrip
        handle_record_defs)
  then show ?thesis using f by (simp add: cfg_load_file_refines)
qed

theorem cfg_load_file_roundtrip_witness:
  "cfg_load_file (\<lambda>_. Some (ini_render (cfg_defaults\<lparr>vid_pt := -3\<rparr>))) ''a'' cfg_defaults
     = (0, cfg_defaults\<lparr>vid_pt := -3\<rparr>)"
proof -
  have "ini_printable (cfg_defaults\<lparr>vid_pt := -3\<rparr>)"
    by (auto simp: ini_printable_def cfg_defaults_def wf_cfg_def wf_record_cfg_def c_string_def
        int_range_def PATH_MAX_def NUL_def isspace_def comment_char_def intro!: ini_value_no_space)
  from cfg_load_file_roundtrip [OF this, of "\<lambda>_. Some (ini_render (cfg_defaults\<lparr>vid_pt := -3\<rparr>))"
      "''a''" cfg_defaults]
  show ?thesis by (simp add: cfg_defaults_def)
qed

end
