(* ===== verification/Effects.thy ===== *)
theory Effects
  imports Prelude "HOL-Library.State_Monad" "HOL-Library.Monad_Syntax"
begin

text \<open>
  Effectful C code. A function that calls the kernel, GStreamer, MPP or the C library is a state
  monad over the trace of those calls, newest first; \<open>ext answer ev\<close> is one call: the answer may depend
  on everything that happened before, and the call is recorded with its answer. Memory the program
  owns is passed by value and returned updated.

  A property of the calls a function makes is a monitor: a step function on the events with \<open>None\<close>
  for a violation. \<open>wp \<delta> m Q s\<close> says that from monitor state \<open>s\<close> the function \<open>m\<close> makes only calls that
  \<open>\<delta>\<close> accepts, whatever the trace before it and whatever the answers, and that its result and the
  final monitor state satisfy \<open>Q\<close>. The collection \<open>wp_intros\<close> holds the rules for the program
  constructs, and each component adds the rules of its functions.
\<close>

type_synonym ('e, 'a) eff = "('e list, 'a) state"

abbreviation ret :: "'a \<Rightarrow> ('e, 'a) eff" where
  "ret \<equiv> State_Monad.return"

definition ext :: "('e list \<Rightarrow> 'a) \<Rightarrow> ('a \<Rightarrow> 'e) \<Rightarrow> ('e, 'a) eff" where
  "ext answer ev = State (\<lambda>t. (answer t, ev (answer t) # t))"

definition emit :: "'e \<Rightarrow> ('e, unit) eff" where
  "emit e = ext (\<lambda>_. ()) (\<lambda>_. e)"

lemma run_ext [simp]: "run_state (ext answer ev) t = (answer t, ev (answer t) # t)"
  by (simp add: ext_def)

lemma run_emit [simp]: "run_state (emit e) t = ((), e # t)"
  by (simp add: emit_def)

text \<open>A read of something outside the program that changes nothing: it leaves no event.\<close>

definition ask :: "('e list \<Rightarrow> 'a) \<Rightarrow> ('e, 'a) eff" where
  "ask answer = State (\<lambda>t. (answer t, t))"

lemma run_ask [simp]: "run_state (ask answer) t = (answer t, t)"
  by (simp add: ask_def)

section \<open>Monitors\<close>

fun monitor :: "('e \<Rightarrow> 's \<Rightarrow> 's option) \<Rightarrow> 's \<Rightarrow> 'e list \<Rightarrow> 's option" where
  "monitor \<delta> s [] = Some s"
| "monitor \<delta> s (e # t) = (case monitor \<delta> s t of None \<Rightarrow> None | Some s' \<Rightarrow> \<delta> e s')"

definition wp ::
    "('e \<Rightarrow> 's \<Rightarrow> 's option) \<Rightarrow> ('e, 'a) eff \<Rightarrow> ('a \<Rightarrow> 's \<Rightarrow> bool) \<Rightarrow> 's \<Rightarrow> bool" where
  "wp \<delta> m Q s \<longleftrightarrow>
     (\<forall>t. \<exists>es s'. snd (run_state m t) = es @ t \<and> monitor \<delta> s es = Some s' \<and> Q (fst (run_state m t)) s')"

lemma monitor_append: 
  "monitor \<delta> s (es' @ es) = (case monitor \<delta> s es of None \<Rightarrow> None | Some s' \<Rightarrow> monitor \<delta> s' es')"
  by (induction es') (auto split: option.splits)

named_theorems wp_intros \<open>rules that reduce a wp of a construct to its parts\<close>

lemma wp_return [wp_intros]: "Q x s \<Longrightarrow> wp \<delta> (ret x) Q s"
  unfolding wp_def by auto

lemma wp_bind [wp_intros]:
  assumes "wp \<delta> m (\<lambda>x. wp \<delta> (f x) Q) s"
  shows "wp \<delta> (State_Monad.bind m f) Q s"
  unfolding wp_def
proof
  fix t
  obtain x t1 where m: "run_state m t = (x, t1)" by (cases "run_state m t")
  obtain es s1 where 1: "t1 = es @ t" "monitor \<delta> s es = Some s1" "wp \<delta> (f x) Q s1"
    using assms m unfolding wp_def by (metis fst_conv snd_conv)
  obtain es' s2 where "snd (run_state (f x) t1) = es' @ t1" "monitor \<delta> s1 es' = Some s2"
    "Q (fst (run_state (f x) t1)) s2"
    using 1(3) unfolding wp_def by blast
  then have "snd (run_state (State_Monad.bind m f) t) = (es' @ es) @ t
      \<and> monitor \<delta> s (es' @ es) = Some s2 \<and> Q (fst (run_state (State_Monad.bind m f) t)) s2"
    using m 1 by (simp add: monitor_append)
  then show "\<exists>es s'. snd (run_state (State_Monad.bind m f) t) = es @ t \<and> monitor \<delta> s es = Some s'
      \<and> Q (fst (run_state (State_Monad.bind m f) t)) s'" by blast
qed

lemma wp_ext:
  assumes "\<And>t. case \<delta> (ev (answer t)) s of None \<Rightarrow> False | Some s' \<Rightarrow> Q (answer t) s'"
  shows "wp \<delta> (ext answer ev) Q s"
  unfolding wp_def
proof
  fix t
  show "\<exists>es s'. snd (run_state (ext answer ev) t) = es @ t \<and> monitor \<delta> s es = Some s'
      \<and> Q (fst (run_state (ext answer ev) t)) s'"
    using assms [of t] by (intro exI [of _ "[ev (answer t)]"]) (auto split: option.splits)
qed

lemma wp_emit:
  "case \<delta> e s of None \<Rightarrow> False | Some s' \<Rightarrow> Q () s' \<Longrightarrow> wp \<delta> (emit e) Q s"
  unfolding emit_def by (rule wp_ext)

lemma wp_ask [wp_intros]: "(\<And>t. Q (answer t) s) \<Longrightarrow> wp \<delta> (ask answer) Q s"
  unfolding wp_def by auto

lemma wp_if [wp_intros]:
  "(b \<Longrightarrow> wp \<delta> m Q s) \<Longrightarrow> (\<not> b \<Longrightarrow> wp \<delta> n Q s) \<Longrightarrow> wp \<delta> (if b then m else n) Q s"
  by simp

lemma wp_case_option [wp_intros]:
  "(x = None \<Longrightarrow> wp \<delta> m Q s) \<Longrightarrow> (\<And>y. x = Some y \<Longrightarrow> wp \<delta> (f y) Q s) \<Longrightarrow>
   wp \<delta> (case x of None \<Rightarrow> m | Some y \<Rightarrow> f y) Q s"
  by (cases x) auto

lemma wp_case_prod [wp_intros]:
  "(\<And>a b. x = (a, b) \<Longrightarrow> wp \<delta> (f a b) Q s) \<Longrightarrow> wp \<delta> (case x of (a, b) \<Rightarrow> f a b) Q s"
  by (cases x) auto

lemma wp_Let [wp_intros]: "wp \<delta> (f x) Q s \<Longrightarrow> wp \<delta> (let y = x in f y) Q s"
  by simp

definition io_when :: "bool \<Rightarrow> ('e, unit) eff \<Rightarrow> ('e, unit) eff" where
  "io_when b m = (if b then m else ret ())"

lemma wp_when [wp_intros]:
  "(b \<Longrightarrow> wp \<delta> m Q s) \<Longrightarrow> (\<not> b \<Longrightarrow> Q () s) \<Longrightarrow> wp \<delta> (io_when b m) Q s"
  by (simp add: io_when_def wp_return)

lemma wp_mono: "wp \<delta> m P s \<Longrightarrow> (\<And>x s'. P x s' \<Longrightarrow> Q x s') \<Longrightarrow> wp \<delta> m Q s"
  unfolding wp_def by meson

lemma wp_run:
  assumes "wp \<delta> m Q s" and "run_state m t = (x, t')" and "monitor \<delta> s0 t = Some s"
  obtains s' where "monitor \<delta> s0 t' = Some s'" and "Q x s'"
proof -
  obtain es s' where "t' = es @ t" "monitor \<delta> s es = Some s'" "Q x s'"
    using assms(1,2) unfolding wp_def by (metis fst_conv snd_conv)
  then show thesis using that assms(3) by (simp add: monitor_append)
qed

text \<open>A monitor that only observes: a total step function.\<close>

definition observe :: "('e \<Rightarrow> 's \<Rightarrow> 's) \<Rightarrow> 'e \<Rightarrow> 's \<Rightarrow> 's option" where
  "observe g e s = Some (g e s)"

lemma wp_observe_ext:
  "(\<And>t. Q (answer t) (g (ev (answer t)) s)) \<Longrightarrow> wp (observe g) (ext answer ev) Q s"
  by (rule wp_ext) (simp add: observe_def)

lemma wp_observe_emit: "Q () (g e s) \<Longrightarrow> wp (observe g) (emit e) Q s"
  by (rule wp_emit) (simp add: observe_def)

lemma monitor_observe: "monitor (observe g) s t = Some (foldr g t s)"
  by (induction t) (simp_all add: observe_def)

text \<open>What every run of a function returns, whatever came before it.\<close>

definition returns :: "('e, 'a) eff \<Rightarrow> ('a \<Rightarrow> bool) \<Rightarrow> bool" where
  "returns m P \<longleftrightarrow> (\<forall>t. P (fst (run_state m t)))"

lemma returns_bind:
  "returns m (\<lambda>x. returns (f x) P) \<Longrightarrow> returns (State_Monad.bind m f) P"
  by (simp add: returns_def split_beta)

lemma returns_ext: "(\<And>t. P (answer t)) \<Longrightarrow> returns (ext answer ev) P"
  by (simp add: returns_def)

lemma returns_ask: "(\<And>t. P (answer t)) \<Longrightarrow> returns (ask answer) P"
  by (simp add: returns_def)

lemma returns_emit: "P () \<Longrightarrow> returns (emit e) P"
  by (simp add: returns_def)

lemma returns_ret: "P x \<Longrightarrow> returns (ret x) P"
  by (simp add: returns_def)

lemma returns_if: "(b \<Longrightarrow> returns m P) \<Longrightarrow> (\<not> b \<Longrightarrow> returns n P) \<Longrightarrow> returns (if b then m else n) P"
  by simp

lemma returns_case_option:
  "(x = None \<Longrightarrow> returns m P) \<Longrightarrow> (\<And>y. x = Some y \<Longrightarrow> returns (f y) P) \<Longrightarrow>
   returns (case x of None \<Rightarrow> m | Some y \<Rightarrow> f y) P"
  by (cases x) auto

lemma returns_case_prod:
  "(\<And>a b. x = (a, b) \<Longrightarrow> returns (f a b) P) \<Longrightarrow> returns (case x of (a, b) \<Rightarrow> f a b) P"
  by (cases x) auto

lemma returns_Let: "returns (f x) P \<Longrightarrow> returns (let y = x in f y) P"
  by simp

lemma returns_mono: "returns m P \<Longrightarrow> (\<And>x. P x \<Longrightarrow> Q x) \<Longrightarrow> returns m Q"
  by (simp add: returns_def)

lemmas returns_intros = returns_bind returns_ext returns_ask returns_emit returns_ret returns_if
  returns_case_option returns_case_prod returns_Let

lemmas observe_intros = wp_observe_ext wp_observe_emit

text \<open>The calls a function makes from the start.\<close>

definition trace_of :: "('e, 'a) eff \<Rightarrow> 'e list" where
  "trace_of m = snd (run_state m [])"

lemma wp_trace_of:
  assumes "wp \<delta> m Q s"
  shows "\<exists>s'. monitor \<delta> s (trace_of m) = Some s' \<and> Q (fst (run_state m [])) s'"
  using assms unfolding wp_def trace_of_def by (metis append_Nil2)

section \<open>Ownership\<close>

text \<open>
  The monitor of every resource the code acquires: an event may need resources to be held, releases
  some (each must be held, so a double release is a violation) and acquires some. The three parts are
  given with the events in \<open>External\<close>.
\<close>

definition own_by ::
    "('e \<Rightarrow> 'r set) \<Rightarrow> ('e \<Rightarrow> 'r multiset) \<Rightarrow> ('e \<Rightarrow> 'r multiset) \<Rightarrow>
     'e \<Rightarrow> 'r multiset \<Rightarrow> 'r multiset option"
  where
  "own_by uses loss gain e M =
     (if uses e \<subseteq> set_mset M \<and> loss e \<subseteq># M then Some (M - loss e + gain e) else None)"

lemma wp_own_ext:
  assumes "\<And>t. uses (ev (answer t)) \<subseteq> set_mset M \<and> loss (ev (answer t)) \<subseteq># M"
    and "\<And>t. Q (answer t) (M - loss (ev (answer t)) + gain (ev (answer t)))"
  shows "wp (own_by uses loss gain) (ext answer ev) Q M"
  by (rule wp_ext) (use assms in \<open>simp add: own_by_def\<close>)

lemma wp_own_emit:
  assumes "uses e \<subseteq> set_mset M \<and> loss e \<subseteq># M"
    and "Q () (M - loss e + gain e)"
  shows "wp (own_by uses loss gain) (emit e) Q M"
  by (rule wp_emit) (use assms in \<open>simp add: own_by_def\<close>)

text \<open>From a triple on any frame to a rule for any state that contains what the function needs.\<close>

lemma wp_own_frame:
  assumes "\<And>M0. wp \<delta> m (\<lambda>x M'. M' = M0 + out x \<and> P x) (M0 + inn)"
    and "inn \<subseteq># M" and "\<And>x. P x \<Longrightarrow> Q x (M - inn + out x)"
  shows "wp \<delta> m Q M"
proof -
  have "M = (M - inn) + inn" using assms(2) by (simp add: subset_mset.diff_add)
  then have "wp \<delta> m (\<lambda>x M'. M' = (M - inn) + out x \<and> P x) M" using assms(1) [of "M - inn"] by simp
  then show ?thesis by (rule wp_mono) (use assms(3) in auto)
qed

end
