(* ===== verification/Media_Events.thy ===== *)
theory Media_Events
  imports Effects
begin

text \<open>
  The resources the program acquires, and the calls of GStreamer's elements, of stdio and the MP4
  muxer, of Rockchip's MPP and of the process interface with what each does to the resources.
  \<open>External\<close> adds the kernel, the buffers and DRM, and \<open>Media\_Calls\<close> the calls themselves.
\<close>

section \<open>Resources\<close>

datatype lock = UrLock | PsLock | RecorderLock | StatsLock | VdLock

datatype condv = PsCond | VdCond

datatype heap_obj =
    UdpReceiverObj | PacketBuf | VideoDecoderObj | DecoderBuf | VideoRecorderObj | OutputPath

text \<open>
  \<open>Ref\<close> is a reference on a GStreamer object, \<open>Buf\<close> one on a buffer, \<open>Mapped\<close> a mapping of a buffer, \<open>Mutex\<close>
  an initialised lock that is free, \<open>Locked\<close> one the caller holds (so taking a lock twice is a
  violation), \<open>DrmObj\<close> a structure libdrm returned,
  \<open>Dumb\<close>, \<open>DrmFb\<close> a dumb buffer and a framebuffer of a DRM descriptor, \<open>Sample\<close> a sample pulled from the
  appsink, \<open>File\<close> an open stdio file, \<open>Mux\<close> and \<open>Writer\<close> the MP4 muxer and its track writer, \<open>MppCtx\<close> ...
  \<open>DecCfg\<close> the objects of MPP. NULL, the id 0, the address 0
  and a negative descriptor are no resources: that is how the calls say that there is none.
\<close>

datatype resource =
    Fd int | Thread ptr | Mutex lock | Locked lock | Heap heap_obj
  | Ref ptr | Structure ptr | Buf ptr | Mapped ptr
  | Dumb int u32 | DrmFb int u32 | Mmap ptr | Blob int u32 | AtomicReq ptr | DrmObj ptr
  | Cond condv | Sample ptr | File ptr | Mux ptr | Writer ptr
  | MppCtx ptr | MppPacket ptr | MppFrame ptr | MppGroup ptr | DecCfg ptr

definition ptr_res :: "(ptr \<Rightarrow> resource) \<Rightarrow> ptr \<Rightarrow> resource multiset" where
  "ptr_res k p = (if p = 0 then {#} else {#k p#})"

definition id_res :: "(u32 \<Rightarrow> resource) \<Rightarrow> u32 \<Rightarrow> resource multiset" where
  "id_res k n = (if n = 0 then {#} else {#k n#})"

definition fd_res :: "int \<Rightarrow> resource multiset" where
  "fd_res fd = (if fd < 0 then {#} else {#Fd fd#})"

section \<open>GStreamer elements, caps, samples and the bus\<close>

text \<open>
  An element, a caps object, a bus and a message are references the caller holds until it drops them;
  \<open>gst_bin_add_many\<close> takes those of the elements over. A sample is its address with that of its buffer,
  which lives as long as the sample. Properties and caps fields keep their names and values.
\<close>

datatype prop_value = PInt int | PBool bool | PStr string | PEnum string | PPtr ptr

datatype elem_event =
    EvGstInit
  | EvPipelineNew ptr
  | EvElementNew string ptr
  | EvCapsNew string "(string \<times> prop_value) list" ptr
  | EvSetProps ptr "(string \<times> prop_value) list"
  | EvElemUnref ptr
  | EvBinAdd ptr "ptr list"
  | EvLink "ptr list" bool
  | EvSetState ptr int int
  | EvGetState ptr u64 int
  | EvSendEos ptr
  | EvGetBus ptr ptr
  | EvBusPop ptr u64 ptr int
  | EvPullSample ptr u64 "ptr \<times> ptr"
  | EvSampleUnref "ptr \<times> ptr"

definition sample_res :: "ptr \<times> ptr \<Rightarrow> resource multiset" where
  "sample_res s = (if fst s = 0 then {#} else add_mset (Sample (fst s)) (ptr_res Buf (snd s)))"

definition elem_uses :: "elem_event \<Rightarrow> resource set" where
  "elem_uses e = (case e of
     EvSetProps p _ \<Rightarrow> {Ref p} | EvBinAdd p _ \<Rightarrow> {Ref p} | EvSetState p _ _ \<Rightarrow> {Ref p}
   | EvGetState p _ _ \<Rightarrow> {Ref p} | EvSendEos p \<Rightarrow> {Ref p} | EvGetBus p _ \<Rightarrow> {Ref p}
   | EvBusPop b _ _ _ \<Rightarrow> {Ref b} | _ \<Rightarrow> {})"

definition elem_loss :: "elem_event \<Rightarrow> resource multiset" where
  "elem_loss e = (case e of
     EvElemUnref p \<Rightarrow> {#Ref p#} | EvBinAdd _ ps \<Rightarrow> image_mset Ref (mset ps)
   | EvSampleUnref s \<Rightarrow> sample_res s | _ \<Rightarrow> {#})"

definition elem_gain :: "elem_event \<Rightarrow> resource multiset" where
  "elem_gain e = (case e of
     EvPipelineNew p \<Rightarrow> ptr_res Ref p | EvElementNew _ p \<Rightarrow> ptr_res Ref p
   | EvCapsNew _ _ p \<Rightarrow> ptr_res Ref p | EvGetBus _ p \<Rightarrow> ptr_res Ref p
   | EvBusPop _ _ p _ \<Rightarrow> ptr_res Ref p | EvPullSample _ _ s \<Rightarrow> sample_res s | _ \<Rightarrow> {#})"

record 'tr elem_env =
  e_pipeline_new :: "'tr \<Rightarrow> ptr"
  e_element_new :: "'tr \<Rightarrow> string \<Rightarrow> ptr"
  e_caps_new :: "'tr \<Rightarrow> string \<Rightarrow> ptr"
  e_link :: "'tr \<Rightarrow> bool"
  e_set_state :: "'tr \<Rightarrow> ptr \<Rightarrow> int \<Rightarrow> int"
  e_get_state :: "'tr \<Rightarrow> ptr \<Rightarrow> int"
  e_get_bus :: "'tr \<Rightarrow> ptr \<Rightarrow> ptr"
  e_bus_pop :: "'tr \<Rightarrow> ptr \<times> int"
  e_pull_sample :: "'tr \<Rightarrow> ptr \<times> ptr"
  e_sample_caps :: "'tr \<Rightarrow> ptr \<Rightarrow> (int option \<times> int option \<times> (int \<times> int) option) option"
  e_buffer_size :: "'tr \<Rightarrow> ptr \<Rightarrow> nat"
  e_buffer_pts :: "'tr \<Rightarrow> ptr \<Rightarrow> u64"
  e_buffer_dts :: "'tr \<Rightarrow> ptr \<Rightarrow> u64"
  e_buffer_duration :: "'tr \<Rightarrow> ptr \<Rightarrow> u64"
  e_scale :: "u64 \<Rightarrow> u64 \<Rightarrow> u64 \<Rightarrow> u64"

section \<open>Files and the MP4 muxer\<close>

text \<open>
  A call of the muxer writes through the program's callback and continues according to what the
  callback returned: it is a tree of writes, with the result of the call at the leaves.
\<close>

datatype 'a mux_run = MuxRet 'a | MuxWrite int "u8 list option" "int \<Rightarrow> 'a mux_run"

datatype mp4_event =
    EvMkdir string u32 "int \<times> int"
  | EvFopen string ptr
  | EvFclose ptr
  | EvFflush ptr
  | EvFseek ptr int int
  | EvFwrite ptr "u8 list" nat
  | EvMuxOpen bool bool
  | EvMuxOpened ptr
  | EvWriterInit ptr u32 u32
  | EvWriterReady ptr int
  | EvWriteNal ptr "u8 list" u32
  | EvWriterClose ptr
  | EvMuxClose ptr

definition mp4_uses :: "mp4_event \<Rightarrow> resource set" where
  "mp4_uses e = (case e of
     EvFflush p \<Rightarrow> {File p} | EvFseek p _ _ \<Rightarrow> {File p} | EvFwrite p _ _ \<Rightarrow> {File p}
   | EvWriterInit m _ _ \<Rightarrow> {Mux m} | EvWriteNal m _ _ \<Rightarrow> {Mux m, Writer m}
   | EvWriterClose m \<Rightarrow> {Mux m} | _ \<Rightarrow> {})"

definition mp4_loss :: "mp4_event \<Rightarrow> resource multiset" where
  "mp4_loss e = (case e of
     EvFclose p \<Rightarrow> {#File p#} | EvWriterClose m \<Rightarrow> {#Writer m#} | EvMuxClose m \<Rightarrow> {#Mux m#} | _ \<Rightarrow> {#})"

definition mp4_gain :: "mp4_event \<Rightarrow> resource multiset" where
  "mp4_gain e = (case e of
     EvFopen _ p \<Rightarrow> ptr_res File p | EvMuxOpened m \<Rightarrow> ptr_res Mux m
   | EvWriterReady m r \<Rightarrow> (if r = 0 then {#Writer m#} else {#}) | _ \<Rightarrow> {#})"

record 'tr mp4_env =
  e_now_local :: "'tr \<Rightarrow> ptr"
  e_date_format :: "'tr \<Rightarrow> ptr \<Rightarrow> string option"
  e_is_dir :: "'tr \<Rightarrow> string \<Rightarrow> bool"
  e_dirname :: "string \<Rightarrow> string"
  e_basename :: "string \<Rightarrow> string"
  e_build_filename :: "string \<Rightarrow> string \<Rightarrow> string"
  e_monotonic :: "'tr \<Rightarrow> int"
  e_mkdir :: "'tr \<Rightarrow> string \<Rightarrow> int \<times> int"
  e_fopen :: "'tr \<Rightarrow> string \<Rightarrow> ptr"
  e_fseek :: "'tr \<Rightarrow> ptr \<Rightarrow> int \<Rightarrow> int"
  e_fwrite :: "'tr \<Rightarrow> ptr \<Rightarrow> u8 list \<Rightarrow> nat"
  e_mux_open :: "'tr \<Rightarrow> bool \<Rightarrow> bool \<Rightarrow> ptr mux_run"
  e_writer_init :: "'tr \<Rightarrow> ptr \<Rightarrow> int mux_run"
  e_write_nal :: "'tr \<Rightarrow> ptr \<Rightarrow> int mux_run"
  e_writer_close :: "'tr \<Rightarrow> ptr \<Rightarrow> unit mux_run"
  e_mux_close :: "'tr \<Rightarrow> ptr \<Rightarrow> int mux_run"

section \<open>MPP\<close>

text \<open>
  What \<open>decode\_get\_frame\<close> hands out, with the attributes the code reads of it. A context without an
  API table is not one \<open>mpp\_create\<close> gives: it gives both or none.
\<close>

record mpp_frame =
  frame_ptr :: ptr
  frame_width :: u32
  frame_height :: u32
  frame_hor_stride :: u32
  frame_ver_stride :: u32
  frame_fmt :: int
  frame_info_change :: bool
  frame_errinfo :: u32
  frame_discard :: u32
  frame_eos :: bool
  frame_pts :: u64
  frame_buffer :: ptr

datatype packet_field =
    PkLength nat | PkSize nat | PkData "u8 list" | PkPos nat | PkEos | PkPts u64 | PkDts u64

text \<open>The third argument of \<open>mpi->control\<close>, by what it points to.\<close>

datatype mpi_param = MpiU32 u32 | MpiInt int | MpiPtr ptr

datatype mpp_event =
    EvMppCreate int ptr ptr
  | EvMppInit ptr string int
  | EvMppReset ptr int
  | EvMppDestroy ptr
  | EvMppControl ptr string mpi_param int
  | EvPacketInit nat "ptr option"
  | EvPacketDeinit ptr
  | EvPacketSet ptr packet_field
  | EvPutPacket ptr ptr int
  | EvGetFrame ptr "ptr option"
  | EvFrameDeinit ptr
  | EvDecCfgInit "ptr option"
  | EvDecCfgSet ptr string u32 int
  | EvDecCfgDeinit ptr
  | EvGroupGet "ptr option"
  | EvGroupClear ptr
  | EvGroupPut ptr
  | EvBufferCommit ptr int u64 "int option"
  | EvDupFd int int
  | EvPrimeFd int u32 "int option"
  | EvInterrupted int
  | EvSleep nat
  | EvCondInit condv
  | EvCondClear condv
  | EvCondSignal condv
  | EvCondWait condv lock

definition mpp_uses :: "mpp_event \<Rightarrow> resource set" where
  "mpp_uses e = (case e of
     EvMppInit c _ _ \<Rightarrow> {MppCtx c} | EvMppReset c _ \<Rightarrow> {MppCtx c} | EvMppControl c _ _ _ \<Rightarrow> {MppCtx c}
   | EvPacketSet p _ \<Rightarrow> {MppPacket p} | EvPutPacket c p _ \<Rightarrow> {MppCtx c, MppPacket p}
   | EvGetFrame c _ \<Rightarrow> {MppCtx c} | EvDecCfgSet p _ _ _ \<Rightarrow> {DecCfg p} | EvGroupClear g \<Rightarrow> {MppGroup g}
   | EvBufferCommit g fd _ _ \<Rightarrow> {MppGroup g, Fd fd} | EvDupFd fd _ \<Rightarrow> {} | EvPrimeFd fd h _ \<Rightarrow> Dumb fd ` ({h} - {0})
   | EvCondSignal c \<Rightarrow> {Cond c} | EvCondWait c l \<Rightarrow> {Cond c, Locked l} | _ \<Rightarrow> {})"

definition mpp_loss :: "mpp_event \<Rightarrow> resource multiset" where
  "mpp_loss e = (case e of
     EvMppDestroy c \<Rightarrow> {#MppCtx c#} | EvPacketDeinit p \<Rightarrow> {#MppPacket p#}
   | EvFrameDeinit p \<Rightarrow> {#MppFrame p#} | EvDecCfgDeinit p \<Rightarrow> {#DecCfg p#}
   | EvGroupPut g \<Rightarrow> {#MppGroup g#} | EvCondClear c \<Rightarrow> {#Cond c#} | _ \<Rightarrow> {#})"

text \<open>A commit that leaves another descriptor in \<open>info.fd\<close> hands that one to the caller.\<close>

definition mpp_gain :: "mpp_event \<Rightarrow> resource multiset" where
  "mpp_gain e = (case e of
     EvMppCreate r c a \<Rightarrow> (if r = 0 \<and> a \<noteq> 0 then ptr_res MppCtx c else {#})
   | EvPacketInit _ (Some p) \<Rightarrow> ptr_res MppPacket p | EvGetFrame _ (Some p) \<Rightarrow> {#MppFrame p#}
   | EvDecCfgInit (Some p) \<Rightarrow> {#DecCfg p#} | EvGroupGet (Some g) \<Rightarrow> ptr_res MppGroup g
   | EvBufferCommit _ fd _ (Some fd') \<Rightarrow> (if fd' = fd then {#} else fd_res fd')
   | EvDupFd _ fd' \<Rightarrow> fd_res fd' | EvPrimeFd _ _ (Some fd') \<Rightarrow> {#Fd fd'#}
   | EvCondInit c \<Rightarrow> {#Cond c#} | _ \<Rightarrow> {#})"

record 'tr mpp_env =
  e_mpp_create :: "'tr \<Rightarrow> int \<times> ptr \<times> ptr"
  e_mpp_init :: "'tr \<Rightarrow> int"
  e_mpp_reset :: "'tr \<Rightarrow> int"
  e_mpp_control :: "'tr \<Rightarrow> string \<Rightarrow> int"
  e_packet_init :: "'tr \<Rightarrow> ptr option"
  e_put_packet :: "'tr \<Rightarrow> int"
  e_get_frame :: "'tr \<Rightarrow> mpp_frame option"
  e_dec_cfg_init :: "'tr \<Rightarrow> ptr option"
  e_dec_cfg_set :: "'tr \<Rightarrow> int"
  e_group_get :: "'tr \<Rightarrow> ptr option"
  e_buffer_commit :: "'tr \<Rightarrow> int \<Rightarrow> int option"
  e_buffer_info :: "'tr \<Rightarrow> ptr \<Rightarrow> int option"
  e_dup_fd :: "'tr \<Rightarrow> int \<Rightarrow> int"
  e_prime_fd :: "'tr \<Rightarrow> int \<Rightarrow> u32 \<Rightarrow> int option"
  e_interrupts :: "'tr \<Rightarrow> nat"
  e_clock :: "'tr \<Rightarrow> int \<times> int"
  e_vd_running :: "'tr \<Rightarrow> bool"

section \<open>The process\<close>

text \<open>The fields of the pipeline that its threads write, as the main thread finds them.\<close>

record ps_shared =
  sh_bus_running :: bool
  sh_appsink_running :: bool
  sh_stop_requested :: bool
  sh_error :: bool

datatype proc_event =
    EvOpenExcl string int int
  | EvOpen string int
  | EvRead int "string option"
  | EvWriteFd int string int
  | EvUnlink string int int
  | EvKill int int int
  | EvAtexit
  | EvSigmask int
  | EvThreadKill ptr int
  | EvPoll "int list"
  | EvTimedJoin ptr int
  | EvExit int

definition proc_uses :: "proc_event \<Rightarrow> resource set" where
  "proc_uses e = (case e of
     EvRead fd _ \<Rightarrow> {Fd fd} | EvWriteFd fd _ _ \<Rightarrow> {Fd fd} | EvThreadKill p _ \<Rightarrow> {Thread p} | _ \<Rightarrow> {})"

definition proc_loss :: "proc_event \<Rightarrow> resource multiset" where
  "proc_loss e = (case e of EvTimedJoin p r \<Rightarrow> (if r = 0 then {#Thread p#} else {#}) | _ \<Rightarrow> {#})"

definition proc_gain :: "proc_event \<Rightarrow> resource multiset" where
  "proc_gain e = (case e of
     EvOpenExcl _ fd _ \<Rightarrow> fd_res fd | EvOpen _ fd \<Rightarrow> fd_res fd | _ \<Rightarrow> {#})"

record 'tr proc_env =
  e_open_excl :: "'tr \<Rightarrow> int \<times> int"
  e_open :: "'tr \<Rightarrow> string \<Rightarrow> int"
  e_read :: "'tr \<Rightarrow> int \<Rightarrow> string option"
  e_write :: "'tr \<Rightarrow> int \<Rightarrow> string \<Rightarrow> int"
  e_unlink :: "'tr \<Rightarrow> int \<times> int"
  e_kill :: "'tr \<Rightarrow> int \<Rightarrow> int \<times> int"
  e_getpid :: int
  e_sigmask :: "'tr \<Rightarrow> int"
  e_signals :: "'tr \<Rightarrow> int list"
  e_timed_join :: "'tr \<Rightarrow> int"
  e_shared :: "'tr \<Rightarrow> ps_shared"

end
