(* ===== verification/External.thy ===== *)
theory External
  imports Media_Events
begin

text \<open>
  The code outside the repository, as the parameters of the model: the calls the program makes of the
  kernel (sockets, files, threads, DRM), of GLib and GStreamer, the events they leave in the trace,
  and the resources they acquire and release. An environment is a record of answer functions, one per
  call, on the whole trace before the call and its arguments; nothing is assumed of the answers.
\<close>

section \<open>The DRM structures the code reads\<close>

record drmModeModeInfo =
  clock :: u32
  hdisplay :: u16
  htotal :: u16
  vdisplay :: u16
  vtotal :: u16
  mode_vrefresh :: u32
  mode_type :: u32
  mode_name :: string

record drmModeRes =
  res_ptr :: ptr
  res_connectors :: "u32 list"
  res_crtcs :: "u32 list"

record drmModeConnector =
  conn_ptr :: ptr
  conn_id :: u32
  conn_encoder_id :: u32
  connector_type :: u32
  connector_type_id :: u32
  connection :: u32
  conn_modes :: "drmModeModeInfo list"
  conn_encoders :: "u32 list"

record drmModeEncoder =
  enc_ptr :: ptr
  enc_crtc_id :: u32
  enc_possible_crtcs :: u32

record drmModeCrtc =
  crtc_ptr :: ptr
  crtc_object_id :: u32

record drmModePlane =
  plane_ptr :: ptr
  plane_object_id :: u32
  plane_possible_crtcs :: u32

record drmModePlaneRes =
  pres_ptr :: ptr
  pres_planes :: "u32 list"

record drmModeObjectProperties =
  oprops_ptr :: ptr
  oprops :: "u32 list"
  oprop_values :: "u64 list"

record drmModePropertyRes =
  prop_ptr :: ptr
  prop_id :: u32
  prop_flags :: u32
  prop_name :: string
  prop_vals :: "u64 list"

text \<open>A dumb buffer as the kernel fills \<open>struct drm_mode_create_dumb\<close> in.\<close>

record dumb_buffer =
  dumb_handle :: u32
  dumb_pitch :: u32
  dumb_size :: u64

section \<open>Events\<close>

datatype recv_result = RecvErr int | Recv "u8 list"

datatype sys_event =
    EvSocket int
  | EvSetsockopt int string int int
  | EvBind int u16 int
  | EvRecv int recv_result
  | EvShutdown int
  | EvClose int
  | EvThreadNew string ptr
  | EvThreadJoin ptr
  | EvMutexInit lock
  | EvMutexClear lock
  | EvLock lock
  | EvUnlock lock
  | EvAlloc heap_obj bool
  | EvFree heap_obj

datatype gst_event =
    EvObjectRef ptr
  | EvObjectUnref ptr
  | EvPoolNew ptr
  | EvPoolGetConfig ptr ptr
  | EvPoolConfigSetParams ptr nat nat nat
  | EvPoolSetConfig ptr ptr bool
  | EvPoolSetActive ptr bool bool
  | EvPoolAcquire ptr int ptr
  | EvBufferNew nat ptr
  | EvBufferMap ptr "u8 list option"
  | EvBufferUnmap ptr
  | EvBufferFill ptr "u8 list"
  | EvBufferSetSize ptr nat
  | EvBufferRef ptr
  | EvBufferUnref ptr
  | EvPushBuffer ptr ptr "u8 list" int

datatype drm_event =
    EvCreateDumb int u32 u32 u32 "dumb_buffer option"
  | EvDestroyDumb int u32
  | EvMapDumb int u32 "u64 option"
  | EvAddFB2 int u32 u32 u32 "u32 list" "u32 list" "u32 list" "u32 option"
  | EvRmFB int u32
  | EvMmap int u64 u64 "(ptr \<times> u32 list) option"
  | EvStore ptr "u32 list"
  | EvMunmap ptr u64
  | EvSetClientCap int u64 u64 int
  | EvGetObj string int u32 "ptr option"
  | EvFreeObj ptr
  | EvCreateBlob int drmModeModeInfo "u32 option"
  | EvDestroyBlob int u32
  | EvAtomicAlloc ptr
  | EvAtomicAdd ptr u32 u32 u64
  | EvAtomicCommit int ptr u32 "int \<times> int"
  | EvAtomicFree ptr

datatype event =
    Sys sys_event | Gst gst_event | Drm drm_event
  | Elem elem_event | Mp4 mp4_event | Mpp mpp_event | Proc proc_event

type_synonym trace = "event list"
type_synonym 'a io = "(event, 'a) eff"

section \<open>What each event does to the resources\<close>

definition sys_uses :: "sys_event \<Rightarrow> resource set" where
  "sys_uses e = (case e of
     EvSetsockopt fd _ _ _ \<Rightarrow> {Fd fd} | EvBind fd _ _ \<Rightarrow> {Fd fd} | EvRecv fd _ \<Rightarrow> {Fd fd}
   | EvShutdown fd \<Rightarrow> {Fd fd} | _ \<Rightarrow> {})"

definition sys_loss :: "sys_event \<Rightarrow> resource multiset" where
  "sys_loss e = (case e of
     EvClose fd \<Rightarrow> fd_res fd | EvThreadJoin p \<Rightarrow> {#Thread p#} | EvMutexClear l \<Rightarrow> {#Mutex l#}
   | EvLock l \<Rightarrow> {#Mutex l#} | EvUnlock l \<Rightarrow> {#Locked l#}
   | EvFree h \<Rightarrow> {#Heap h#} | _ \<Rightarrow> {#})"

definition sys_gain :: "sys_event \<Rightarrow> resource multiset" where
  "sys_gain e = (case e of
     EvSocket fd \<Rightarrow> fd_res fd | EvThreadNew _ p \<Rightarrow> ptr_res Thread p | EvMutexInit l \<Rightarrow> {#Mutex l#}
   | EvLock l \<Rightarrow> {#Locked l#} | EvUnlock l \<Rightarrow> {#Mutex l#}
   | EvAlloc h ok \<Rightarrow> (if ok then {#Heap h#} else {#}) | _ \<Rightarrow> {#})"

definition gst_uses :: "gst_event \<Rightarrow> resource set" where
  "gst_uses e = (case e of
     EvObjectRef p \<Rightarrow> {Ref p} | EvPoolGetConfig p _ \<Rightarrow> {Ref p}
   | EvPoolConfigSetParams s _ _ _ \<Rightarrow> {Structure s} | EvPoolSetConfig p _ _ \<Rightarrow> {Ref p}
   | EvPoolSetActive p _ _ \<Rightarrow> {Ref p} | EvPoolAcquire p _ _ \<Rightarrow> {Ref p}
   | EvBufferMap b _ \<Rightarrow> {Buf b} | EvBufferUnmap b \<Rightarrow> {Buf b} | EvBufferFill b _ \<Rightarrow> {Mapped b} | EvBufferSetSize b _ \<Rightarrow> {Buf b}
   | EvBufferRef b \<Rightarrow> {Buf b} | EvPushBuffer s _ _ _ \<Rightarrow> {Ref s} | _ \<Rightarrow> {})"

definition gst_loss :: "gst_event \<Rightarrow> resource multiset" where
  "gst_loss e = (case e of
     EvObjectUnref p \<Rightarrow> {#Ref p#} | EvPoolSetConfig _ s _ \<Rightarrow> {#Structure s#}
   | EvBufferUnmap b \<Rightarrow> {#Mapped b#} | EvBufferUnref b \<Rightarrow> {#Buf b#}
   | EvPushBuffer _ b _ _ \<Rightarrow> {#Buf b#} | _ \<Rightarrow> {#})"

definition gst_gain :: "gst_event \<Rightarrow> resource multiset" where
  "gst_gain e = (case e of
     EvObjectRef p \<Rightarrow> {#Ref p#} | EvPoolNew p \<Rightarrow> ptr_res Ref p
   | EvPoolGetConfig _ s \<Rightarrow> {#Structure s#}
   | EvPoolAcquire _ flow b \<Rightarrow> (if flow = 0 then ptr_res Buf b else {#})
   | EvBufferNew _ b \<Rightarrow> ptr_res Buf b | EvBufferMap b (Some _) \<Rightarrow> {#Mapped b#}
   | EvBufferRef b \<Rightarrow> {#Buf b#} | _ \<Rightarrow> {#})"

definition drm_uses :: "drm_event \<Rightarrow> resource set" where
  "drm_uses e = (case e of
     EvAddFB2 fd _ _ _ hs _ _ _ \<Rightarrow> Dumb fd ` (set hs - {0}) | EvMapDumb fd h _ \<Rightarrow> Dumb fd ` ({h} - {0})
   | EvStore p _ \<Rightarrow> Mmap ` ({p} - {0})
   | EvAtomicAdd r _ _ _ \<Rightarrow> {AtomicReq r} | EvAtomicCommit _ r _ _ \<Rightarrow> {AtomicReq r} | _ \<Rightarrow> {})"

definition drm_loss :: "drm_event \<Rightarrow> resource multiset" where
  "drm_loss e = (case e of
     EvDestroyDumb fd h \<Rightarrow> id_res (Dumb fd) h | EvRmFB fd n \<Rightarrow> id_res (DrmFb fd) n
   | EvMunmap p _ \<Rightarrow> ptr_res Mmap p | EvFreeObj p \<Rightarrow> {#DrmObj p#} | EvDestroyBlob fd b \<Rightarrow> id_res (Blob fd) b
   | EvAtomicFree r \<Rightarrow> {#AtomicReq r#} | _ \<Rightarrow> {#})"

definition drm_gain :: "drm_event \<Rightarrow> resource multiset" where
  "drm_gain e = (case e of
     EvCreateDumb fd _ _ _ (Some d) \<Rightarrow> id_res (Dumb fd) (dumb_handle d)
   | EvAddFB2 fd _ _ _ _ _ _ (Some n) \<Rightarrow> id_res (DrmFb fd) n
   | EvMmap _ _ _ (Some m) \<Rightarrow> ptr_res Mmap (fst m) | EvGetObj _ _ _ (Some p) \<Rightarrow> {#DrmObj p#}
   | EvCreateBlob fd _ (Some b) \<Rightarrow> id_res (Blob fd) b | EvAtomicAlloc r \<Rightarrow> ptr_res AtomicReq r | _ \<Rightarrow> {#})"

definition ev_uses :: "event \<Rightarrow> resource set" where
  "ev_uses e = (case e of Sys x \<Rightarrow> sys_uses x | Gst x \<Rightarrow> gst_uses x | Drm x \<Rightarrow> drm_uses x | Elem x \<Rightarrow> elem_uses x
   | Mp4 x \<Rightarrow> mp4_uses x | Mpp x \<Rightarrow> mpp_uses x | Proc x \<Rightarrow> proc_uses x)"

definition ev_loss :: "event \<Rightarrow> resource multiset" where
  "ev_loss e = (case e of Sys x \<Rightarrow> sys_loss x | Gst x \<Rightarrow> gst_loss x | Drm x \<Rightarrow> drm_loss x | Elem x \<Rightarrow> elem_loss x
   | Mp4 x \<Rightarrow> mp4_loss x | Mpp x \<Rightarrow> mpp_loss x | Proc x \<Rightarrow> proc_loss x)"

definition ev_gain :: "event \<Rightarrow> resource multiset" where
  "ev_gain e = (case e of Sys x \<Rightarrow> sys_gain x | Gst x \<Rightarrow> gst_gain x | Drm x \<Rightarrow> drm_gain x | Elem x \<Rightarrow> elem_gain x
   | Mp4 x \<Rightarrow> mp4_gain x | Mpp x \<Rightarrow> mpp_gain x | Proc x \<Rightarrow> proc_gain x)"

definition own :: "event \<Rightarrow> resource multiset \<Rightarrow> resource multiset option" where
  "own = own_by ev_uses ev_loss ev_gain"

lemmas own_ext [wp_intros] = wp_own_ext [of ev_uses _ _ _ ev_loss _ ev_gain, folded own_def]
lemmas own_emit [wp_intros] = wp_own_emit [of ev_uses _ _ ev_loss _ ev_gain, folded own_def]

lemmas own_defs [own_simps] =
  ev_uses_def ev_loss_def ev_gain_def
  sys_uses_def sys_loss_def sys_gain_def gst_uses_def gst_loss_def gst_gain_def
  drm_uses_def drm_loss_def drm_gain_def elem_uses_def elem_loss_def elem_gain_def
  mp4_uses_def mp4_loss_def mp4_gain_def mpp_uses_def mpp_loss_def mpp_gain_def
  proc_uses_def proc_loss_def proc_gain_def sample_res_def ptr_res_def id_res_def fd_res_def

section \<open>Environments and calls\<close>

text \<open>
  Return codes are the C ones; where a call fills in a structure or an id, the answer is an option with
  \<open>None\<close> for its failure codes, or NULL. \<open>e_recv\<close> answers the datagram as the network delivers it; the
  kernel cuts it to the buffer.
\<close>

record sys_env =
  e_socket :: "trace \<Rightarrow> int"
  e_setsockopt :: "trace \<Rightarrow> int \<Rightarrow> string \<Rightarrow> int"
  e_bind :: "trace \<Rightarrow> int \<Rightarrow> u16 \<Rightarrow> int"
  e_recv :: "trace \<Rightarrow> int \<Rightarrow> recv_result"
  e_thread_new :: "trace \<Rightarrow> string \<Rightarrow> ptr"
  e_alloc :: "trace \<Rightarrow> heap_obj \<Rightarrow> bool"

record gst_env =
  e_pool_new :: "trace \<Rightarrow> ptr"
  e_pool_get_config :: "trace \<Rightarrow> ptr \<Rightarrow> ptr"
  e_pool_set_config :: "trace \<Rightarrow> ptr \<Rightarrow> bool"
  e_pool_set_active :: "trace \<Rightarrow> ptr \<Rightarrow> bool \<Rightarrow> bool"
  e_pool_acquire :: "trace \<Rightarrow> ptr \<Rightarrow> int \<times> ptr"
  e_buffer_new :: "trace \<Rightarrow> nat \<Rightarrow> ptr"
  e_buffer_map :: "trace \<Rightarrow> ptr \<Rightarrow> u8 list option"
  e_push_buffer :: "trace \<Rightarrow> ptr \<Rightarrow> int"

record drm_env =
  e_create_dumb :: "trace \<Rightarrow> int \<Rightarrow> u32 \<Rightarrow> u32 \<Rightarrow> u32 \<Rightarrow> dumb_buffer option"
  e_map_dumb :: "trace \<Rightarrow> int \<Rightarrow> u32 \<Rightarrow> u64 option"
  e_add_fb2 :: "trace \<Rightarrow> int \<Rightarrow> u32 \<Rightarrow> u32 \<Rightarrow> u32 \<Rightarrow> u32 option"
  e_mmap :: "trace \<Rightarrow> int \<Rightarrow> u64 \<Rightarrow> (ptr \<times> u32 list) option"
  e_set_client_cap :: "trace \<Rightarrow> int \<Rightarrow> u64 \<Rightarrow> int"
  e_get_resources :: "trace \<Rightarrow> int \<Rightarrow> drmModeRes option"
  e_get_connector :: "trace \<Rightarrow> int \<Rightarrow> u32 \<Rightarrow> drmModeConnector option"
  e_get_encoder :: "trace \<Rightarrow> int \<Rightarrow> u32 \<Rightarrow> drmModeEncoder option"
  e_get_crtc :: "trace \<Rightarrow> int \<Rightarrow> u32 \<Rightarrow> drmModeCrtc option"
  e_get_plane_resources :: "trace \<Rightarrow> int \<Rightarrow> drmModePlaneRes option"
  e_get_plane :: "trace \<Rightarrow> int \<Rightarrow> u32 \<Rightarrow> drmModePlane option"
  e_get_object_props :: "trace \<Rightarrow> int \<Rightarrow> u32 \<Rightarrow> u32 \<Rightarrow> drmModeObjectProperties option"
  e_get_property :: "trace \<Rightarrow> int \<Rightarrow> u32 \<Rightarrow> drmModePropertyRes option"
  e_create_blob :: "trace \<Rightarrow> int \<Rightarrow> u32 option"
  e_atomic_alloc :: "trace \<Rightarrow> ptr"
  e_atomic_commit :: "trace \<Rightarrow> int \<Rightarrow> u32 \<Rightarrow> int \<times> int"

record env =
  sys :: sys_env
  gst :: gst_env
  drm :: drm_env
  elem :: "trace elem_env"
  mp4 :: "trace mp4_env"
  mpp :: "trace mpp_env"
  proc :: "trace proc_env"

subsection \<open>Kernel and GLib\<close>

abbreviation "sys_socket E \<equiv> ext (\<lambda>t. e_socket (sys E) t) (\<lambda>r. Sys (EvSocket r))"
abbreviation "sys_setsockopt E fd opt v \<equiv>
  ext (\<lambda>t. e_setsockopt (sys E) t fd opt) (\<lambda>r. Sys (EvSetsockopt fd opt v r))"
abbreviation "sys_bind E fd port \<equiv>
  ext (\<lambda>t. e_bind (sys E) t fd port) (\<lambda>r. Sys (EvBind fd port r))"
abbreviation "sys_shutdown fd \<equiv> emit (Sys (EvShutdown fd))"
abbreviation "sys_close fd \<equiv> emit (Sys (EvClose fd))"
abbreviation "g_thread_new E name \<equiv>
  ext (\<lambda>t. e_thread_new (sys E) t name) (\<lambda>p. Sys (EvThreadNew name p))"
abbreviation "g_thread_join p \<equiv> emit (Sys (EvThreadJoin p))"
abbreviation "g_mutex_init l \<equiv> emit (Sys (EvMutexInit l))"
abbreviation "g_mutex_clear l \<equiv> emit (Sys (EvMutexClear l))"
abbreviation "g_mutex_lock l \<equiv> emit (Sys (EvLock l))"
abbreviation "g_mutex_unlock l \<equiv> emit (Sys (EvUnlock l))"
abbreviation "g_alloc E h \<equiv> ext (\<lambda>t. e_alloc (sys E) t h) (\<lambda>ok. Sys (EvAlloc h ok))"
abbreviation "g_free h \<equiv> emit (Sys (EvFree h))"

fun cut_datagram :: "nat \<Rightarrow> recv_result \<Rightarrow> recv_result" where
  "cut_datagram n (RecvErr e) = RecvErr e"
| "cut_datagram n (Recv bs) = Recv (take n bs)"

lemma wp_case_recv_result [wp_intros]:
  "(\<And>e. x = RecvErr e \<Longrightarrow> wp \<delta> (f e) Q s) \<Longrightarrow> (\<And>bs. x = Recv bs \<Longrightarrow> wp \<delta> (g bs) Q s) \<Longrightarrow>
   wp \<delta> (case x of RecvErr e \<Rightarrow> f e | Recv bs \<Rightarrow> g bs) Q s"
  by (cases x) auto

abbreviation "sys_recv E fd sz \<equiv>
  ext (\<lambda>t. cut_datagram sz (e_recv (sys E) t fd)) (\<lambda>r. Sys (EvRecv fd r))"

subsection \<open>GStreamer\<close>

abbreviation "gst_object_ref p \<equiv> emit (Gst (EvObjectRef p))"
abbreviation "gst_object_unref p \<equiv> emit (Gst (EvObjectUnref p))"
abbreviation "gst_buffer_pool_new E \<equiv> ext (\<lambda>t. e_pool_new (gst E) t) (\<lambda>p. Gst (EvPoolNew p))"
abbreviation "gst_buffer_pool_get_config E p \<equiv>
  ext (\<lambda>t. e_pool_get_config (gst E) t p) (\<lambda>c. Gst (EvPoolGetConfig p c))"
abbreviation "gst_buffer_pool_config_set_params c sz lo hi \<equiv>
  emit (Gst (EvPoolConfigSetParams c sz lo hi))"
abbreviation "gst_buffer_pool_set_config E p c \<equiv>
  ext (\<lambda>t. e_pool_set_config (gst E) t p) (\<lambda>ok. Gst (EvPoolSetConfig p c ok))"
abbreviation "gst_buffer_pool_set_active E p on \<equiv>
  ext (\<lambda>t. e_pool_set_active (gst E) t p on) (\<lambda>ok. Gst (EvPoolSetActive p on ok))"
abbreviation "gst_buffer_pool_acquire_buffer E p \<equiv>
  ext (\<lambda>t. e_pool_acquire (gst E) t p) (\<lambda>r. Gst (EvPoolAcquire p (fst r) (snd r)))"
abbreviation "gst_buffer_new_allocate E n \<equiv>
  ext (\<lambda>t. e_buffer_new (gst E) t n) (\<lambda>b. Gst (EvBufferNew n b))"
abbreviation "gst_buffer_map E b \<equiv>
  ext (\<lambda>t. e_buffer_map (gst E) t b) (\<lambda>m. Gst (EvBufferMap b m))"
abbreviation "gst_buffer_unmap b \<equiv> emit (Gst (EvBufferUnmap b))"
abbreviation "gst_buffer_set_size b n \<equiv> emit (Gst (EvBufferSetSize b n))"
abbreviation "gst_buffer_ref b \<equiv> emit (Gst (EvBufferRef b))"
abbreviation "gst_buffer_unref b \<equiv> emit (Gst (EvBufferUnref b))"
abbreviation "gst_app_src_push_buffer E src b bytes \<equiv>
  ext (\<lambda>t. e_push_buffer (gst E) t b) (\<lambda>r. Gst (EvPushBuffer src b bytes r))"

subsection \<open>DRM\<close>

abbreviation "drm_create_dumb E fd w h bpp \<equiv>
  ext (\<lambda>t. e_create_dumb (drm E) t fd w h bpp) (\<lambda>r. Drm (EvCreateDumb fd w h bpp r))"
abbreviation "drm_destroy_dumb fd h \<equiv> emit (Drm (EvDestroyDumb fd h))"
abbreviation "drm_map_dumb E fd h \<equiv>
  ext (\<lambda>t. e_map_dumb (drm E) t fd h) (\<lambda>r. Drm (EvMapDumb fd h r))"
abbreviation "drmModeAddFB2 E fd w h fmt handles pitches offsets \<equiv>
  ext (\<lambda>t. e_add_fb2 (drm E) t fd w h fmt) (\<lambda>r. Drm (EvAddFB2 fd w h fmt handles pitches offsets r))"
abbreviation "drmModeRmFB fd n \<equiv> emit (Drm (EvRmFB fd n))"
abbreviation "drm_mmap E fd sz off \<equiv>
  ext (\<lambda>t. e_mmap (drm E) t fd sz) (\<lambda>r. Drm (EvMmap fd sz off r))"
abbreviation "mem_store p px \<equiv> emit (Drm (EvStore p px))"
abbreviation "drm_munmap p sz \<equiv> emit (Drm (EvMunmap p sz))"
abbreviation "drmSetClientCap E fd cap v \<equiv>
  ext (\<lambda>t. e_set_client_cap (drm E) t fd cap) (\<lambda>r. Drm (EvSetClientCap fd cap v r))"
abbreviation "drm_free p \<equiv> emit (Drm (EvFreeObj p))"
abbreviation "drmModeGetResources E fd \<equiv> ext (\<lambda>t. e_get_resources (drm E) t fd)
  (\<lambda>r. Drm (EvGetObj ''resources'' fd 0 (map_option res_ptr r)))"
abbreviation "drmModeGetConnector E fd n \<equiv> ext (\<lambda>t. e_get_connector (drm E) t fd n)
  (\<lambda>r. Drm (EvGetObj ''connector'' fd n (map_option conn_ptr r)))"
abbreviation "drmModeGetEncoder E fd n \<equiv> ext (\<lambda>t. e_get_encoder (drm E) t fd n)
  (\<lambda>r. Drm (EvGetObj ''encoder'' fd n (map_option enc_ptr r)))"
abbreviation "drmModeGetCrtc E fd n \<equiv> ext (\<lambda>t. e_get_crtc (drm E) t fd n)
  (\<lambda>r. Drm (EvGetObj ''crtc'' fd n (map_option crtc_ptr r)))"
abbreviation "drmModeGetPlaneResources E fd \<equiv> ext (\<lambda>t. e_get_plane_resources (drm E) t fd)
  (\<lambda>r. Drm (EvGetObj ''plane resources'' fd 0 (map_option pres_ptr r)))"
abbreviation "drmModeGetPlane E fd n \<equiv> ext (\<lambda>t. e_get_plane (drm E) t fd n)
  (\<lambda>r. Drm (EvGetObj ''plane'' fd n (map_option plane_ptr r)))"
abbreviation "drmModeObjectGetProperties E fd n ty \<equiv> ext (\<lambda>t. e_get_object_props (drm E) t fd n ty)
  (\<lambda>r. Drm (EvGetObj ''object properties'' fd n (map_option oprops_ptr r)))"
abbreviation "drmModeGetProperty E fd n \<equiv> ext (\<lambda>t. e_get_property (drm E) t fd n)
  (\<lambda>r. Drm (EvGetObj ''property'' fd n (map_option prop_ptr r)))"
abbreviation "drmModeCreatePropertyBlob E fd m \<equiv> ext (\<lambda>t. e_create_blob (drm E) t fd)
  (\<lambda>r. Drm (EvCreateBlob fd m r))"
abbreviation "drmModeDestroyPropertyBlob fd b \<equiv> emit (Drm (EvDestroyBlob fd b))"
abbreviation "drmModeAtomicAlloc E \<equiv> ext (\<lambda>t. e_atomic_alloc (drm E) t) (\<lambda>r. Drm (EvAtomicAlloc r))"
abbreviation "drmModeAtomicAddProperty r obj prop v \<equiv> emit (Drm (EvAtomicAdd r obj prop v))"
abbreviation "drmModeAtomicCommit E fd r flags \<equiv>
  ext (\<lambda>t. e_atomic_commit (drm E) t fd flags) (\<lambda>a. Drm (EvAtomicCommit fd r flags a))"
abbreviation "drmModeAtomicFree r \<equiv> emit (Drm (EvAtomicFree r))"

text \<open>The constants of the DRM headers.\<close>

definition DRM_MODE_OBJECT_CRTC :: u32 where "DRM_MODE_OBJECT_CRTC = 0xcccccccc"
definition DRM_MODE_OBJECT_CONNECTOR :: u32 where "DRM_MODE_OBJECT_CONNECTOR = 0xc0c0c0c0"
definition DRM_MODE_OBJECT_PLANE :: u32 where "DRM_MODE_OBJECT_PLANE = 0xeeeeeeee"
definition DRM_MODE_PROP_RANGE :: u32 where "DRM_MODE_PROP_RANGE = 2"
definition DRM_CLIENT_CAP_UNIVERSAL_PLANES :: u64 where "DRM_CLIENT_CAP_UNIVERSAL_PLANES = 2"
definition DRM_CLIENT_CAP_ATOMIC :: u64 where "DRM_CLIENT_CAP_ATOMIC = 3"
definition DRM_MODE_CONNECTED :: u32 where "DRM_MODE_CONNECTED = 1"
definition DRM_MODE_TYPE_PREFERRED :: u32 where "DRM_MODE_TYPE_PREFERRED = 8"
definition DRM_MODE_ATOMIC_NONBLOCK :: u32 where "DRM_MODE_ATOMIC_NONBLOCK = 0x0200"
definition DRM_MODE_ATOMIC_ALLOW_MODESET :: u32 where "DRM_MODE_ATOMIC_ALLOW_MODESET = 0x0400"

section \<open>Memory\<close>

text \<open>\<open>memcpy(dst, src, n)\<close> and a loop of byte stores on the list of a region's contents.\<close>

definition memcpy :: "'a list \<Rightarrow> 'a list \<Rightarrow> nat \<Rightarrow> 'a list" where
  "memcpy dst src n = take n src @ drop n dst"

lemma take_memcpy [simp]: "n \<le> length src \<Longrightarrow> take n (memcpy dst src n) = take n src"
  by (simp add: memcpy_def)

lemma length_memcpy [simp]: "n \<le> length src \<Longrightarrow> n \<le> length dst \<Longrightarrow> length (memcpy dst src n) = length dst"
  by (simp add: memcpy_def)

end
