(* ===== verification/Media_Calls.thy ===== *)
theory Media_Calls
  imports External
begin

text \<open>
  The calls of \<open>Media\_Events\<close> as actions, the constants of GStreamer's headers, and the environment in
  which every call fails, which the witnesses start from.
\<close>

section \<open>Calls\<close>

subsection \<open>GStreamer elements\<close>

abbreviation "gst_init \<equiv>
  emit (Elem EvGstInit)"
abbreviation "gst_pipeline_new E \<equiv>
  ext (\<lambda>t. e_pipeline_new (elem E) t ) (\<lambda>r. Elem (EvPipelineNew r))"
abbreviation "gst_element_factory_make E kind \<equiv>
  ext (\<lambda>t. e_element_new (elem E) t kind) (\<lambda>r. Elem (EvElementNew kind r))"
abbreviation "gst_caps_new_simple E media fs \<equiv>
  ext (\<lambda>t. e_caps_new (elem E) t media) (\<lambda>r. Elem (EvCapsNew media fs r))"
abbreviation "gst_set_props p vals \<equiv>
  emit (Elem (EvSetProps p vals))"
abbreviation "gst_elem_unref p \<equiv>
  emit (Elem (EvElemUnref p))"
abbreviation "gst_bin_add_many p ps \<equiv>
  emit (Elem (EvBinAdd p ps))"
abbreviation "gst_element_link_many E ps \<equiv>
  ext (\<lambda>t. e_link (elem E) t ) (\<lambda>r. Elem (EvLink ps r))"
abbreviation "gst_element_set_state E p st \<equiv>
  ext (\<lambda>t. e_set_state (elem E) t p st) (\<lambda>r. Elem (EvSetState p st r))"
abbreviation "gst_element_get_state E p timeout \<equiv>
  ext (\<lambda>t. e_get_state (elem E) t p) (\<lambda>r. Elem (EvGetState p timeout r))"
abbreviation "gst_element_send_eos p \<equiv>
  emit (Elem (EvSendEos p))"
abbreviation "gst_element_get_bus E p \<equiv>
  ext (\<lambda>t. e_get_bus (elem E) t p) (\<lambda>r. Elem (EvGetBus p r))"
abbreviation "gst_bus_timed_pop E b timeout \<equiv>
  ext (\<lambda>t. e_bus_pop (elem E) t) (\<lambda>r. Elem (EvBusPop b timeout (fst r) (snd r)))"
abbreviation "gst_app_sink_try_pull_sample E sink timeout \<equiv>
  ext (\<lambda>t. e_pull_sample (elem E) t) (\<lambda>r. Elem (EvPullSample sink timeout r))"
abbreviation "gst_sample_unref s \<equiv>
  emit (Elem (EvSampleUnref s))"
abbreviation "gst_sample_get_caps E p \<equiv>
  ask (\<lambda>t. e_sample_caps (elem E) t p)"
abbreviation "gst_buffer_get_size E p \<equiv>
  ask (\<lambda>t. e_buffer_size (elem E) t p)"
abbreviation "GST_BUFFER_PTS E p \<equiv>
  ask (\<lambda>t. e_buffer_pts (elem E) t p)"
abbreviation "GST_BUFFER_DTS E p \<equiv>
  ask (\<lambda>t. e_buffer_dts (elem E) t p)"
abbreviation "GST_BUFFER_DURATION E p \<equiv>
  ask (\<lambda>t. e_buffer_duration (elem E) t p)"
abbreviation "gst_util_uint64_scale E v num denom \<equiv>
  e_scale (elem E) v num denom"

subsection \<open>Files\<close>

abbreviation "g_mkdir_with_parents E dir mode \<equiv>
  ext (\<lambda>t. e_mkdir (mp4 E) t dir) (\<lambda>r. Mp4 (EvMkdir dir mode r))"
abbreviation "sys_fopen E path \<equiv>
  ext (\<lambda>t. e_fopen (mp4 E) t path) (\<lambda>r. Mp4 (EvFopen path r))"
abbreviation "sys_fclose fp \<equiv>
  emit (Mp4 (EvFclose fp))"
abbreviation "sys_fflush fp \<equiv>
  emit (Mp4 (EvFflush fp))"
abbreviation "sys_fseeko E fp off \<equiv>
  ext (\<lambda>t. e_fseek (mp4 E) t fp off) (\<lambda>r. Mp4 (EvFseek fp off r))"
abbreviation "sys_fwrite E bs fp \<equiv>
  ext (\<lambda>t. min (e_fwrite (mp4 E) t fp bs) (length bs)) (\<lambda>r. Mp4 (EvFwrite fp bs r))"
abbreviation "g_get_monotonic_time E \<equiv>
  ask (\<lambda>t. e_monotonic (mp4 E) t)"

subsection \<open>MPP\<close>

abbreviation "mpp_create E \<equiv>
  ext (\<lambda>t. e_mpp_create (mpp E) t) (\<lambda>r. Mpp (EvMppCreate (fst r) (fst (snd r)) (snd (snd r))))"
abbreviation "mpp_init E c coding \<equiv>
  ext (\<lambda>t. e_mpp_init (mpp E) t) (\<lambda>r. Mpp (EvMppInit c coding r))"
abbreviation "mpi_reset E c \<equiv>
  ext (\<lambda>t. e_mpp_reset (mpp E) t ) (\<lambda>r. Mpp (EvMppReset c r))"
abbreviation "mpp_destroy c \<equiv>
  emit (Mpp (EvMppDestroy c))"
abbreviation "mpi_control E c cmd param \<equiv>
  ext (\<lambda>t. e_mpp_control (mpp E) t cmd) (\<lambda>r. Mpp (EvMppControl c cmd param r))"
abbreviation "mpp_packet_init E sz \<equiv>
  ext (\<lambda>t. e_packet_init (mpp E) t) (\<lambda>r. Mpp (EvPacketInit sz r))"
abbreviation "mpp_packet_deinit p \<equiv>
  emit (Mpp (EvPacketDeinit p))"
abbreviation "mpp_packet_set p f \<equiv>
  emit (Mpp (EvPacketSet p f))"
abbreviation "mpi_decode_put_packet E c p \<equiv>
  ext (\<lambda>t. e_put_packet (mpp E) t ) (\<lambda>r. Mpp (EvPutPacket c p r))"
abbreviation "mpi_decode_get_frame E c \<equiv>
  ext (\<lambda>t. e_get_frame (mpp E) t) (\<lambda>r. Mpp (EvGetFrame c (map_option frame_ptr r)))"
abbreviation "mpp_frame_deinit p \<equiv>
  emit (Mpp (EvFrameDeinit p))"
abbreviation "mpp_dec_cfg_init E \<equiv>
  ext (\<lambda>t. e_dec_cfg_init (mpp E) t ) (\<lambda>r. Mpp (EvDecCfgInit r))"
abbreviation "mpp_dec_cfg_set_u32 E p what v \<equiv>
  ext (\<lambda>t. e_dec_cfg_set (mpp E) t) (\<lambda>r. Mpp (EvDecCfgSet p what v r))"
abbreviation "mpp_dec_cfg_deinit p \<equiv>
  emit (Mpp (EvDecCfgDeinit p))"
abbreviation "mpp_buffer_group_get_external E \<equiv>
  ext (\<lambda>t. e_group_get (mpp E) t ) (\<lambda>r. Mpp (EvGroupGet r))"
abbreviation "mpp_buffer_group_clear g \<equiv>
  emit (Mpp (EvGroupClear g))"
abbreviation "mpp_buffer_group_put g \<equiv>
  emit (Mpp (EvGroupPut g))"
abbreviation "mpp_buffer_commit E g fd sz \<equiv>
  ext (\<lambda>t. e_buffer_commit (mpp E) t fd) (\<lambda>r. Mpp (EvBufferCommit g fd sz r))"
abbreviation "mpp_buffer_info_get E b \<equiv>
  ask (\<lambda>t. e_buffer_info (mpp E) t b)"
abbreviation "sys_dup_fd E fd \<equiv>
  ext (\<lambda>t. e_dup_fd (mpp E) t fd) (\<lambda>r. Mpp (EvDupFd fd r))"
abbreviation "drm_prime_handle_to_fd E fd h \<equiv>
  ext (\<lambda>t. e_prime_fd (mpp E) t fd h) (\<lambda>r. Mpp (EvPrimeFd fd h r))"
abbreviation "ioctl_interrupted fd \<equiv>
  emit (Mpp (EvInterrupted fd))"
abbreviation "g_usleep us \<equiv>
  emit (Mpp (EvSleep us))"
abbreviation "g_cond_init c \<equiv>
  emit (Mpp (EvCondInit c))"
abbreviation "g_cond_clear c \<equiv>
  emit (Mpp (EvCondClear c))"
abbreviation "g_cond_signal c \<equiv>
  emit (Mpp (EvCondSignal c))"
abbreviation "g_cond_wait c l \<equiv>
  emit (Mpp (EvCondWait c l))"

subsection \<open>The process\<close>

abbreviation "sys_open_excl E path \<equiv>
  ext (\<lambda>t. e_open_excl (proc E) t) (\<lambda>r. Proc (EvOpenExcl path (fst r) (snd r)))"
abbreviation "sys_open E path \<equiv>
  ext (\<lambda>t. e_open (proc E) t path) (\<lambda>r. Proc (EvOpen path r))"
abbreviation "sys_read E fd n \<equiv>
  ext (\<lambda>t. map_option (take n) (e_read (proc E) t fd)) (\<lambda>r. Proc (EvRead fd r))"
abbreviation "sys_write E fd s \<equiv>
  ext (\<lambda>t. e_write (proc E) t fd s) (\<lambda>r. Proc (EvWriteFd fd s r))"
abbreviation "sys_unlink E path \<equiv>
  ext (\<lambda>t. e_unlink (proc E) t) (\<lambda>r. Proc (EvUnlink path (fst r) (snd r)))"
abbreviation "sys_kill E pid \<equiv>
  ext (\<lambda>t. e_kill (proc E) t pid) (\<lambda>r. Proc (EvKill pid (fst r) (snd r)))"
abbreviation "sys_atexit \<equiv>
  emit (Proc EvAtexit)"
abbreviation "sys_sigmask E \<equiv>
  ext (\<lambda>t. e_sigmask (proc E) t ) (\<lambda>r. Proc (EvSigmask r))"
abbreviation "sys_thread_kill p sig \<equiv>
  emit (Proc (EvThreadKill p sig))"
abbreviation "sys_poll E \<equiv>
  ext (\<lambda>t. e_signals (proc E) t ) (\<lambda>r. Proc (EvPoll r))"
abbreviation "sys_timedjoin E p \<equiv>
  ext (\<lambda>t. e_timed_join (proc E) t ) (\<lambda>r. Proc (EvTimedJoin p r))"
abbreviation "sys_exit n \<equiv>
  emit (Proc (EvExit n))"

abbreviation "buffer_fill b bytes \<equiv> emit (Gst (EvBufferFill b bytes))"

section \<open>Constants\<close>

definition GST_CLOCK_TIME_NONE :: u64 where "GST_CLOCK_TIME_NONE = 0xFFFFFFFFFFFFFFFF"
definition GST_SECOND :: u64 where "GST_SECOND = 1000000000"
definition GST_MSECOND :: u64 where "GST_MSECOND = 1000000"

definition GST_STATE_NULL :: int where "GST_STATE_NULL = 1"
definition GST_STATE_PLAYING :: int where "GST_STATE_PLAYING = 4"
definition GST_STATE_CHANGE_FAILURE :: int where "GST_STATE_CHANGE_FAILURE = 0"
definition GST_STATE_CHANGE_ASYNC :: int where "GST_STATE_CHANGE_ASYNC = 2"
definition GST_MESSAGE_EOS :: int where "GST_MESSAGE_EOS = 1"
definition GST_MESSAGE_ERROR :: int where "GST_MESSAGE_ERROR = 2"

section \<open>An environment in which every call fails\<close>

definition null_env :: env where
  "null_env = \<lparr>
     sys = \<lparr>e_socket = \<lambda>_. -1, e_setsockopt = \<lambda>_ _ _. -1, e_bind = \<lambda>_ _ _. -1,
       e_recv = \<lambda>_ _. RecvErr 0, e_thread_new = \<lambda>_ _. 0, e_alloc = \<lambda>_ _. False\<rparr>,
     gst = \<lparr>e_pool_new = \<lambda>_. 0, e_pool_get_config = \<lambda>_ _. 0, e_pool_set_config = \<lambda>_ _. False,
       e_pool_set_active = \<lambda>_ _ _. False, e_pool_acquire = \<lambda>_ _. (-1, 0), e_buffer_new = \<lambda>_ _. 0,
       e_buffer_map = \<lambda>_ _. None, e_push_buffer = \<lambda>_ _. -1\<rparr>,
     drm = \<lparr>e_create_dumb = \<lambda>_ _ _ _ _. None, e_map_dumb = \<lambda>_ _ _. None,
       e_add_fb2 = \<lambda>_ _ _ _ _. None, e_mmap = \<lambda>_ _ _. None, e_set_client_cap = \<lambda>_ _ _. -1,
       e_get_resources = \<lambda>_ _. None, e_get_connector = \<lambda>_ _ _. None, e_get_encoder = \<lambda>_ _ _. None,
       e_get_crtc = \<lambda>_ _ _. None, e_get_plane_resources = \<lambda>_ _. None, e_get_plane = \<lambda>_ _ _. None,
       e_get_object_props = \<lambda>_ _ _ _. None, e_get_property = \<lambda>_ _ _. None,
       e_create_blob = \<lambda>_ _. None, e_atomic_alloc = \<lambda>_. 0, e_atomic_commit = \<lambda>_ _ _. (-1, 0)\<rparr>,
     elem = \<lparr>e_pipeline_new = \<lambda>_. 0, e_element_new = \<lambda>_ _. 0, e_caps_new = \<lambda>_ _. 0,
       e_link = \<lambda>_. False, e_set_state = \<lambda>_ _ _. 0, e_get_state = \<lambda>_ _. 0, e_get_bus = \<lambda>_ _. 0,
       e_bus_pop = \<lambda>_. (0, 0), e_pull_sample = \<lambda>_. (0, 0),
       e_sample_caps = \<lambda>_ _. None, e_buffer_size = \<lambda>_ _. 0, e_buffer_pts = \<lambda>_ _. GST_CLOCK_TIME_NONE,
       e_buffer_dts = \<lambda>_ _. GST_CLOCK_TIME_NONE, e_buffer_duration = \<lambda>_ _. GST_CLOCK_TIME_NONE,
       e_scale = \<lambda>_ _ _. 0\<rparr>,
     mp4 = \<lparr>e_now_local = \<lambda>_. 0, e_date_format = \<lambda>_ _. None, e_is_dir = \<lambda>_ _. False,
       e_dirname = \<lambda>_. ''.'', e_basename = \<lambda>p. p, e_build_filename = \<lambda>d f. d @ ''/'' @ f,
       e_monotonic = \<lambda>_. 0, e_mkdir = \<lambda>_ _. (-1, 0), e_fopen = \<lambda>_ _. 0, e_fseek = \<lambda>_ _ _. -1,
       e_fwrite = \<lambda>_ _ _. 0, e_mux_open = \<lambda>_ _ _. MuxRet 0, e_writer_init = \<lambda>_ _. MuxRet (-1),
       e_write_nal = \<lambda>_ _. MuxRet (-1), e_writer_close = \<lambda>_ _. MuxRet (), e_mux_close = \<lambda>_ _. MuxRet 0\<rparr>,
     mpp = \<lparr>e_mpp_create = \<lambda>_. (-1, 0, 0), e_mpp_init = \<lambda>_. -1, e_mpp_reset = \<lambda>_. -1,
       e_mpp_control = \<lambda>_ _. -1, e_packet_init = \<lambda>_. None, e_put_packet = \<lambda>_. -1,
       e_get_frame = \<lambda>_. None, e_dec_cfg_init = \<lambda>_. None, e_dec_cfg_set = \<lambda>_. -1,
       e_group_get = \<lambda>_. None, e_buffer_commit = \<lambda>_ _. None, e_buffer_info = \<lambda>_ _. None,
       e_dup_fd = \<lambda>_ _. -1, e_prime_fd = \<lambda>_ _ _. None, e_interrupts = \<lambda>_. 0, e_clock = \<lambda>_. (0, 0),
       e_vd_running = \<lambda>_. False\<rparr>,
     proc = \<lparr>e_open_excl = \<lambda>_. (-1, 0), e_open = \<lambda>_ _. -1, e_read = \<lambda>_ _. None, e_write = \<lambda>_ _ _. -1,
       e_unlink = \<lambda>_. (-1, 0), e_kill = \<lambda>_ _. (-1, 0), e_getpid = 1, e_sigmask = \<lambda>_. -1,
       e_signals = \<lambda>_. [], e_timed_join = \<lambda>_. -1,
       e_shared = \<lambda>_. \<lparr>sh_bus_running = False, sh_appsink_running = False, sh_stop_requested = False,
         sh_error = False\<rparr>\<rparr>\<rparr>"

end
