(* ===== verification/Video_Recorder.thy ===== *)
theory Video_Recorder
  imports Config Media_Calls
begin

text \<open>
  \<open>src/video\_recorder.c\<close>: the MP4 recorder. An access unit is held back as \<open>pending\<close> until the next one
  arrives, because its duration is the distance between the two; the muxer writes the file through
  \<open>recorder\_write\_callback\<close>. The \<open>writer\<close> struct is the muxer's own state and is named by the muxer.
  \<open>GDateTime\<close> objects and the temporary strings are values here, so their release does not appear.
\<close>

section \<open>State\<close>

record PendingSample =
  pend_buffer :: ptr
  pend_pts :: u64
  pend_duration :: u64
  pend_valid :: bool

definition zero_pending :: PendingSample where
  "zero_pending = \<lparr>pend_buffer = 0, pend_pts = 0, pend_duration = 0, pend_valid = False\<rparr>"

record VideoRecorder =
  vr_enabled :: bool
  vr_failed :: bool
  vr_fp :: ptr
  vr_mux :: ptr
  vr_writer_initialized :: bool
  vr_width :: u32
  vr_height :: u32
  vr_default_duration_90k :: u64
  vr_last_duration_90k :: u64
  vr_output_path :: "string option"
  vr_mode :: RecordMode
  vr_sequential_mode_flag :: bool
  vr_enable_fragmentation :: bool
  vr_pending :: PendingSample
  vr_awaiting_sync_warning :: bool
  vr_bytes_written :: u64
  vr_total_duration_90k :: u64
  vr_start_time_ns :: u64

record VideoRecorderStats =
  vs_active :: bool
  vs_bytes_written :: u64
  vs_elapsed_ns :: u64
  vs_media_duration_ns :: u64
  vs_output_path :: string

definition zero_stats :: VideoRecorderStats where
  "zero_stats = \<lparr>vs_active = False, vs_bytes_written = 0, vs_elapsed_ns = 0, vs_media_duration_ns = 0,
     vs_output_path = []\<rparr>"

section \<open>The output path\<close>

definition recorder_timestamp_string :: "env \<Rightarrow> string io" where
  "recorder_timestamp_string E = do {
     now \<leftarrow> ask (\<lambda>t. e_now_local (mp4 E) t);
     if now = 0 then ret ''00000000-000000''
     else do {
       stamp \<leftarrow> ask (\<lambda>t. e_date_format (mp4 E) t now);
       ret (case stamp of None \<Rightarrow> ''00000000-000000'' | Some s \<Rightarrow> s)
     }
   }"

definition path_looks_like_directory :: "env \<Rightarrow> string option \<Rightarrow> bool io" where
  "path_looks_like_directory E path =
     (case path of
        None \<Rightarrow> ret True
      | Some p \<Rightarrow>
          if p = [] then ret True
          else if last p = CHR ''/'' then ret True
          else ask (\<lambda>t. e_is_dir (mp4 E) t p))"

text \<open>\<open>strrchr\<close>, as the offset of the last occurrence.\<close>

fun strrchr_at :: "char \<Rightarrow> string \<Rightarrow> nat option" where
  "strrchr_at c [] = None"
| "strrchr_at c (x # xs) =
     (case strrchr_at c xs of Some n \<Rightarrow> Some (Suc n) | None \<Rightarrow> if x = c then Some 0 else None)"

text \<open>The stamp goes before the last dot, if there is a name before it.\<close>

definition stamped_name :: "string \<Rightarrow> string \<Rightarrow> string" where
  "stamped_name base stamp =
     (case strrchr_at (CHR ''.'') base of
        Some dot \<Rightarrow>
          if dot \<noteq> 0 then take dot base @ ''-'' @ stamp @ drop dot base
          else base @ ''-'' @ stamp @ ''.mp4''
      | None \<Rightarrow> base @ ''-'' @ stamp @ ''.mp4'')"

definition build_timestamped_output_path :: "env \<Rightarrow> string option \<Rightarrow> string io" where
  "build_timestamped_output_path E requested = do {
     let base = (case requested of Some p \<Rightarrow> if p \<noteq> [] then p else ''/media'' | None \<Rightarrow> ''/media'');
     stamp \<leftarrow> recorder_timestamp_string E;
     is_dir \<leftarrow> path_looks_like_directory E (Some base);
     if is_dir then
       ret (e_build_filename (mp4 E) base (''pixelpilot_stripped_rk-'' @ stamp @ ''.mp4''))
     else do {
       let dir = e_dirname (mp4 E) base;
       let name = stamped_name (e_basename (mp4 E) base) stamp;
       ret (if dir \<noteq> [] \<and> dir \<noteq> ''.'' then e_build_filename (mp4 E) dir name else name)
     }
   }"

section \<open>The muxer's writes\<close>

definition recorder_write_callback ::
    "env \<Rightarrow> int \<Rightarrow> u8 list option \<Rightarrow> VideoRecorder \<Rightarrow> (int \<times> VideoRecorder) io" where
  "recorder_write_callback E off buffer rec =
     (case buffer of
        None \<Rightarrow> ret (-1, rec)
      | Some bytes \<Rightarrow>
          if vr_fp rec = 0 then ret (-1, rec)
          else do {
            r \<leftarrow> sys_fseeko E (vr_fp rec) off;
            if r \<noteq> 0 then ret (-1, rec)
            else do {
              written \<leftarrow> sys_fwrite E bytes (vr_fp rec);
              if written \<noteq> length bytes then ret (-1, rec)
              else do {
                g_mutex_lock StatsLock;
                let rec = rec\<lparr>vr_bytes_written := vr_bytes_written rec + of_nat written\<rparr>;
                g_mutex_unlock StatsLock;
                ret (0, rec)
              }
            }
          })"

text \<open>A call of the muxer, with a callback where it writes; the recorder's calls use its own callback.\<close>

primrec mux_calls ::
    "(int \<Rightarrow> u8 list option \<Rightarrow> 's \<Rightarrow> (int \<times> 's) io) \<Rightarrow> 'a mux_run \<Rightarrow> 's \<Rightarrow> ('a \<times> 's) io" where
  "mux_calls cb (MuxRet x) = (\<lambda>s. ret (x, s))"
| "mux_calls cb (MuxWrite off buffer k) = (\<lambda>s. do {
     x \<leftarrow> cb off buffer s;
     mux_calls cb (k (fst x)) (snd x)
   })"

text \<open>What the call can return.\<close>

primrec mux_results :: "'a mux_run \<Rightarrow> 'a set" where
  "mux_results (MuxRet x) = {x}"
| "mux_results (MuxWrite off buffer k) = (\<Union>r. mux_results (k r))"

abbreviation run_mux :: "env \<Rightarrow> 'a mux_run \<Rightarrow> VideoRecorder \<Rightarrow> ('a \<times> VideoRecorder) io" where
  "run_mux E \<equiv> mux_calls (recorder_write_callback E)"

section \<open>Durations\<close>

definition gst_time_to_90k :: "env \<Rightarrow> u64 \<Rightarrow> u64" where
  "gst_time_to_90k E v =
     (if v = GST_CLOCK_TIME_NONE then 0 else gst_util_uint64_scale E v 90000 GST_SECOND)"

definition compute_duration_90k ::
    "env \<Rightarrow> VideoRecorder \<Rightarrow> u64 \<Rightarrow> u64 \<Rightarrow> u64 \<Rightarrow> u32 \<times> VideoRecorder" where
  "compute_duration_90k E rec prev_pts prev_duration next_pts =
     (let duration =
            (if prev_duration \<noteq> GST_CLOCK_TIME_NONE then gst_time_to_90k E prev_duration
             else if prev_pts \<noteq> GST_CLOCK_TIME_NONE \<and> next_pts \<noteq> GST_CLOCK_TIME_NONE \<and> prev_pts < next_pts
             then gst_time_to_90k E (next_pts - prev_pts) else 0);
          duration =
            (if duration = 0
             then (if vr_last_duration_90k rec \<noteq> 0 then vr_last_duration_90k rec
                   else if vr_default_duration_90k rec \<noteq> 0 then vr_default_duration_90k rec else 3000)
             else duration);
          rec = rec\<lparr>vr_last_duration_90k := duration\<rparr>;
          duration = (if 0xFFFFFFFF < duration then 0xFFFFFFFF else duration)
      in (ucast duration, rec))"

definition pending_reset :: "VideoRecorder \<Rightarrow> VideoRecorder io" where
  "pending_reset rec = do {
     io_when (pend_buffer (vr_pending rec) \<noteq> 0) (gst_buffer_unref (pend_buffer (vr_pending rec)));
     ret (rec\<lparr>vr_pending := zero_pending\<rparr>)
   }"

section \<open>The writer\<close>

text \<open>\<open>gst_structure_get_int(s, ..., &tmp) && tmp > 0\<close>\<close>

definition positive_dim :: "int option \<Rightarrow> u32" where
  "positive_dim v = (case v of Some n \<Rightarrow> if 0 < n then word_of_int n else 0 | None \<Rightarrow> 0)"

definition default_duration :: "(int \<times> int) option \<Rightarrow> u64" where
  "default_duration framerate =
     (let (n, d) = (case framerate of
            Some (n, d) \<Rightarrow> if 0 < n \<and> 0 < d then (word_of_int n, word_of_int d) else (0 :: u32, 1 :: u32)
          | None \<Rightarrow> (0, 1));
          (n, d) = (if n = 0 \<or> d = 0 then (30, 1) else (n, d));
          dur = 90000 * ucast d div ucast n :: u64
      in if dur = 0 then 3000 else dur)"

definition ensure_writer_initialized :: "env \<Rightarrow> VideoRecorder \<Rightarrow> ptr \<times> ptr \<Rightarrow> (bool \<times> VideoRecorder) io" where
  "ensure_writer_initialized E rec sample =
     (if vr_writer_initialized rec \<or> vr_mux rec = 0 then ret (vr_writer_initialized rec, rec)
      else do {
        caps \<leftarrow> (if fst sample \<noteq> 0 then gst_sample_get_caps E (fst sample) else ret None);
        let width = (case caps of Some (w, _) \<Rightarrow> positive_dim w | None \<Rightarrow> 0);
        let height = (case caps of Some (_, h, _) \<Rightarrow> positive_dim h | None \<Rightarrow> 0);
        let rate = (case caps of Some (_, _, f) \<Rightarrow> f | None \<Rightarrow> None);
        let rec = rec\<lparr>vr_default_duration_90k := default_duration rate\<rparr>;
        emit (Mp4 (EvWriterInit (vr_mux rec) width height));
        run \<leftarrow> ask (\<lambda>t. e_writer_init (mp4 E) t (vr_mux rec));
        (r, rec) \<leftarrow> run_mux E run rec;
        emit (Mp4 (EvWriterReady (vr_mux rec) r));
        if r \<noteq> 0 then ret (False, rec\<lparr>vr_failed := True\<rparr>)
        else ret (True, rec\<lparr>vr_writer_initialized := True, vr_width := width, vr_height := height\<rparr>)
      })"

definition MP4E_STATUS_BAD_ARGUMENTS :: int where "MP4E_STATUS_BAD_ARGUMENTS = -1"

definition INT_MAX :: nat where "INT_MAX = 2147483647"

definition emit_pending :: "env \<Rightarrow> VideoRecorder \<Rightarrow> u32 \<Rightarrow> VideoRecorder io" where
  "emit_pending E rec dur =
     (if \<not> pend_valid (vr_pending rec) then ret rec
      else if vr_failed rec \<or> \<not> vr_writer_initialized rec \<or> vr_mux rec = 0 then pending_reset rec
      else if pend_buffer (vr_pending rec) = 0 then pending_reset rec
      else do {
        let buf = pend_buffer (vr_pending rec);
        sz \<leftarrow> gst_buffer_get_size E buf;
        if sz = 0 then pending_reset rec
        else if INT_MAX < sz then pending_reset rec
        else do {
          m \<leftarrow> gst_buffer_map E buf;
          case m of
            None \<Rightarrow> pending_reset rec
          | Some bytes \<Rightarrow> do {
              let copy_size = min (length bytes) sz;
              emit (Mp4 (EvWriteNal (vr_mux rec) (take copy_size bytes) dur));
              run \<leftarrow> ask (\<lambda>t. e_write_nal (mp4 E) t (vr_mux rec));
              (err, rec) \<leftarrow> run_mux E run rec;
              gst_buffer_unmap buf;
              rec \<leftarrow> (if err = MP4E_STATUS_BAD_ARGUMENTS then ret (rec\<lparr>vr_awaiting_sync_warning := True\<rparr>)
                else if err \<noteq> 0 then ret (rec\<lparr>vr_failed := True\<rparr>)
                else do {
                  g_mutex_lock StatsLock;
                  let rec = rec\<lparr>vr_awaiting_sync_warning := False,
                    vr_total_duration_90k := vr_total_duration_90k rec + ucast dur\<rparr>;
                  g_mutex_unlock StatsLock;
                  ret rec
                });
              pending_reset rec
            }
        }
      })"

section \<open>Opening\<close>

definition EEXIST :: int where "EEXIST = 17"

text \<open>\<open>sequential\_mode\_flag\<close> and \<open>enable\_fragmentation\<close> of a mode.\<close>

fun mode_flags :: "RecordMode \<Rightarrow> bool \<times> bool" where
  "mode_flags RECORD_MODE_STANDARD = (False, False)"
| "mode_flags RECORD_MODE_FRAGMENTED = (True, True)"
| "mode_flags RECORD_MODE_SEQUENTIAL = (True, False)"

definition new_recorder :: "RecordCfg \<Rightarrow> string \<Rightarrow> int \<Rightarrow> VideoRecorder" where
  "new_recorder cfg path now =
     \<lparr>vr_enabled = True, vr_failed = False, vr_fp = 0, vr_mux = 0, vr_writer_initialized = False,
      vr_width = 0, vr_height = 0, vr_default_duration_90k = 3000, vr_last_duration_90k = 0,
      vr_output_path = Some path, vr_mode = mode cfg,
      vr_sequential_mode_flag = fst (mode_flags (mode cfg)),
      vr_enable_fragmentation = snd (mode_flags (mode cfg)),
      vr_pending = zero_pending, vr_awaiting_sync_warning = False, vr_bytes_written = 0,
      vr_total_duration_90k = 0, vr_start_time_ns = word_of_int now * 1000\<rparr>"

definition video_recorder_new :: "env \<Rightarrow> RecordCfg option \<Rightarrow> VideoRecorder option io" where
  "video_recorder_new E cfg =
     (case cfg of
        None \<Rightarrow> ret None
      | Some cfg \<Rightarrow>
          if enable cfg = 0 then ret None
          else do {
            path \<leftarrow> build_timestamped_output_path E (Some (output_path cfg));
            emit (Sys (EvAlloc OutputPath True));
            let dir = e_dirname (mp4 E) path;
            made \<leftarrow> (if dir \<noteq> [] \<and> dir \<noteq> ''.'' then do {
                       (r, err) \<leftarrow> g_mkdir_with_parents E dir 493;
                       ret (r = 0 \<or> err = EEXIST)
                     } else ret True);
            if \<not> made then do { g_free OutputPath; ret None }
            else do {
              ok \<leftarrow> g_alloc E VideoRecorderObj;
              if \<not> ok then do { g_free OutputPath; ret None }
              else do {
                g_mutex_init StatsLock;
                now \<leftarrow> g_get_monotonic_time E;
                let rec = new_recorder cfg path now;
                fp \<leftarrow> sys_fopen E path;
                if fp = 0 then do { g_free OutputPath; g_free VideoRecorderObj; ret None }
                else do {
                  let rec = rec\<lparr>vr_fp := fp\<rparr>;
                  emit (Mp4 (EvMuxOpen (vr_sequential_mode_flag rec) (vr_enable_fragmentation rec)));
                  run \<leftarrow> ask (\<lambda>t. e_mux_open (mp4 E) t (vr_sequential_mode_flag rec) (vr_enable_fragmentation rec));
                  (m, rec) \<leftarrow> run_mux E run rec;
                  emit (Mp4 (EvMuxOpened m));
                  if m = 0 then do {
                    sys_fclose fp;
                    g_free OutputPath;
                    g_mutex_clear StatsLock;
                    g_free VideoRecorderObj;
                    ret None
                  } else ret (Some (rec\<lparr>vr_mux := m\<rparr>))
                }
              }
            }
          })"

section \<open>Recording\<close>

text \<open>The timestamps of the buffer, or of the sample's buffer when there is none: the PTS, else the DTS.\<close>

definition sample_times :: "env \<Rightarrow> ptr \<times> ptr \<Rightarrow> ptr \<Rightarrow> (u64 \<times> u64) io" where
  "sample_times E sample buffer = do {
     let tb = (if buffer = 0 \<and> fst sample \<noteq> 0 then snd sample else buffer);
     if tb = 0 then ret (GST_CLOCK_TIME_NONE, GST_CLOCK_TIME_NONE)
     else do {
       pts \<leftarrow> GST_BUFFER_PTS E tb;
       pts \<leftarrow> (if pts = GST_CLOCK_TIME_NONE then GST_BUFFER_DTS E tb else ret pts);
       dur \<leftarrow> GST_BUFFER_DURATION E tb;
       ret (pts, dur)
     }
   }"

text \<open>The buffer that is held back: a reference on the caller's, or a copy of its bytes; 0 if there is none.\<close>

definition pending_buffer :: "env \<Rightarrow> ptr \<Rightarrow> u8 list option \<Rightarrow> ptr io" where
  "pending_buffer E buffer bytes =
     (if buffer \<noteq> 0 then do { gst_buffer_ref buffer; ret buffer }
      else case bytes of
        None \<Rightarrow> ret 0
      | Some bs \<Rightarrow>
          if bs = [] then ret 0
          else do {
            tmp \<leftarrow> gst_buffer_new_allocate E (length bs);
            if tmp = 0 then ret 0
            else do {
              m \<leftarrow> gst_buffer_map E tmp;
              case m of
                None \<Rightarrow> do { gst_buffer_unref tmp; ret 0 }
              | Some mem \<Rightarrow> do {
                  buffer_fill tmp (memcpy mem bs (length bs));
                  gst_buffer_unmap tmp;
                  gst_buffer_set_size tmp (length bs);
                  ret tmp
                }
            }
          })"

text \<open>
  Once the writer is ready: the unit that was held back gets its duration and goes to the muxer, and
  this one takes its place.
\<close>

definition queue_sample :: "env \<Rightarrow> ptr \<times> ptr \<Rightarrow> ptr \<Rightarrow> u8 list option \<Rightarrow> VideoRecorder \<Rightarrow> VideoRecorder io" where
  "queue_sample E sample buffer bytes rec = do {
     (pts, dur) \<leftarrow> sample_times E sample buffer;
     rec \<leftarrow> (if pend_valid (vr_pending rec) then do {
         let (dur90k, rec) = compute_duration_90k E rec (pend_pts (vr_pending rec)) (pend_duration (vr_pending rec)) pts;
         emit_pending E rec dur90k
       } else ret rec);
     pb \<leftarrow> pending_buffer E buffer bytes;
     if pb = 0 then ret rec
     else ret (rec\<lparr>vr_pending := \<lparr>pend_buffer = pb, pend_pts = pts, pend_duration = dur, pend_valid = True\<rparr>\<rparr>)
   }"

text \<open>\<open>bytes\<close> is \<open>(data, size)\<close>; a NULL \<open>data\<close> is \<open>None\<close>.\<close>

definition handle_sample :: "env \<Rightarrow> ptr \<times> ptr \<Rightarrow> ptr \<Rightarrow> u8 list option \<Rightarrow> VideoRecorder \<Rightarrow> VideoRecorder io" where
  "handle_sample E sample buffer bytes rec =
     (if \<not> vr_enabled rec \<or> vr_failed rec then ret rec
      else if buffer = 0 \<and> (bytes = None \<or> bytes = Some []) then ret rec
      else do {
        (ready, rec) \<leftarrow> ensure_writer_initialized E rec sample;
        if \<not> ready then ret rec else queue_sample E sample buffer bytes rec
      })"

definition video_recorder_handle_sample ::
    "env \<Rightarrow> VideoRecorder option \<Rightarrow> ptr \<times> ptr \<Rightarrow> ptr \<Rightarrow> u8 list option \<Rightarrow> VideoRecorder option io" where
  "video_recorder_handle_sample E r sample buffer bytes =
     (case r of None \<Rightarrow> ret None
      | Some rec \<Rightarrow> do { rec \<leftarrow> handle_sample E sample buffer bytes rec; ret (Some rec) })"

section \<open>Closing and statistics\<close>

definition flush_recorder :: "env \<Rightarrow> VideoRecorder \<Rightarrow> VideoRecorder io" where
  "flush_recorder E rec =
     (if \<not> vr_enabled rec \<or> vr_failed rec then pending_reset rec
      else do {
        rec \<leftarrow> (if pend_valid (vr_pending rec) then do {
            let (dur90k, rec) = compute_duration_90k E rec (pend_pts (vr_pending rec))
              (pend_duration (vr_pending rec)) GST_CLOCK_TIME_NONE;
            emit_pending E rec dur90k
          } else ret rec);
        io_when (vr_fp rec \<noteq> 0) (sys_fflush (vr_fp rec));
        ret rec
      })"

text \<open>\<open>None\<close> is the crash: the guard lets NULL into \<open>pending\_reset(&rec->pending)\<close>, which reads through it.\<close>

definition video_recorder_flush :: "env \<Rightarrow> VideoRecorder option \<Rightarrow> VideoRecorder option io" where
  "video_recorder_flush E r =
     (case r of None \<Rightarrow> ret None | Some rec \<Rightarrow> do { rec \<leftarrow> flush_recorder E rec; ret (Some rec) })"

text \<open>The muxer writes its index while it is closed, so the file is still open then.\<close>

definition close_writer :: "env \<Rightarrow> VideoRecorder \<Rightarrow> VideoRecorder io" where
  "close_writer E rec =
     (if vr_writer_initialized rec then do {
        emit (Mp4 (EvWriterClose (vr_mux rec)));
        run \<leftarrow> ask (\<lambda>t. e_writer_close (mp4 E) t (vr_mux rec));
        (_, rec) \<leftarrow> run_mux E run rec;
        ret rec
      } else ret rec)"

definition close_mux :: "env \<Rightarrow> VideoRecorder \<Rightarrow> VideoRecorder io" where
  "close_mux E rec =
     (if vr_mux rec \<noteq> 0 then do {
        emit (Mp4 (EvMuxClose (vr_mux rec)));
        run \<leftarrow> ask (\<lambda>t. e_mux_close (mp4 E) t (vr_mux rec));
        (_, rec) \<leftarrow> run_mux E run rec;
        ret (rec\<lparr>vr_mux := 0\<rparr>)
      } else ret rec)"

definition close_rest :: "VideoRecorder \<Rightarrow> unit io" where
  "close_rest rec = do {
     io_when (vr_fp rec \<noteq> 0) (sys_fclose (vr_fp rec));
     io_when (vr_output_path rec \<noteq> None) (g_free OutputPath);
     _ \<leftarrow> pending_reset rec;
     g_mutex_clear StatsLock;
     g_free VideoRecorderObj
   }"

definition close_recorder :: "env \<Rightarrow> VideoRecorder \<Rightarrow> unit io" where
  "close_recorder E rec = do {
     rec \<leftarrow> close_writer E rec;
     rec \<leftarrow> close_mux E rec;
     close_rest rec
   }"

definition video_recorder_free :: "env \<Rightarrow> VideoRecorder option \<Rightarrow> unit io" where
  "video_recorder_free E r =
     (case r of
        None \<Rightarrow> ret ()
      | Some rec \<Rightarrow> do {
          rec \<leftarrow> flush_recorder E rec;
          close_recorder E rec
        })"

definition video_recorder_get_stats :: "env \<Rightarrow> VideoRecorder option \<Rightarrow> VideoRecorderStats io" where
  "video_recorder_get_stats E r =
     (case r of
        None \<Rightarrow> ret zero_stats
      | Some rec \<Rightarrow> do {
          g_mutex_lock StatsLock;
          now \<leftarrow> (if vr_start_time_ns rec \<noteq> 0 then g_get_monotonic_time E else ret 0);
          g_mutex_unlock StatsLock;
          let now_ns = (word_of_int now * 1000 :: u64);
          ret \<lparr>vs_active = (vr_enabled rec \<and> \<not> vr_failed rec \<and> vr_fp rec \<noteq> 0 \<and> vr_mux rec \<noteq> 0),
               vs_bytes_written = vr_bytes_written rec,
               vs_elapsed_ns = (if vr_start_time_ns rec \<noteq> 0 \<and> vr_start_time_ns rec < now_ns
                                then now_ns - vr_start_time_ns rec else 0),
               vs_media_duration_ns = gst_util_uint64_scale E (vr_total_duration_90k rec) GST_SECOND 90000,
               vs_output_path = (case vr_output_path rec of Some p \<Rightarrow> take (PATH_MAX - 1) p | None \<Rightarrow> [])\<rparr>
        })"

end
