(* ===== verification/Recorder_Own.thy ===== *)
theory Recorder_Own
  imports Video_Recorder
begin

text \<open>
  What the recorder owns. The locale \<open>mux\_client\<close> is the muxer's interface to its client: whatever tree
  of writes a call makes, what the callback keeps is kept by the call. It is interpreted on
  \<open>recorder\_write\_callback\<close>, for ownership here and for the bytes written in \<open>Recorder\_Properties\<close>.
\<close>

section \<open>The muxer's client\<close>

locale mux_client =
  fixes \<delta> :: "event \<Rightarrow> 'm \<Rightarrow> 'm option"
    and cb :: "int \<Rightarrow> u8 list option \<Rightarrow> 's \<Rightarrow> (int \<times> 's) io"
    and good :: "'s \<Rightarrow> 'm \<Rightarrow> bool"
    and step :: "'s \<times> 'm \<Rightarrow> 's \<times> 'm \<Rightarrow> bool"
  assumes cb_step: "good s m \<Longrightarrow>
      wp \<delta> (cb off buffer s) (\<lambda>x m'. good (snd x) m' \<and> step (s, m) (snd x, m')) m"
    and step_refl: "step p p"
    and step_trans: "step p q \<Longrightarrow> step q r \<Longrightarrow> step p r"
begin

lemma calls_step:
  "good s m \<Longrightarrow> wp \<delta> (mux_calls cb run s)
     (\<lambda>x m'. good (snd x) m' \<and> step (s, m) (snd x, m') \<and> fst x \<in> mux_results run) m"
proof (induction run arbitrary: s m)
  case (MuxRet x)
  then show ?case by (simp add: wp_return step_refl)
next
  case (MuxWrite off buffer k)
  show ?case
    unfolding mux_calls.simps
    by (rule wp_bind, rule wp_mono [OF cb_step [OF MuxWrite.prems]])
      (auto intro!: wp_mono [OF MuxWrite.IH] intro: step_trans)
qed

lemma calls_wp:
  assumes "good s m"
    and "\<And>x s' m'. good s' m' \<Longrightarrow> step (s, m) (s', m') \<Longrightarrow> x \<in> mux_results run \<Longrightarrow> Q (x, s') m'"
  shows "wp \<delta> (mux_calls cb run s) Q m"
  by (rule wp_mono [OF calls_step [OF assms(1)]]) (use assms(2) in auto)

end

section \<open>Ownership\<close>

text \<open>A callback changes the byte count only, and owns what it owned.\<close>

definition counts_bytes :: "VideoRecorder \<Rightarrow> VideoRecorder \<Rightarrow> bool" where
  "counts_bytes rec rec' \<longleftrightarrow> (\<exists>n. rec' = rec\<lparr>vr_bytes_written := n\<rparr>)"

lemma counts_bytesD:
  assumes "counts_bytes rec rec'"
  shows "vr_fp rec' = vr_fp rec" "vr_mux rec' = vr_mux rec" "vr_pending rec' = vr_pending rec"
    "vr_failed rec' = vr_failed rec" "vr_enabled rec' = vr_enabled rec"
    "vr_writer_initialized rec' = vr_writer_initialized rec" "vr_output_path rec' = vr_output_path rec"
  using assms by (auto simp: counts_bytes_def)

lemma counts_bytes_refl [simp]: "counts_bytes rec rec"
  unfolding counts_bytes_def by (rule exI [of _ "vr_bytes_written rec"]) simp

lemma counts_bytes_trans: "counts_bytes a b \<Longrightarrow> counts_bytes b c \<Longrightarrow> counts_bytes a c"
  by (auto simp: counts_bytes_def)

definition can_write :: "VideoRecorder \<Rightarrow> resource multiset \<Rightarrow> bool" where
  "can_write rec M \<longleftrightarrow> Mutex StatsLock \<in># M \<and> (vr_fp rec \<noteq> 0 \<longrightarrow> File (vr_fp rec) \<in># M)"

lemma callback_own:
  assumes "can_write rec M"
  shows "wp own (recorder_write_callback E off buffer rec)
     (\<lambda>x M'. can_write (snd x) M' \<and> M' = M \<and> counts_bytes rec (snd x)) M"
  using assms unfolding recorder_write_callback_def
  by (intro wp_intros; simp add: own_simps can_write_def; auto simp: counts_bytes_def)

interpretation mux_own: mux_client own "recorder_write_callback E" can_write
    "\<lambda>(rec, M) (rec', M'). M' = M \<and> counts_bytes rec rec'" for E
proof unfold_locales
  fix s :: VideoRecorder and m off buffer
  assume "can_write s m"
  then show "wp own (recorder_write_callback E off buffer s)
      (\<lambda>x m'. can_write (snd x) m' \<and> (case (s, m) of (rec, M) \<Rightarrow> \<lambda>(rec', M'). M' = M \<and> counts_bytes rec rec')
        (snd x, m')) m"
    using callback_own by simp
qed (auto intro: counts_bytes_trans)

lemmas run_mux_own = mux_own.calls_wp

text \<open>What a recorder owns between the calls of its client, and its invariant.\<close>

definition vr_owned :: "VideoRecorder \<Rightarrow> resource multiset" where
  "vr_owned rec = {#Heap VideoRecorderObj, Mutex StatsLock#}
     + (if vr_output_path rec = None then {#} else {#Heap OutputPath#})
     + ptr_res File (vr_fp rec) + ptr_res Mux (vr_mux rec)
     + (if vr_writer_initialized rec then {#Writer (vr_mux rec)#} else {#})
     + ptr_res Buf (pend_buffer (vr_pending rec))"

definition vr_inv :: "VideoRecorder \<Rightarrow> bool" where
  "vr_inv rec \<longleftrightarrow> vr_fp rec \<noteq> 0 \<and> vr_mux rec \<noteq> 0 \<and> vr_output_path rec \<noteq> None
     \<and> (pend_valid (vr_pending rec) \<longleftrightarrow> pend_buffer (vr_pending rec) \<noteq> 0)"

lemmas vr_defs = vr_owned_def vr_inv_def zero_pending_def

lemma pending_reset_own:
  "wp own (pending_reset rec) (\<lambda>rec' M'. M' = M + {#} \<and> rec' = rec\<lparr>vr_pending := zero_pending\<rparr>)
     (M + ptr_res Buf (pend_buffer (vr_pending rec)))"
  unfolding pending_reset_def by (intro wp_intros) (simp_all add: own_simps)

lemma emit_pending_own:
  assumes "vr_inv rec"
  shows "wp own (emit_pending E rec dur)
     (\<lambda>rec' M'. M' = M + vr_owned rec' \<and> vr_inv rec' \<and> \<not> pend_valid (vr_pending rec')) (M + vr_owned rec)"
  using assms unfolding emit_pending_def Let_def
  by (intro wp_intros run_mux_own wp_own_frame [OF pending_reset_own];
      clarsimp simp: own_simps vr_defs can_write_def counts_bytes_def)

lemma ensure_writer_own:
  assumes "vr_inv rec"
  shows "wp own (ensure_writer_initialized E rec sample)
     (\<lambda>x M'. M' = M + vr_owned (snd x) \<and> vr_inv (snd x)) (M + vr_owned rec)"
  using assms unfolding ensure_writer_initialized_def Let_def
  by (intro wp_intros run_mux_own; clarsimp simp: own_simps vr_defs can_write_def counts_bytes_def)

lemma compute_duration_keeps:
  "compute_duration_90k E rec a b c = (d, rec') \<Longrightarrow> vr_owned rec' = vr_owned rec \<and> vr_inv rec' = vr_inv rec
     \<and> vr_pending rec' = vr_pending rec"
  by (auto simp: compute_duration_90k_def Let_def vr_defs)

lemma sample_times_wp: "(\<And>x. Q x M) \<Longrightarrow> wp \<delta> (sample_times E sample buffer) Q M"
  unfolding sample_times_def Let_def by (intro wp_intros)

text \<open>The caller's buffer is referenced, so it must be alive.\<close>

lemma pending_buffer_own:
  assumes "buffer \<noteq> 0 \<Longrightarrow> Buf buffer \<in># M"
  shows "wp own (pending_buffer E buffer bytes) (\<lambda>pb M'. M' = M + ptr_res Buf pb) M"
  using assms unfolding pending_buffer_def
  by (cases bytes; simp; intro conjI impI wp_intros; simp add: own_simps)

lemma emit_next_own:
  assumes "vr_inv rec"
  shows "wp own (if pend_valid (vr_pending rec) then do {
        let (d, rec') = compute_duration_90k E rec (pend_pts (vr_pending rec)) (pend_duration (vr_pending rec)) next;
        emit_pending E rec' d } else ret rec)
     (\<lambda>rec' M'. M' = M + vr_owned rec' \<and> vr_inv rec' \<and> \<not> pend_valid (vr_pending rec')) (M + vr_owned rec)"
proof (cases "pend_valid (vr_pending rec)")
  case True
  obtain d rec' where c: "compute_duration_90k E rec (pend_pts (vr_pending rec))
      (pend_duration (vr_pending rec)) next = (d, rec')" by (cases "compute_duration_90k E rec
      (pend_pts (vr_pending rec)) (pend_duration (vr_pending rec)) next")
  show ?thesis
    using True emit_pending_own [of rec' E d M] compute_duration_keeps [OF c] assms by (simp add: c)
qed (simp add: wp_return assms)

lemma set_pending_owned:
  assumes "vr_inv rec" and "\<not> pend_valid (vr_pending rec)" and "pb \<noteq> 0"
  shows "add_mset (Buf pb) (vr_owned rec)
       = vr_owned (rec\<lparr>vr_pending := \<lparr>pend_buffer = pb, pend_pts = a, pend_duration = b, pend_valid = True\<rparr>\<rparr>)"
    and "vr_inv (rec\<lparr>vr_pending := \<lparr>pend_buffer = pb, pend_pts = a, pend_duration = b, pend_valid = True\<rparr>\<rparr>)"
  using assms by (simp_all add: vr_defs ptr_res_def)

lemma queue_sample_own:
  assumes "vr_inv rec" and "buffer \<noteq> 0 \<Longrightarrow> Buf buffer \<in># M"
  shows "wp own (queue_sample E sample buffer bytes rec)
     (\<lambda>rec' M'. M' = M + vr_owned rec' \<and> vr_inv rec') (M + vr_owned rec)"
  unfolding queue_sample_def
  apply (intro wp_bind sample_times_wp wp_case_prod)
  apply (rule wp_mono [OF emit_next_own [OF assms(1)]])
  apply (rule wp_bind, rule wp_mono [OF pending_buffer_own])
  using assms(2) apply simp
  by (auto intro!: wp_return simp: set_pending_owned [simplified] ptr_res_def)

lemma handle_sample_own:
  assumes "vr_inv rec" and "buffer \<noteq> 0 \<Longrightarrow> Buf buffer \<in># M"
  shows "wp own (handle_sample E sample buffer bytes rec)
     (\<lambda>rec' M'. M' = M + vr_owned rec' \<and> vr_inv rec') (M + vr_owned rec)"
  unfolding handle_sample_def
  by (intro wp_intros wp_own_frame [OF ensure_writer_own [OF assms(1)]])
    (auto intro!: queue_sample_own simp: assms)

lemma flush_recorder_own:
  assumes "vr_inv rec"
  shows "wp own (flush_recorder E rec)
     (\<lambda>rec' M'. M' = M + vr_owned rec' \<and> vr_inv rec' \<and> \<not> pend_valid (vr_pending rec')) (M + vr_owned rec)"
  using assms unfolding flush_recorder_def
  by (intro wp_intros wp_own_frame [OF pending_reset_own] wp_own_frame [OF emit_next_own [OF assms]])
    (auto simp: own_simps vr_defs)

text \<open>Closing: the writer goes, then the muxer, then the rest.\<close>

definition open_files :: "VideoRecorder \<Rightarrow> resource multiset" where
  "open_files rec = {#Mutex StatsLock#} + ptr_res File (vr_fp rec)"

lemma close_writer_own:
  "wp own (close_writer E rec)
     (\<lambda>rec' M'. M' = M + (open_files rec' + ptr_res Mux (vr_mux rec')) \<and> counts_bytes rec rec')
     (M + (open_files rec + ptr_res Mux (vr_mux rec) + (if vr_writer_initialized rec then {#Writer (vr_mux rec)#} else {#})))"
  if "vr_mux rec \<noteq> 0"
  using that unfolding close_writer_def
  by (intro wp_intros run_mux_own; clarsimp simp: own_simps open_files_def can_write_def counts_bytes_def)

lemma counts_bytes_closed:
  "counts_bytes rec rec' \<Longrightarrow> counts_bytes (rec\<lparr>vr_mux := 0\<rparr>) (rec'\<lparr>vr_mux := 0\<rparr>)"
  unfolding counts_bytes_def by (cases rec; cases rec') (auto intro: exI [of _ "vr_bytes_written rec'"])

lemma close_mux_own:
  "wp own (close_mux E rec) (\<lambda>rec' M'. M' = M + open_files rec' \<and> counts_bytes (rec\<lparr>vr_mux := 0\<rparr>) rec')
     (M + (open_files rec + ptr_res Mux (vr_mux rec)))"
  if "vr_mux rec \<noteq> 0"
  using that unfolding close_mux_def
  by (intro wp_intros run_mux_own;
    simp add: own_simps open_files_def can_write_def counts_bytes_closed counts_bytesD)

definition rest_owned :: "VideoRecorder \<Rightarrow> resource multiset" where
  "rest_owned rec = {#Heap VideoRecorderObj, Heap OutputPath#} + ptr_res Buf (pend_buffer (vr_pending rec))"

lemma close_rest_own:
  "wp own (close_rest rec) (\<lambda>_ M'. M' = M + {#} \<and> True) (M + (open_files rec + rest_owned rec))"
  if "vr_fp rec \<noteq> 0" and "vr_output_path rec \<noteq> None"
  using that unfolding close_rest_def
  by (intro wp_intros wp_own_frame [OF pending_reset_own]; simp add: own_simps open_files_def rest_owned_def)

lemma vr_owned_split:
  "vr_inv rec \<Longrightarrow> vr_owned rec = open_files rec + ptr_res Mux (vr_mux rec)
     + (if vr_writer_initialized rec then {#Writer (vr_mux rec)#} else {#}) + rest_owned rec"
  by (simp add: vr_owned_def vr_inv_def open_files_def rest_owned_def)

lemma close_recorder_own:
  assumes "vr_inv rec"
  shows "wp own (close_recorder E rec) (\<lambda>_ M'. M' = M) (M + vr_owned rec)"
  unfolding vr_owned_split [OF assms] close_recorder_def
  using assms unfolding vr_inv_def
  by (intro wp_intros wp_own_frame [OF close_writer_own] wp_own_frame [OF close_mux_own]
      wp_own_frame [OF close_rest_own];
    auto simp: counts_bytes_def rest_owned_def)

definition rec_owned :: "VideoRecorder option \<Rightarrow> resource multiset" where
  "rec_owned r = (case r of None \<Rightarrow> {#} | Some rec \<Rightarrow> vr_owned rec)"

definition rec_inv :: "VideoRecorder option \<Rightarrow> bool" where
  "rec_inv r \<longleftrightarrow> (case r of None \<Rightarrow> True | Some rec \<Rightarrow> vr_inv rec)"

lemma video_recorder_free_own:
  assumes "rec_inv r"
  shows "wp own (video_recorder_free E r) (\<lambda>_ M'. M' = M) (M + rec_owned r)"
  using assms unfolding video_recorder_free_def rec_inv_def rec_owned_def
  by (intro wp_case_option wp_return wp_bind wp_own_frame [OF flush_recorder_own])
    (auto intro: close_recorder_own)

lemma timestamp_wp: "(\<And>x. Q x M) \<Longrightarrow> wp \<delta> (recorder_timestamp_string E) Q M"
  unfolding recorder_timestamp_string_def by (intro wp_intros)

lemma looks_like_directory_wp: "(\<And>x. Q x M) \<Longrightarrow> wp \<delta> (path_looks_like_directory E p) Q M"
  unfolding path_looks_like_directory_def by (intro wp_intros)

lemma output_path_wp: "(\<And>x. Q x M) \<Longrightarrow> wp \<delta> (build_timestamped_output_path E p) Q M"
  unfolding build_timestamped_output_path_def by (intro wp_intros timestamp_wp looks_like_directory_wp)

text \<open>The one path that leaves something: a file that cannot be opened leaves the lock initialised.\<close>

lemma video_recorder_new_own:
  "wp own (video_recorder_new E cfg)
     (\<lambda>r M'. rec_inv r \<and> (M' = M + rec_owned r \<or> (r = None \<and> M' = M + {#Mutex StatsLock#}))) M"
  unfolding video_recorder_new_def
  by (intro wp_intros output_path_wp run_mux_own;
      clarsimp simp: own_simps rec_owned_def rec_inv_def new_recorder_def vr_defs can_write_def counts_bytes_def)

end
