(* ===== verification/Recorder_Properties.thy ===== *)
theory Recorder_Properties
  imports Recorder_Own
begin

text \<open>
  The properties of the recorder: its life cycle, the byte count it reports, the durations it gives
  and the order in which access units reach the muxer.
\<close>

section \<open>Life cycle\<close>

text \<open>A client that hands over units of a sample, a buffer and bytes.\<close>

fun handle_all :: "env \<Rightarrow> ((ptr \<times> ptr) \<times> ptr \<times> u8 list option) list \<Rightarrow> VideoRecorder option \<Rightarrow> VideoRecorder option io" where
  "handle_all E [] r = ret r"
| "handle_all E ((sample, buffer, bytes) # us) r = do {
     r \<leftarrow> video_recorder_handle_sample E r sample buffer bytes;
     handle_all E us r
   }"

lemma video_recorder_handle_sample_own:
  assumes "rec_inv r" and "buffer \<noteq> 0 \<Longrightarrow> Buf buffer \<in># M"
  shows "wp own (video_recorder_handle_sample E r sample buffer bytes)
     (\<lambda>r' M'. M' = M + rec_owned r' \<and> rec_inv r' \<and> (r' = None \<longleftrightarrow> r = None)) (M + rec_owned r)"
proof (cases r)
  case (Some rec)
  then show ?thesis
    using assms unfolding video_recorder_handle_sample_def
    by (auto intro!: wp_bind wp_return wp_mono [OF handle_sample_own] simp: rec_inv_def rec_owned_def)
qed (simp add: video_recorder_handle_sample_def wp_return rec_owned_def rec_inv_def)

lemma handle_all_own:
  assumes "\<forall>(s, b, d) \<in> set us. b \<noteq> 0 \<longrightarrow> Buf b \<in># M" and "rec_inv r"
  shows "wp own (handle_all E us r)
     (\<lambda>r' M'. M' = M + rec_owned r' \<and> rec_inv r' \<and> (r' = None \<longleftrightarrow> r = None)) (M + rec_owned r)"
  using assms
proof (induction us arbitrary: r)
  case Nil
  then show ?case by (simp add: wp_return)
next
  case (Cons u us)
  obtain s b d where u: "u = (s, b, d)" by (cases u)
  show ?case
    unfolding u handle_all.simps
    by (rule wp_bind, rule wp_mono [OF video_recorder_handle_sample_own])
      (use Cons.prems u in \<open>auto intro!: wp_mono [OF Cons.IH]\<close>)
qed



section \<open>Bytes written\<close>

text \<open>The bytes of the writes that were complete.\<close>

fun tally :: "event \<Rightarrow> nat \<Rightarrow> nat" where
  "tally (Mp4 (EvFwrite fp bytes n)) k = (if n = length bytes then k + n else k)"
| "tally _ k = k"

definition counted :: "VideoRecorder \<Rightarrow> nat \<Rightarrow> bool" where
  "counted rec n \<longleftrightarrow> vr_bytes_written rec = of_nat n"

lemma callback_counted:
  "counted rec n \<Longrightarrow> wp (observe tally) (recorder_write_callback E off buffer rec) (\<lambda>x n. counted (snd x) n) n"
  unfolding recorder_write_callback_def counted_def
  by (intro wp_intros observe_intros) auto

interpretation mux_count: mux_client "observe tally" "recorder_write_callback E" counted "\<lambda>_ _. True" for E
  by unfold_locales (auto intro: callback_counted)

lemmas count_intros = wp_intros observe_intros mux_count.calls_wp

lemma pending_reset_counted: "counted rec n \<Longrightarrow> wp (observe tally) (pending_reset rec) counted n"
  unfolding pending_reset_def by (intro count_intros; simp add: counted_def)

lemma emit_pending_counted: "counted rec n \<Longrightarrow> wp (observe tally) (emit_pending E rec dur) counted n"
  unfolding emit_pending_def Let_def
  by (intro count_intros pending_reset_counted; simp add: counted_def)

lemma ensure_writer_counted:
  "counted rec n \<Longrightarrow> wp (observe tally) (ensure_writer_initialized E rec sample) (\<lambda>x n. counted (snd x) n) n"
  unfolding ensure_writer_initialized_def Let_def
  by (intro count_intros; simp add: counted_def)

lemma compute_duration_bytes:
  "compute_duration_90k E rec a b c = (d, rec') \<Longrightarrow> vr_bytes_written rec' = vr_bytes_written rec"
  by (auto simp: compute_duration_90k_def Let_def)

lemma queue_sample_counted:
  "counted rec n \<Longrightarrow> wp (observe tally) (queue_sample E sample buffer bytes rec) counted n"
  unfolding queue_sample_def sample_times_def pending_buffer_def Let_def
  by (intro count_intros wp_mono [OF emit_pending_counted]; auto simp: counted_def dest: compute_duration_bytes)

lemma handle_sample_counted:
  "counted rec n \<Longrightarrow> wp (observe tally) (handle_sample E sample buffer bytes rec) counted n"
  unfolding handle_sample_def
  by (intro count_intros wp_mono [OF ensure_writer_counted] queue_sample_counted) auto

definition opt_counted :: "VideoRecorder option \<Rightarrow> nat \<Rightarrow> bool" where
  "opt_counted r n \<longleftrightarrow> (case r of None \<Rightarrow> True | Some rec \<Rightarrow> counted rec n)"

lemma video_recorder_new_counted:
  "wp (observe tally) (video_recorder_new E cfg) opt_counted 0"
  unfolding video_recorder_new_def Let_def
  by (intro count_intros output_path_wp; simp add: opt_counted_def counted_def new_recorder_def)

lemma handle_all_counted: "opt_counted r n \<Longrightarrow> wp (observe tally) (handle_all E us r) opt_counted n"
proof (induction us arbitrary: r n)
  case (Cons u us)
  obtain s b d where u: "u = (s, b, d)" by (cases u)
  show ?case
    using Cons.prems unfolding u handle_all.simps video_recorder_handle_sample_def
    by (intro count_intros wp_mono [OF handle_sample_counted] Cons.IH) (auto simp: opt_counted_def)
qed (simp add: wp_return)

text \<open>
  C30. The byte count a recorder reports is, modulo \<open>2^64\<close>, the number of bytes of all the writes that
  its file has taken completely, in whichever calls of the muxer they were made.
\<close>

theorem recorder_counts_bytes:
  "wp (observe tally) (do { r \<leftarrow> video_recorder_new E cfg; r \<leftarrow> handle_all E us r;
       st \<leftarrow> video_recorder_get_stats E r; ret (r, st) })
     (\<lambda>(r, st) n. r = None \<or> vs_bytes_written st = of_nat n) 0"
proof (rule wp_bind, rule wp_mono [OF video_recorder_new_counted], rule wp_bind,
    erule wp_mono [OF handle_all_counted])
  fix r n
  assume "opt_counted r n"
  then show "wp (observe tally) (State_Monad.bind (video_recorder_get_stats E r) (\<lambda>st. ret (r, st)))
      (\<lambda>(r, st) n. r = None \<or> vs_bytes_written st = of_nat n) n"
    unfolding video_recorder_get_stats_def Let_def
    by (intro count_intros) (auto simp: opt_counted_def counted_def)
qed

section \<open>Durations\<close>

text \<open>
  C39. The duration of an access unit is never zero and fits the muxer's 32 bits: it is the value
  the recorder keeps as its last one, capped at \<open>2^32 - 1\<close>. That value is the buffer's own duration in
  90 kHz ticks, else the distance to the next timestamp; when that is 0 or unknown it is the last
  one used, else the stream's default, else 3000. Nothing else of the recorder changes.
\<close>

theorem compute_duration_bounds:
  "let known = (if dur \<noteq> GST_CLOCK_TIME_NONE then gst_time_to_90k E dur
                else if pts \<noteq> GST_CLOCK_TIME_NONE \<and> npts \<noteq> GST_CLOCK_TIME_NONE \<and> pts < npts
                then gst_time_to_90k E (npts - pts) else 0);
       (d, rec') = compute_duration_90k E rec pts dur npts
   in 1 \<le> unat d \<and> unat d = min (unat (vr_last_duration_90k rec')) (2 ^ 32 - 1)
    \<and> Some (vr_last_duration_90k rec') = find (\<lambda>v. v \<noteq> 0)
        [known, vr_last_duration_90k rec, vr_default_duration_90k rec, 3000]
    \<and> rec' = rec\<lparr>vr_last_duration_90k := vr_last_duration_90k rec'\<rparr>"
proof -
  have cap: "unat (ucast (if 0xFFFFFFFF < v then 0xFFFFFFFF else v) :: u32) = min (unat v) (2 ^ 32 - 1)"
    for v :: u64
  proof (cases "0xFFFFFFFF < v")
    case True
    then have "0xFFFFFFFF < unat v" by (simp add: word_less_nat_alt)
    then show ?thesis using True by simp
  next
    case False
    then have "unat v \<le> 0xFFFFFFFF" by (simp add: word_less_nat_alt not_less)
    then show ?thesis using False by (simp add: unsigned_ucast_eq take_bit_nat_eq_self)
  qed
  have pos: "Suc 0 \<le> unat v" if "v \<noteq> 0" for v :: u64
    using that by (simp add: Suc_le_eq unat_gt_0)
  show ?thesis
    by (auto simp: compute_duration_90k_def Let_def cap pos)
qed

section \<open>Names\<close>

lemma strrchr_at_append: "c \<notin> set ys \<Longrightarrow> strrchr_at c (xs @ c # ys) = Some (length xs)"
proof (induction xs)
  case Nil
  then have "strrchr_at c ys = None" by (induction ys) auto
  then show ?case by simp
qed simp

lemma strrchr_at_None: "strrchr_at c s = None \<longleftrightarrow> c \<notin> set s"
  by (induction s) (auto split: option.splits)

lemma strrchr_at_less: "strrchr_at c s = Some n \<Longrightarrow> n < length s"
  by (induction s arbitrary: n) (auto split: option.splits if_splits)

text \<open>
  C40. The stamp is put before the last extension of the file name, a name without one (or one that is
  only a leading dot) gets \<open>.mp4\<close>; and different stamps give different files, equal stamps the same
  file, which is opened again.
\<close>

theorem stamped_name_spec:
  "(stem \<noteq> [] \<and> CHR ''.'' \<notin> set sfx \<longrightarrow>
      stamped_name (stem @ ''.'' @ sfx) stamp = stem @ ''-'' @ stamp @ ''.'' @ sfx)
   \<and> (CHR ''.'' \<notin> set base \<longrightarrow> stamped_name base stamp = base @ ''-'' @ stamp @ ''.mp4'')
   \<and> (stamped_name name stamp = stamped_name name stamp' \<longleftrightarrow> stamp = stamp')"
proof (intro conjI impI)
  assume "stem \<noteq> [] \<and> CHR ''.'' \<notin> set sfx"
  then show "stamped_name (stem @ ''.'' @ sfx) stamp = stem @ ''-'' @ stamp @ ''.'' @ sfx"
    by (simp add: stamped_name_def strrchr_at_append)
next
  assume "CHR ''.'' \<notin> set base"
  then have "strrchr_at (CHR ''.'') base = None" by (simp add: strrchr_at_None)
  then show "stamped_name base stamp = base @ ''-'' @ stamp @ ''.mp4''" by (simp add: stamped_name_def)
next
  show "stamped_name name stamp = stamped_name name stamp' \<longleftrightarrow> stamp = stamp'"
    by (auto simp: stamped_name_def split: option.splits if_splits)
qed

theorem stamped_name_spec_witness:
  "stamped_name ''trip.1.mkv'' ''20250101-120000'' = ''trip.1-20250101-120000.mkv''"
  using stamped_name_spec [of "''trip.1''" "''mkv''" "''20250101-120000''"] by simp

end
