(* ===== verification/Recorder_Order.thy ===== *)
theory Recorder_Order
  imports Recorder_Properties
begin

text \<open>
  The one-unit delay of the recorder refines writing each unit with its own duration: \<open>paced\<close> is that
  list, computed from the units alone.
\<close>

section \<open>The specification\<close>

record access_unit =
  au_buf :: ptr
  au_pts :: u64
  au_dur :: u64
  au_bytes :: "u8 list"

definition unit_ticks :: "env \<Rightarrow> u64 \<Rightarrow> u64 \<Rightarrow> access_unit \<Rightarrow> u64 \<Rightarrow> u64" where
  "unit_ticks E prev dflt u npts =
     (let known = (if au_dur u \<noteq> GST_CLOCK_TIME_NONE then gst_time_to_90k E (au_dur u)
                   else if au_pts u \<noteq> GST_CLOCK_TIME_NONE \<and> npts \<noteq> GST_CLOCK_TIME_NONE \<and> au_pts u < npts
                   then gst_time_to_90k E (npts - au_pts u) else 0)
      in the (find (\<lambda>v. v \<noteq> 0) [known, prev, dflt, 3000]))"

definition cap32 :: "u64 \<Rightarrow> u32" where
  "cap32 v = word_of_nat (min (unat v) (2 ^ 32 - 1))"

fun paced :: "env \<Rightarrow> u64 \<Rightarrow> u64 \<Rightarrow> access_unit list \<Rightarrow> (u8 list \<times> u32) list" where
  "paced E prev dflt [] = []"
| "paced E prev dflt (u # us) =
     (let d = unit_ticks E prev dflt u (case us of [] \<Rightarrow> GST_CLOCK_TIME_NONE | v # _ \<Rightarrow> au_pts v)
      in (au_bytes u, cap32 d) # paced E d dflt us)"

lemma compute_duration_ticks:
  "compute_duration_90k E rec (au_pts u) (au_dur u) npts =
     (let d = unit_ticks E (vr_last_duration_90k rec) (vr_default_duration_90k rec) u npts
      in (cap32 d, rec\<lparr>vr_last_duration_90k := d\<rparr>))"
proof -
  have cap: "ucast (if 0xFFFFFFFF < v then 0xFFFFFFFF else v) = cap32 v" for v :: u64
  proof (cases "0xFFFFFFFF < v")
    case True
    then have "0xFFFFFFFF < unat v" by (simp add: word_less_nat_alt)
    then show ?thesis using True by (simp add: cap32_def)
  next
    case False
    then have "unat v \<le> 0xFFFFFFFF" by (simp add: word_less_nat_alt not_less)
    then show ?thesis using False by (simp add: cap32_def min_absorb1)
  qed
  show ?thesis
    by (auto simp: compute_duration_90k_def unit_ticks_def Let_def cap)
qed

section \<open>The refinement\<close>

text \<open>The access units handed to the muxer, oldest first.\<close>

fun nals :: "event \<Rightarrow> (u8 list \<times> u32) list \<Rightarrow> (u8 list \<times> u32) list" where
  "nals (Mp4 (EvWriteNal m bytes dur)) ns = ns @ [(bytes, dur)]"
| "nals _ ns = ns"

lemma callback_nals:
  "wp (observe nals) (recorder_write_callback E off buffer rec) (\<lambda>x ns'. ns' = ns \<and> counts_bytes rec (snd x)) ns"
  unfolding recorder_write_callback_def
  by (intro wp_intros observe_intros; simp; simp add: counts_bytes_def; blast)

interpretation mux_nals: mux_client "observe nals" "recorder_write_callback E" "\<lambda>_ _. True"
    "\<lambda>(rec, ns) (rec', ns'). ns' = ns \<and> counts_bytes rec rec'" for E
proof unfold_locales
  fix s :: VideoRecorder and m off buffer
  show "wp (observe nals) (recorder_write_callback E off buffer s)
      (\<lambda>x m'. True \<and> (case (s, m) of (rec, ns) \<Rightarrow> \<lambda>(rec', ns'). ns' = ns \<and> counts_bytes rec rec')
        (snd x, m')) m"
    using callback_nals by simp
qed (auto intro: counts_bytes_trans)

text \<open>What GStreamer answers about a unit's buffer, and a muxer that takes every unit.\<close>

definition shows_unit :: "env \<Rightarrow> access_unit \<Rightarrow> bool" where
  "shows_unit E u \<longleftrightarrow> au_buf u \<noteq> 0 \<and> 0 < length (au_bytes u) \<and> length (au_bytes u) \<le> INT_MAX
     \<and> (\<forall>t. e_buffer_pts (elem E) t (au_buf u) = au_pts u
          \<and> (au_pts u = GST_CLOCK_TIME_NONE \<longrightarrow> e_buffer_dts (elem E) t (au_buf u) = GST_CLOCK_TIME_NONE)
          \<and> e_buffer_duration (elem E) t (au_buf u) = au_dur u
          \<and> e_buffer_size (elem E) t (au_buf u) = length (au_bytes u)
          \<and> e_buffer_map (gst E) t (au_buf u) = Some (au_bytes u))"

definition muxer_accepts :: "env \<Rightarrow> bool" where
  "muxer_accepts E \<longleftrightarrow> (\<forall>t m. mux_results (e_write_nal (mp4 E) t m) = {0})"

text \<open>A recorder whose writer is open, and what it holds back.\<close>

definition recording :: "VideoRecorder \<Rightarrow> bool" where
  "recording rec \<longleftrightarrow> vr_enabled rec \<and> \<not> vr_failed rec \<and> vr_writer_initialized rec \<and> vr_mux rec \<noteq> 0"

definition holds :: "access_unit option \<Rightarrow> VideoRecorder \<Rightarrow> bool" where
  "holds u rec \<longleftrightarrow> vr_pending rec = (case u of None \<Rightarrow> zero_pending
     | Some u \<Rightarrow> \<lparr>pend_buffer = au_buf u, pend_pts = au_pts u, pend_duration = au_dur u, pend_valid = True\<rparr>)"

definition same_pace :: "VideoRecorder \<Rightarrow> VideoRecorder \<Rightarrow> bool" where
  "same_pace rec rec' \<longleftrightarrow> vr_last_duration_90k rec' = vr_last_duration_90k rec
     \<and> vr_default_duration_90k rec' = vr_default_duration_90k rec"

lemma emit_pending_nals:
  assumes "shows_unit E u" and "muxer_accepts E" and "recording rec" and "holds (Some u) rec"
  shows "wp (observe nals) (emit_pending E rec d)
     (\<lambda>rec' ns'. ns' = ns @ [(au_bytes u, d)] \<and> recording rec' \<and> holds None rec' \<and> same_pace rec rec') ns"
proof -
  have res: "x = 0" if "x \<in> mux_results (e_write_nal (mp4 E) t m)" for x t m
    using assms(2) that by (auto simp: muxer_accepts_def)
  show ?thesis
    using assms unfolding emit_pending_def pending_reset_def Let_def
    by (intro wp_intros observe_intros mux_nals.calls_wp;
        clarsimp dest!: res simp: shows_unit_def recording_def holds_def same_pace_def counts_bytes_def zero_pending_def
          MP4E_STATUS_BAD_ARGUMENTS_def)
qed

lemma handle_sample_times:
  assumes "shows_unit E u" and "Q (au_pts u, au_dur u) s"
  shows "wp \<delta> (sample_times E sample (au_buf u)) Q s"
  using assms unfolding sample_times_def Let_def
  by (intro wp_intros) (auto simp: shows_unit_def)

definition pace_to :: "env \<Rightarrow> VideoRecorder \<Rightarrow> access_unit \<Rightarrow> u64 \<Rightarrow> u64" where
  "pace_to E rec u npts = unit_ticks E (vr_last_duration_90k rec) (vr_default_duration_90k rec) u npts"

lemma emit_held_nals:
  assumes "shows_unit E u" and "muxer_accepts E" and "recording rec" and "holds (Some u) rec"
  shows "wp (observe nals) (if pend_valid (vr_pending rec) then do {
        let (d, rec') = compute_duration_90k E rec (pend_pts (vr_pending rec)) (pend_duration (vr_pending rec)) npts;
        emit_pending E rec' d } else ret rec)
     (\<lambda>rec' ns'. ns' = ns @ [(au_bytes u, cap32 (pace_to E rec u npts))] \<and> recording rec' \<and> holds None rec'
        \<and> vr_last_duration_90k rec' = pace_to E rec u npts
        \<and> vr_default_duration_90k rec' = vr_default_duration_90k rec) ns"
proof -
  let ?rec = "rec\<lparr>vr_last_duration_90k := pace_to E rec u npts\<rparr>"
  have "recording ?rec" "holds (Some u) ?rec" using assms(3,4) by (simp_all add: recording_def holds_def)
  from emit_pending_nals [OF assms(1,2) this, of "cap32 (pace_to E rec u npts)" ns] show ?thesis
    using assms(4)
    by (auto simp: holds_def compute_duration_ticks Let_def pace_to_def same_pace_def elim: wp_mono)
qed

lemma handle_sample_nals:
  assumes "recording rec" and "shows_unit E v"
  shows "wp (observe nals) (queue_sample E sample (au_buf v) None rec) Q ns
      \<Longrightarrow> wp (observe nals) (handle_sample E sample (au_buf v) None rec) Q ns"
  using assms unfolding handle_sample_def
  by (auto simp: recording_def shows_unit_def ensure_writer_initialized_def intro!: wp_bind wp_return)

lemma queue_first_nals:
  assumes "recording rec" and "shows_unit E v" and "holds None rec"
  shows "wp (observe nals) (queue_sample E sample (au_buf v) None rec)
     (\<lambda>rec' ns'. ns' = ns \<and> recording rec' \<and> holds (Some v) rec' \<and> same_pace rec rec') ns"
  unfolding queue_sample_def pending_buffer_def
  by (intro wp_bind handle_sample_times [OF assms(2)])
    (use assms in \<open>auto intro!: wp_intros observe_intros
      simp: recording_def holds_def same_pace_def zero_pending_def shows_unit_def\<close>)

lemma queue_next_nals:
  assumes "recording rec" and "shows_unit E v" and "holds (Some u) rec" and "shows_unit E u" and "muxer_accepts E"
  shows "wp (observe nals) (queue_sample E sample (au_buf v) None rec)
     (\<lambda>rec' ns'. ns' = ns @ [(au_bytes u, cap32 (pace_to E rec u (au_pts v)))] \<and> recording rec'
        \<and> holds (Some v) rec' \<and> vr_last_duration_90k rec' = pace_to E rec u (au_pts v)
        \<and> vr_default_duration_90k rec' = vr_default_duration_90k rec) ns"
  unfolding queue_sample_def
  apply (intro wp_bind handle_sample_times [OF assms(2)] wp_case_prod)
  apply (rule wp_mono [OF emit_held_nals [OF assms(4,5,1,3)]])
  using assms(2) by (auto intro!: wp_intros observe_intros
      simp: pending_buffer_def recording_def holds_def shows_unit_def)

lemma flush_nals:
  assumes "recording rec" and "holds (Some u) rec" and "shows_unit E u" and "muxer_accepts E"
  shows "wp (observe nals) (flush_recorder E rec)
     (\<lambda>_ ns'. ns' = ns @ [(au_bytes u, cap32 (pace_to E rec u GST_CLOCK_TIME_NONE))]) ns"
  unfolding flush_recorder_def
  by (intro wp_intros observe_intros wp_mono [OF emit_held_nals [OF assms(3,4,1,2)]])
    (use assms(1) in \<open>auto simp: recording_def\<close>)

text \<open>Handing over a list of units and flushing.\<close>

definition record_units :: "env \<Rightarrow> access_unit list \<Rightarrow> VideoRecorder \<Rightarrow> VideoRecorder option io" where
  "record_units E us rec = do {
     r \<leftarrow> handle_all E (map (\<lambda>u. ((1, au_buf u), au_buf u, None)) us) (Some rec);
     video_recorder_flush E r
   }"

lemma record_units_Cons:
  assumes "wp \<delta> (handle_sample E (1, au_buf v) (au_buf v) None rec) (\<lambda>rec. wp \<delta> (record_units E us rec) Q) s"
  shows "wp \<delta> (record_units E (v # us) rec) Q s"
proof -
  have "record_units E (v # us) rec =
      State_Monad.bind (handle_sample E (1, au_buf v) (au_buf v) None rec) (record_units E us)"
    by (simp add: record_units_def [abs_def] video_recorder_handle_sample_def)
  then show ?thesis using assms by (simp add: wp_bind)
qed

lemma record_units_held:
  assumes "\<forall>u \<in> set (u # us). shows_unit E u" and "muxer_accepts E" and "recording rec" and "holds (Some u) rec"
  shows "wp (observe nals) (record_units E us rec)
     (\<lambda>_ ns'. ns' = ns @ paced E (vr_last_duration_90k rec) (vr_default_duration_90k rec) (u # us)) ns"
  using assms
proof (induction us arbitrary: u rec ns)
  case Nil
  then show ?case
    unfolding record_units_def video_recorder_flush_def
    by (auto intro!: wp_intros wp_mono [OF flush_nals] simp: pace_to_def)
next
  case (Cons v us)
  have v: "shows_unit E v" "shows_unit E u" using Cons.prems(1) by simp_all
  show ?case
    by (intro record_units_Cons handle_sample_nals wp_mono [OF queue_next_nals] Cons.prems(2-4) v)
      (use Cons.prems in \<open>auto intro!: wp_mono [OF Cons.IH [of v]] simp: Let_def pace_to_def\<close>)
qed


text \<open>Two units 20 ms apart at 90 kHz, the second without a successor.\<close>

definition two_units :: "access_unit list" where
  "two_units = [\<lparr>au_buf = 5, au_pts = 1000000, au_dur = GST_CLOCK_TIME_NONE, au_bytes = [0, 0, 1, 64]\<rparr>,
                \<lparr>au_buf = 6, au_pts = 21000000, au_dur = GST_CLOCK_TIME_NONE, au_bytes = [0, 0, 1, 2]\<rparr>]"

definition two_units_env :: env where
  "two_units_env = null_env
     \<lparr>elem := (elem null_env)\<lparr>e_buffer_pts := \<lambda>_ b. if b = 5 then 1000000 else 21000000,
        e_buffer_size := \<lambda>_ _. 4, e_scale := \<lambda>v n d. word_of_int (uint v * uint n div uint d)\<rparr>,
      gst := (gst null_env)\<lparr>e_buffer_map := \<lambda>_ b. Some (if b = 5 then [0, 0, 1, 64] else [0, 0, 1, 2])\<rparr>,
      mp4 := (mp4 null_env)\<lparr>e_write_nal := \<lambda>_ _. MuxWrite 40 (Some [7]) (\<lambda>_. MuxRet 0)\<rparr>\<rparr>"

definition open_recorder :: VideoRecorder where
  "open_recorder = (new_recorder (record_cfg cfg_defaults) ''/media/a.mp4'' 0)
     \<lparr>vr_fp := 8, vr_mux := 9, vr_writer_initialized := True\<rparr>"


text \<open>The recording that cannot open its file: the lock stays initialised in freed memory.\<close>

lemma open_failure_leaves_lock:
  "monitor own {#} (trace_of (video_recorder_new (null_env\<lparr>sys := (sys null_env)\<lparr>e_alloc := \<lambda>_ _. True\<rparr>\<rparr>)
     (Some \<lparr>enable = 1, output_path = ''a.mp4'', mode = RECORD_MODE_STANDARD\<rparr>))) = Some {#Mutex StatsLock#}"
  by (simp add: trace_of_def video_recorder_new_def build_timestamped_output_path_def recorder_timestamp_string_def
      path_looks_like_directory_def null_env_def own_def own_by_def own_simps Let_def)

end
