(* ===== verification/Doubles.thy ===== *)
theory Doubles
  imports Complex_Main
begin

text \<open>
  C's \<open>double\<close> on the values the code computes with: non-negative numbers far inside the range of
  normal numbers. A \<open>double\<close> is its value, a rational; each operation is the exact one followed by
  \<open>rnd\<close>, the rounding of IEEE 754 to 53 bits, to nearest with ties to even. Division by zero gives
  \<open>Inf\<close> (or \<open>NaN\<close> for 0 / 0).
\<close>

section \<open>Rounding to 53 bits\<close>

fun ilog2 :: "nat \<Rightarrow> nat" where
  "ilog2 n = (if n < 2 then 0 else Suc (ilog2 (n div 2)))"

declare ilog2.simps [simp del]

lemma ilog2_bounds: "0 < n \<Longrightarrow> 2 ^ ilog2 n \<le> n \<and> n < 2 ^ Suc (ilog2 n)"
proof (induction n rule: ilog2.induct)
  case (1 n)
  show ?case
  proof (cases "n < 2")
    case True
    then show ?thesis using 1(2) by (simp add: ilog2.simps [of n])
  next
    case False
    then have "2 ^ ilog2 (n div 2) \<le> n div 2 \<and> n div 2 < 2 ^ Suc (ilog2 (n div 2))"
      using 1(1) by simp
    then have "2 * 2 ^ ilog2 (n div 2) \<le> n" "n < 2 * 2 ^ Suc (ilog2 (n div 2))" by linarith+
    then show ?thesis using False by (simp add: ilog2.simps [of n])
  qed
qed

text \<open>The \<open>e\<close> with \<open>2^52 \<le> q / 2^e < 2^53\<close>.\<close>

definition ulp_exp :: "rat \<Rightarrow> int" where
  "ulp_exp q =
     (let (n, d) = quotient_of q;
          e = int (ilog2 (nat n)) - int (ilog2 (nat d))
      in (if q < 2 powi e then e - 1 else e) - 52)"

lemma ulp_exp_bounds:
  assumes "0 < q"
  shows "2 ^ 52 * 2 powi ulp_exp q \<le> q \<and> q < 2 ^ 53 * 2 powi ulp_exp q"
proof -
  obtain n d where nd: "quotient_of q = (n, d)" by (cases "quotient_of q")
  have d: "0 < d" and q: "q = of_int n / of_int d"
    using quotient_of_denom_pos [OF nd] quotient_of_div [OF nd] by auto
  then have n: "0 < n" using assms by (simp add: zero_less_divide_iff)
  define a b where "a = ilog2 (nat n)" and "b = ilog2 (nat d)"
  have "2 ^ a \<le> nat n \<and> nat n < 2 ^ Suc a" "2 ^ b \<le> nat d \<and> nat d < 2 ^ Suc b"
    unfolding a_def b_def using ilog2_bounds [of "nat n"] ilog2_bounds [of "nat d"] n d by auto
  then have "2 ^ a \<le> n \<and> n < 2 ^ Suc a" "2 ^ b \<le> d \<and> d < 2 ^ Suc b"
    using n d by (simp_all add: nat_le_iff zless_nat_eq_int_zless le_nat_iff del: power_Suc)
  then have "of_int (2 ^ a) \<le> (of_int n :: rat)" "(of_int n :: rat) < of_int (2 ^ Suc a)"
    "of_int (2 ^ b) \<le> (of_int d :: rat)" "(of_int d :: rat) < of_int (2 ^ Suc b)"
    unfolding of_int_le_iff of_int_less_iff by blast+
  then have N: "2 ^ a \<le> (of_int n :: rat)" "(of_int n :: rat) < 2 * 2 ^ a"
    and D: "2 ^ b \<le> (of_int d :: rat)" "(of_int d :: rat) < 2 * 2 ^ b"
    by simp_all
  define e where "e = int a - int b"
  have E: "(2 :: rat) powi e = 2 ^ a / 2 ^ b"
    by (simp add: e_def power_int_diff)
  have lo: "2 powi e / 2 \<le> q"
  proof -
    have "2 ^ a / (2 * 2 ^ b) \<le> q"
      unfolding q using N D n d by (intro frac_le) auto
    then show ?thesis using E by simp
  qed
  have hi: "q < 2 * 2 powi e"
  proof -
    have "q < (2 * 2 ^ a) / 2 ^ b"
      unfolding q using N D n d by (intro frac_less) auto
    then show ?thesis using E by simp
  qed
  have u: "ulp_exp q = (if q < 2 powi e then e - 1 else e) - 52"
    by (simp add: ulp_exp_def nd a_def b_def e_def)
  have p: "(2 :: rat) powi (k - 52) = 2 powi k / 2 ^ 52" for k
    by (simp add: power_int_diff)
  have h: "(2 :: rat) powi (e - 1) = 2 powi e / 2" by (simp add: power_int_diff)
  show ?thesis
    unfolding u using lo hi by (auto simp: p h)
qed

definition round_even :: "rat \<Rightarrow> int" where
  "round_even x =
     (let f = \<lfloor>x\<rfloor>; r = x - of_int f
      in if r < 1/2 then f else if 1/2 < r then f + 1 else if even f then f else f + 1)"

lemma round_even_error: "\<bar>of_int (round_even x) - x\<bar> \<le> 1/2"
proof -
  have "of_int \<lfloor>x\<rfloor> \<le> x" "x < of_int \<lfloor>x\<rfloor> + 1" by linarith+
  then show ?thesis by (auto simp: round_even_def Let_def abs_le_iff)
qed

lemma round_even_int [simp]: "round_even (of_int k) = k"
  by (simp add: round_even_def)

definition rnd :: "rat \<Rightarrow> rat" where
  "rnd q = (if q \<le> 0 then 0 else of_int (round_even (q / 2 powi ulp_exp q)) * 2 powi ulp_exp q)"

lemma rnd_error: "0 \<le> q \<Longrightarrow> \<bar>rnd q - q\<bar> \<le> q / 2 ^ 53"
proof (cases "q = 0")
  case False
  assume "0 \<le> q"
  with False have q: "0 < q" by simp
  define u where "u = (2 :: rat) powi ulp_exp q"
  have u: "0 < u" by (simp add: u_def)
  have "of_int (round_even (q / u)) * u - q = (of_int (round_even (q / u)) - q / u) * u"
    using u by (simp add: left_diff_distrib)
  then have "\<bar>of_int (round_even (q / u)) * u - q\<bar> = \<bar>of_int (round_even (q / u)) - q / u\<bar> * u"
    using u by (simp add: abs_mult)
  also have "\<dots> \<le> 1/2 * u" using round_even_error u by (intro mult_right_mono) auto
  also have "\<dots> \<le> q / 2 ^ 53"
    using ulp_exp_bounds [OF q] by (simp add: u_def)
  finally show ?thesis using q by (simp add: rnd_def u_def)
qed (simp add: rnd_def)

lemma rnd_pos:
  assumes "0 < q"
  shows "0 < rnd q"
proof -
  have "q / 2 ^ 53 < q" using assms by simp
  moreover have "- (rnd q - q) \<le> q / 2 ^ 53" using rnd_error [of q] assms unfolding abs_le_iff by simp
  ultimately show ?thesis by linarith
qed

lemma rnd_nonneg: "0 \<le> rnd q"
  using rnd_pos [of q] by (cases "0 < q") (auto simp: rnd_def)

text \<open>Numbers that have a 53 bit representation are not changed.\<close>

lemma rnd_exact:
  assumes "q = of_int k * 2 powi j" and "0 \<le> k" and "k < 2 ^ 53"
  shows "rnd q = q"
proof (cases "k = 0")
  case False
  with assms have k: "0 < k" and q: "0 < q" by auto
  define e where "e = ulp_exp q"
  have "2 ^ 52 * 2 powi e \<le> of_int k * (2 :: rat) powi j"
    using ulp_exp_bounds [OF q] assms(1) by (simp add: e_def)
  also have "\<dots> < 2 ^ 53 * 2 powi j"
  proof (rule mult_strict_right_mono)
    have "(of_int k :: rat) < of_int (2 ^ 53)" unfolding of_int_less_iff by (rule assms(3))
    then show "(of_int k :: rat) < 2 ^ 53" by simp
  qed simp
  finally have "(2 :: rat) powi (52 + e) < 2 powi (53 + j)"
    by (simp add: power_int_add)
  then have ej: "e \<le> j"
  proof -
    have "\<not> 53 + j \<le> 52 + e"
    proof
      assume "53 + j \<le> 52 + e"
      then have "(2 :: rat) powi (53 + j) \<le> 2 powi (52 + e)" by (intro power_int_increasing) auto
      then show False using \<open>2 powi (52 + e) < _\<close> by simp
    qed
    then show ?thesis by simp
  qed
  have "q / 2 powi e = of_int (k * 2 ^ nat (j - e))"
  proof -
    have "(2 :: rat) powi j = 2 powi (j - e) * 2 powi e" by (simp flip: power_int_add)
    moreover have "(2 :: rat) powi (j - e) = 2 ^ nat (j - e)" using ej by (simp add: power_int_def)
    ultimately show ?thesis by (simp add: assms(1))
  qed
  then have "rnd q = of_int (k * 2 ^ nat (j - e)) * 2 powi e"
    using q round_even_int [of "k * 2 ^ nat (j - e)"]
    by (simp add: rnd_def del: of_int_mult of_int_power flip: e_def)
  also have "\<dots> = q" using \<open>q / 2 powi e = _\<close> by (simp add: divide_eq_eq)
  finally show ?thesis .
qed (simp add: rnd_def assms)

lemma rnd_0 [simp]: "rnd 0 = 0"
  by (simp add: rnd_def)

lemma rnd_int: "0 \<le> k \<Longrightarrow> k < 2 ^ 53 \<Longrightarrow> rnd (of_int k) = of_int k"
  by (rule rnd_exact [of _ k 0]) simp_all

lemma rnd_half: "0 \<le> k \<Longrightarrow> k < 2 ^ 53 \<Longrightarrow> rnd (of_int k / 2) = of_int k / 2"
  by (rule rnd_exact [of _ k "-1"]) simp_all

section \<open>Doubles\<close>

text \<open>
  Zeros are unsigned here and only non-negative numbers are divided by zero. The conversions to integers
  are C's where C defines them; outside the range of the integer they saturate and NaN gives 0, as the
  target's \<open>fcvtzs\<close> and \<open>fcvtzu\<close> do.
\<close>

datatype dbl = Fin rat | Inf | NaN

definition drnd :: "rat \<Rightarrow> rat" where
  "drnd q = (if q < 0 then - rnd (- q) else rnd q)"

fun d_div :: "dbl \<Rightarrow> dbl \<Rightarrow> dbl" where
  "d_div (Fin a) (Fin b) = (if b = 0 then (if a = 0 then NaN else Inf) else Fin (drnd (a / b)))"
| "d_div Inf (Fin b) = Inf"
| "d_div (Fin a) Inf = Fin 0"
| "d_div _ _ = NaN"

fun d_mul :: "dbl \<Rightarrow> dbl \<Rightarrow> dbl" where
  "d_mul (Fin a) (Fin b) = Fin (drnd (a * b))"
| "d_mul (Fin a) Inf = (if a = 0 then NaN else Inf)"
| "d_mul Inf (Fin b) = (if b = 0 then NaN else Inf)"
| "d_mul Inf Inf = Inf"
| "d_mul _ _ = NaN"

fun d_add :: "dbl \<Rightarrow> dbl \<Rightarrow> dbl" where
  "d_add (Fin a) (Fin b) = Fin (drnd (a + b))"
| "d_add NaN _ = NaN"
| "d_add _ NaN = NaN"
| "d_add _ _ = Inf"

text \<open>\<open>a > b\<close>; every comparison with NaN is false.\<close>

fun d_gt :: "dbl \<Rightarrow> dbl \<Rightarrow> bool" where
  "d_gt (Fin a) (Fin b) = (b < a)"
| "d_gt Inf (Fin b) = True"
| "d_gt _ _ = False"

definition d_int :: "int \<Rightarrow> dbl" where
  "d_int k = Fin (drnd (of_int k))"

definition trunc :: "rat \<Rightarrow> int" where
  "trunc q = (if q < 0 then \<lceil>q\<rceil> else \<lfloor>q\<rfloor>)"

fun d_clamp :: "int \<Rightarrow> int \<Rightarrow> dbl \<Rightarrow> int" where
  "d_clamp lo hi (Fin q) = max lo (min hi (trunc q))"
| "d_clamp lo hi Inf = hi"
| "d_clamp lo hi NaN = 0"

definition d_to_int :: "dbl \<Rightarrow> int" where
  "d_to_int = d_clamp (- (2 ^ 31)) (2 ^ 31 - 1)"

definition d_to_u32 :: "dbl \<Rightarrow> int" where
  "d_to_u32 = d_clamp 0 (2 ^ 32 - 1)"

lemma drnd_nonneg [simp]: "0 \<le> q \<Longrightarrow> drnd q = rnd q"
  by (simp add: drnd_def)

lemma d_int_exact: "0 \<le> k \<Longrightarrow> k < 2 ^ 53 \<Longrightarrow> d_int k = Fin (of_int k)"
  by (simp add: d_int_def rnd_int)

text \<open>
  The idiom \<open>(int)(a / b + 0.5)\<close>: the two roundings do not change the nearest integer of a quotient
  that is not too large for its denominator.
\<close>

lemma round_quotient:
  fixes n d :: int
  assumes "0 \<le> n" and "0 < d" and "d \<le> 2 ^ 32" and "n < 2 ^ 17 * d"
  shows "\<lfloor>rnd (rnd (of_int n / of_int d) + 1/2)\<rfloor> = (2 * n + d) div (2 * d)"
proof -
  define q :: rat where "q = of_int n / of_int d"
  define k where "k = (2 * n + d) div (2 * d)"
  define h where "h = rnd q"
  have dq: "(0 :: rat) < of_int d" using assms(2) by simp
  have q0: "0 \<le> q" using assms by (simp add: q_def)
  have "(of_int n :: rat) < of_int (2 ^ 17 * d)" unfolding of_int_less_iff by (rule assms(4))
  then have q1: "q < 2 ^ 17" using dq by (simp add: q_def divide_less_eq)
  define r where "r = (2 * n + d) mod (2 * d)"
  define \<epsilon> :: rat where "\<epsilon> = 1 / of_int (2 * d)"
  have r: "0 \<le> r" "r \<le> 2 * d - 1" and m: "2 * n + d = 2 * d * k + r"
    using assms(2) pos_mod_bound [of "2 * d" "2 * n + d"] by (simp_all add: r_def k_def)
  have "(of_int (2 * n + d) :: rat) = of_int (2 * d * k + r)" using m by simp
  then have qk: "q + 1/2 = of_int k + of_int r * \<epsilon>"
    using dq by (simp add: q_def \<epsilon>_def field_simps)
  have "(of_int d :: rat) \<le> of_int (2 ^ 32)" unfolding of_int_le_iff by (rule assms(3))
  then have \<epsilon>: "1 / 2 ^ 33 \<le> \<epsilon>" "0 < \<epsilon>" using dq by (simp_all add: \<epsilon>_def field_simps)
  have "\<lfloor>rnd (h + 1/2)\<rfloor> = k"
  proof (cases "r = 0")
    case True
    then have "q = of_int (2 * k - 1) / 2" using qk by (simp add: field_simps)
    moreover have "0 \<le> 2 * k - 1"
    proof -
      have "(0 :: rat) \<le> of_int (2 * k - 1)" using q0 calculation by simp
      then show ?thesis unfolding of_int_0_le_iff .
    qed
    moreover have "2 * k - 1 < 2 ^ 53"
    proof -
      have "(of_int (2 * k - 1) :: rat) < of_int (2 ^ 53)" using q1 calculation(1) by simp
      then show ?thesis unfolding of_int_less_iff .
    qed
    ultimately have h: "h = of_int (2 * k - 1) / 2" unfolding h_def using rnd_half by metis
    then have "h + 1/2 = of_int k" by (simp add: field_simps)
    moreover have "0 \<le> k" "k < 2 ^ 53" using \<open>0 \<le> 2 * k - 1\<close> \<open>2 * k - 1 < 2 ^ 53\<close> by linarith+
    ultimately show ?thesis by (simp add: rnd_int)
  next
    case False
    then have "1 \<le> r" using r by simp
    then have "(1 :: rat) \<le> of_int r" by simp
    then have lo: "of_int k + \<epsilon> \<le> q + 1/2" using qk \<epsilon>(2) by simp
    have "(of_int r :: rat) \<le> of_int (2 * d - 1)" unfolding of_int_le_iff by (rule r(2))
    then have "of_int r * \<epsilon> \<le> of_int (2 * d - 1) * \<epsilon>" using \<epsilon>(2) by (intro mult_right_mono) auto
    also have "\<dots> = 1 - \<epsilon>" using dq by (simp add: \<epsilon>_def field_simps)
    finally have hi: "q + 1/2 \<le> of_int k + 1 - \<epsilon>" using qk by simp
    have "\<bar>h - q\<bar> \<le> q / 2 ^ 53" unfolding h_def by (rule rnd_error [OF q0])
    then have hq: "\<bar>h - q\<bar> \<le> 1 / 2 ^ 36" using q1 by simp
    have h0: "0 \<le> h + 1/2" using rnd_nonneg [of q] by (simp add: h_def)
    have h1: "h + 1/2 \<le> 2 ^ 18"
    proof -
      have "h - q \<le> 1 / 2 ^ 36" using hq by (rule abs_le_D1)
      then have "h - q \<le> 1" by (rule order_trans) simp
      moreover have "q < 131072" using q1 by simp
      ultimately have "h + 1/2 \<le> 262144" by linarith
      then show ?thesis by simp
    qed
    have "\<bar>rnd (h + 1/2) - (h + 1/2)\<bar> \<le> (h + 1/2) / 2 ^ 53" by (rule rnd_error [OF h0])
    also have "\<dots> \<le> 2 ^ 18 / 2 ^ 53" using h1 by (intro divide_right_mono) auto
    finally have rh: "\<bar>rnd (h + 1/2) - (h + 1/2)\<bar> \<le> 1 / 2 ^ 35" by simp
    have c: "(1 :: rat) / 2 ^ 36 + 1 / 2 ^ 35 < \<epsilon>" using \<epsilon>(1) by (rule less_le_trans [rotated]) simp
    have "of_int k < rnd (h + 1/2)"
      using lo c abs_le_D2 [OF hq] abs_le_D2 [OF rh] by linarith
    moreover have "rnd (h + 1/2) < of_int k + 1"
      using hi c abs_le_D1 [OF hq] abs_le_D1 [OF rh] by linarith
    ultimately have "of_int k \<le> rnd (h + 1/2)" "rnd (h + 1/2) < of_int k + 1" by simp_all
    then show ?thesis by (intro floor_unique) auto
  qed
  then show ?thesis by (simp add: h_def q_def k_def)
qed

end
