(* ===== verification/Drm_Props.thy ===== *)
theory Drm_Props
  imports Media_Calls C_Library
begin

text \<open>
  \<open>src/drm\_props.c\<close>: the search for a property of a DRM object by its name. The structures libdrm
  returns are resources that each function gives back on every path.
\<close>

text \<open>The loop over \<open>props->props[0..count_props)\<close>; the cell \<open>*out\<close> is passed and returned.\<close>

fun prop_loop :: "env \<Rightarrow> int \<Rightarrow> string \<Rightarrow> u32 list \<Rightarrow> u32 \<Rightarrow> (bool \<times> u32) io" where
  "prop_loop E fd name [] out = ret (False, out)"
| "prop_loop E fd name (i # ids) out = do {
     p \<leftarrow> drmModeGetProperty E fd i;
     case p of
       None \<Rightarrow> prop_loop E fd name ids out
     | Some p \<Rightarrow>
         if prop_name p = name then do { drm_free (prop_ptr p); ret (True, prop_id p) }
         else do { drm_free (prop_ptr p); prop_loop E fd name ids out }
   }"

definition drm_get_prop_id :: "env \<Rightarrow> int \<Rightarrow> u32 \<Rightarrow> u32 \<Rightarrow> string \<Rightarrow> u32 \<Rightarrow> (int \<times> u32) io" where
  "drm_get_prop_id E fd obj_id obj_type name out = do {
     props \<leftarrow> drmModeObjectGetProperties E fd obj_id obj_type;
     case props of
       None \<Rightarrow> ret (-1, out)
     | Some props \<Rightarrow> do {
         (found, out) \<leftarrow> prop_loop E fd name (oprops props) out;
         drm_free (oprops_ptr props);
         ret (if found then 0 else -1, out)
       }
   }"

text \<open>
  \<open>out_min\<close> and \<open>out_max\<close> are never NULL at the call sites. A range property has two values, as libdrm
  documents, which is what the two array reads rely on.
\<close>

fun range_loop ::
    "env \<Rightarrow> int \<Rightarrow> string \<Rightarrow> string option \<Rightarrow> u32 list \<Rightarrow> u32 \<times> u64 \<times> u64 \<Rightarrow> (bool \<times> u32 \<times> u64 \<times> u64) io" where
  "range_loop E fd name1 alt [] out = ret (False, out)"
| "range_loop E fd name1 alt (i # ids) (oid, omin, omax) = do {
     p \<leftarrow> drmModeGetProperty E fd i;
     case p of
       None \<Rightarrow> range_loop E fd name1 alt ids (oid, omin, omax)
     | Some p \<Rightarrow>
         if prop_name p = name1 \<or> (alt \<noteq> None \<and> prop_name p = the alt) then do {
           drm_free (prop_ptr p);
           ret (True, prop_id p,
             if and (prop_flags p) DRM_MODE_PROP_RANGE \<noteq> 0
             then (prop_vals p ! 0, prop_vals p ! 1) else (omin, omax))
         } else do { drm_free (prop_ptr p); range_loop E fd name1 alt ids (oid, omin, omax) }
   }"

definition drm_get_prop_id_and_range_ci ::
    "env \<Rightarrow> int \<Rightarrow> u32 \<Rightarrow> u32 \<Rightarrow> string \<Rightarrow> u32 \<times> u64 \<times> u64 \<Rightarrow> string option \<Rightarrow> (int \<times> u32 \<times> u64 \<times> u64) io"
  where
  "drm_get_prop_id_and_range_ci E fd obj_id obj_type name1 out alt_name2 = do {
     props \<leftarrow> drmModeObjectGetProperties E fd obj_id obj_type;
     case props of
       None \<Rightarrow> ret (-1, out)
     | Some props \<Rightarrow> do {
         (found, out) \<leftarrow> range_loop E fd name1 alt_name2 (oprops props) out;
         drm_free (oprops_ptr props);
         ret (if found then 0 else -1, out)
       }
   }"

text \<open>
  The listing of an object's properties for debugging: what it prints to \<open>stderr\<close>. Without properties there
  is only a line of the verbose log.
\<close>

fun list_loop :: "env \<Rightarrow> int \<Rightarrow> u32 list \<Rightarrow> string io" where
  "list_loop E fd [] = ret []"
| "list_loop E fd (i # ids) = do {
     p \<leftarrow> drmModeGetProperty E fd i;
     case p of
       None \<Rightarrow> list_loop E fd ids
     | Some p \<Rightarrow> do {
         drm_free (prop_ptr p);
         rest \<leftarrow> list_loop E fd ids;
         ret ('' '' @ prop_name p @ rest)
       }
   }"

definition drm_debug_list_props :: "env \<Rightarrow> int \<Rightarrow> u32 \<Rightarrow> u32 \<Rightarrow> string \<Rightarrow> string io" where
  "drm_debug_list_props E fd obj_id obj_type tag = do {
     props \<leftarrow> drmModeObjectGetProperties E fd obj_id obj_type;
     case props of
       None \<Rightarrow> ret []
     | Some props \<Rightarrow> do {
         names \<leftarrow> list_loop E fd (oprops props);
         drm_free (oprops_ptr props);
         ret (''[DBG] '' @ tag @ '' props ('' @ dec_nat (length (oprops props)) @ ''):'' @ names @ [CHR 0x0A])
       }
   }"

section \<open>Ownership\<close>

lemma prop_loop_wp: "(\<And>x. Q x M) \<Longrightarrow> wp own (prop_loop E fd name ids out) Q M"
proof (induction E fd name ids out rule: prop_loop.induct)
  case (2 E fd name i ids out)
  show ?case
    unfolding prop_loop.simps
    by (intro wp_intros; (rule 2)?; simp_all add: own_simps 2)
qed (simp add: wp_return)

lemma range_loop_wp: "(\<And>x. Q x M) \<Longrightarrow> wp own (range_loop E fd n1 alt ids out) Q M"
proof (induction E fd n1 alt ids out rule: range_loop.induct)
  case (2 E fd n1 alt i ids oid omin omax)
  show ?case
    unfolding range_loop.simps
    by (intro wp_intros; (rule 2)?; simp_all add: own_simps 2)
qed (simp add: wp_return)

lemma drm_get_prop_id_wp: "(\<And>x. Q x M) \<Longrightarrow> wp own (drm_get_prop_id E fd obj ty name out) Q M"
  unfolding drm_get_prop_id_def
  by (intro wp_intros prop_loop_wp) (simp_all add: own_simps)

lemma drm_get_prop_id_and_range_ci_wp:
  "(\<And>x. Q x M) \<Longrightarrow> wp own (drm_get_prop_id_and_range_ci E fd obj ty name out alt) Q M"
  unfolding drm_get_prop_id_and_range_ci_def
  by (intro wp_intros range_loop_wp) (simp_all add: own_simps)

lemma list_loop_wp: "(\<And>x. Q x M) \<Longrightarrow> wp own (list_loop E fd ids) Q M"
proof (induction E fd ids arbitrary: Q rule: list_loop.induct)
  case (2 E fd i ids)
  show ?case
    unfolding list_loop.simps
    by (intro wp_intros; (rule 2)?; simp_all add: own_simps 2 wp_return)
qed (simp add: wp_return)

lemma drm_debug_list_props_own: "wp own (drm_debug_list_props E fd obj ty tag) (\<lambda>_ M'. M' = M) M"
  unfolding drm_debug_list_props_def
  by (intro wp_intros list_loop_wp) (simp_all add: own_simps)

section \<open>Properties\<close>

text \<open>The kernel's properties of one object, as they stay over the calls: the ids and the lookup.\<close>

definition object_props ::
    "env \<Rightarrow> int \<Rightarrow> u32 \<Rightarrow> u32 \<Rightarrow> u32 list \<Rightarrow> (u32 \<Rightarrow> drmModePropertyRes option) \<Rightarrow> bool" where
  "object_props E fd obj ty ids look \<longleftrightarrow>
     (\<forall>t. \<exists>props. e_get_object_props (drm E) t fd obj ty = Some props \<and> oprops props = ids)
   \<and> (\<forall>t i. e_get_property (drm E) t fd i = look i)"

definition named :: "(u32 \<Rightarrow> drmModePropertyRes option) \<Rightarrow> u32 list \<Rightarrow> string \<Rightarrow> drmModePropertyRes option" where
  "named look ids name = List.find (\<lambda>p. prop_name p = name) (List.map_filter look ids)"

lemma list_loop_returns:
  assumes "\<forall>t i. e_get_property (drm E) t fd i = look i"
  shows "returns (list_loop E fd ids)
     (\<lambda>x. x = concat (map (\<lambda>p. '' '' @ prop_name p) (List.map_filter look ids)))"
proof (induction ids)
  case Nil
  then show ?case by (simp add: List.map_filter_def returns_ret)
next
  case (Cons i ids)
  show ?case
    unfolding list_loop.simps
    by (intro returns_intros returns_bind [OF returns_mono [OF Cons]] returns_mono [OF Cons])
      (auto simp: List.map_filter_def assms intro!: returns_intros)
qed

lemma prop_loop_returns:
  assumes "\<forall>t i. e_get_property (drm E) t fd i = look i"
  shows "returns (prop_loop E fd name ids out)
     (\<lambda>x. x = (case named look ids name of None \<Rightarrow> (False, out) | Some p \<Rightarrow> (True, prop_id p)))"
proof (induction ids)
  case Nil
  then show ?case by (simp add: named_def List.map_filter_def returns_ret)
next
  case (Cons i ids)
  have step: "named look (i # ids) name = (case look i of
      None \<Rightarrow> named look ids name
    | Some p \<Rightarrow> if prop_name p = name then Some p else named look ids name)"
    by (simp add: named_def List.map_filter_def split: option.split)
  show ?case
    unfolding prop_loop.simps
    by (intro returns_intros; (rule returns_mono [OF Cons])?) (auto simp: step assms)
qed

text \<open>
  C36. The lookup by name: over the properties the object has, the first one of that name (among
  those libdrm can read) gives its id and 0, and without one the code is -1 and the caller's cell is
  unchanged; every structure taken from libdrm is given back, whatever the calls answer.
\<close>

theorem drm_get_prop_id_spec:
  assumes "object_props E fd obj ty ids look"
  shows "returns (drm_get_prop_id E fd obj ty name out)
       (\<lambda>x. x = (case named look ids name of None \<Rightarrow> (-1, out) | Some p \<Rightarrow> (0, prop_id p)))
     \<and> wp own (drm_get_prop_id E fd obj ty name out) (\<lambda>_ M'. M' = M) M"
proof
  have p: "\<forall>t i. e_get_property (drm E) t fd i = look i" using assms by (simp add: object_props_def)
  show "returns (drm_get_prop_id E fd obj ty name out)
       (\<lambda>x. x = (case named look ids name of None \<Rightarrow> (-1, out) | Some p \<Rightarrow> (0, prop_id p)))"
    unfolding drm_get_prop_id_def
  proof (rule returns_bind, rule returns_ext)
    fix t
    obtain props where pr: "e_get_object_props (drm E) t fd obj ty = Some props" "oprops props = ids"
      using assms unfolding object_props_def by blast
    show "returns (case e_get_object_props (drm E) t fd obj ty of None \<Rightarrow> ret (- 1, out)
        | Some props \<Rightarrow> State_Monad.bind (prop_loop E fd name (oprops props) out)
            (\<lambda>(found, out). State_Monad.bind (drm_free (oprops_ptr props))
              (\<lambda>_. ret (if found then 0 else - 1, out))))
       (\<lambda>x. x = (case named look ids name of None \<Rightarrow> (-1, out) | Some p \<Rightarrow> (0, prop_id p)))"
      unfolding pr(1) option.case
      by (rule returns_bind, rule returns_mono [OF prop_loop_returns [OF p]])
        (auto simp: pr(2) intro!: returns_intros split: option.split)
  qed
  show "wp own (drm_get_prop_id E fd obj ty name out) (\<lambda>_ M'. M' = M) M"
    by (rule drm_get_prop_id_wp) simp
qed

text \<open>A kernel whose plane has two properties, the first of which cannot be read.\<close>

definition demo_prop :: "u32 \<Rightarrow> drmModePropertyRes option" where
  "demo_prop i = (if i = 9 then Some \<lparr>prop_ptr = 1, prop_id = 9, prop_flags = 0, prop_name = ''FB_ID'',
     prop_vals = []\<rparr> else None)"

definition calm_drm :: drm_env where
  "calm_drm = \<lparr>e_create_dumb = \<lambda>_ _ _ _ _. None, e_map_dumb = \<lambda>_ _ _. None,
     e_add_fb2 = \<lambda>_ _ _ _ _. None, e_mmap = \<lambda>_ _ _. None, e_set_client_cap = \<lambda>_ _ _. 0,
     e_get_resources = \<lambda>_ _. None, e_get_connector = \<lambda>_ _ _. None, e_get_encoder = \<lambda>_ _ _. None,
     e_get_crtc = \<lambda>_ _ _. None, e_get_plane_resources = \<lambda>_ _. None, e_get_plane = \<lambda>_ _ _. None,
     e_get_object_props = \<lambda>_ _ _ _. Some \<lparr>oprops_ptr = 2, oprops = [8, 9], oprop_values = [0, 0]\<rparr>,
     e_get_property = \<lambda>_ _. demo_prop, e_create_blob = \<lambda>_ _. None, e_atomic_alloc = \<lambda>_. 0,
     e_atomic_commit = \<lambda>_ _ _. (0, 0)\<rparr>"

theorem drm_get_prop_id_spec_witness:
  "\<exists>E. returns (drm_get_prop_id E 3 76 DRM_MODE_OBJECT_PLANE ''FB_ID'' 0) (\<lambda>x. x = (0, 9))"
proof -
  let ?E = "null_env\<lparr>drm := calm_drm\<rparr>"
  have "object_props ?E 3 76 DRM_MODE_OBJECT_PLANE [8, 9] demo_prop"
    by (simp add: object_props_def calm_drm_def)
  from drm_get_prop_id_spec [OF this, of "''FB_ID''" 0 "{#}"]
  show ?thesis
    by (intro exI [of _ ?E]) (simp add: named_def List.map_filter_def demo_prop_def)
qed

end
