(* ===== verification/Drm_Fb.thy ===== *)
theory Drm_Fb
  imports Drm_Props
begin

text \<open>
  \<open>src/drm\_fb.c\<close>: a dumb buffer with a framebuffer and a mapping on it, filled with one colour, and its
  destruction. The locale \<open>framebuffer\<close> is the contract its two clients, the modeset and the
  decoder's background plane, rely on.
\<close>

record DumbFB =
  fb_id :: u32
  fb_handle :: u32
  fb_pitch :: u32
  fb_size :: u64
  fb_map :: ptr
  fb_w :: int
  fb_h :: int

text \<open>\<open>{0}\<close>, which is also what \<open>memset(fb, 0, sizeof(*fb))\<close> leaves.\<close>

definition zero_fb :: DumbFB where
  "zero_fb = \<lparr>fb_id = 0, fb_handle = 0, fb_pitch = 0, fb_size = 0, fb_map = 0, fb_w = 0, fb_h = 0\<rparr>"

definition DRM_FORMAT_ARGB8888 :: u32 where
  "DRM_FORMAT_ARGB8888 = 0x34325241"

text \<open>The loop over \<open>px[0..count)\<close>.\<close>

fun fill_loop :: "u32 \<Rightarrow> nat \<Rightarrow> nat \<Rightarrow> u32 list \<Rightarrow> u32 list" where
  "fill_loop fill 0 i px = px"
| "fill_loop fill (Suc n) i px = fill_loop fill n (Suc i) (px[i := fill])"

definition create_argb_fb ::
    "env \<Rightarrow> int \<Rightarrow> int \<Rightarrow> int \<Rightarrow> u32 \<Rightarrow> DumbFB \<Rightarrow> (int \<times> DumbFB) io" where
  "create_argb_fb E fd w h argb_fill fb = do {
     creq \<leftarrow> drm_create_dumb E fd (word_of_int w) (word_of_int h) 32;
     case creq of
       None \<Rightarrow> ret (-1, fb)
     | Some c \<Rightarrow> do {
         r \<leftarrow> drmModeAddFB2 E fd (word_of_int w) (word_of_int h) DRM_FORMAT_ARGB8888
                [dumb_handle c, 0, 0, 0] [dumb_pitch c, 0, 0, 0] [0, 0, 0, 0];
         case r of
           None \<Rightarrow> do { drm_destroy_dumb fd (dumb_handle c); ret (-1, fb) }
         | Some n \<Rightarrow> do {
             mreq \<leftarrow> drm_map_dumb E fd (dumb_handle c);
             case mreq of
               None \<Rightarrow> do {
                 drmModeRmFB fd n;
                 drm_destroy_dumb fd (dumb_handle c);
                 ret (-1, fb)
               }
             | Some off \<Rightarrow> do {
                 map \<leftarrow> drm_mmap E fd (dumb_size c) off;
                 case map of
                   None \<Rightarrow> do {
                     drmModeRmFB fd n;
                     drm_destroy_dumb fd (dumb_handle c);
                     ret (-1, fb)
                   }
                 | Some m \<Rightarrow> do {
                     mem_store (fst m) (fill_loop argb_fill (unat (dumb_size c) div 4) 0 (snd m));
                     ret (0, \<lparr>fb_id = n, fb_handle = dumb_handle c, fb_pitch = dumb_pitch c,
                              fb_size = dumb_size c, fb_map = fst m, fb_w = w, fb_h = h\<rparr>)
                   }
               }
           }
       }
   }"

text \<open>\<open>fb->map\<close> is never \<open>MAP_FAILED\<close>: \<open>create_argb_fb\<close> stores a mapping only when it has one.\<close>

definition destroy_dumb_fb :: "int \<Rightarrow> DumbFB option \<Rightarrow> DumbFB option io" where
  "destroy_dumb_fb fd p =
     (case p of None \<Rightarrow> ret None
      | Some fb \<Rightarrow> do {
          io_when (fb_map fb \<noteq> 0) (drm_munmap (fb_map fb) (fb_size fb));
          io_when (fb_id fb \<noteq> 0) (drmModeRmFB fd (fb_id fb));
          io_when (fb_handle fb \<noteq> 0) (drm_destroy_dumb fd (fb_handle fb));
          ret (Some zero_fb)
        })"

section \<open>Ownership\<close>

definition fb_owned :: "int \<Rightarrow> DumbFB \<Rightarrow> resource multiset" where
  "fb_owned fd fb = ptr_res Mmap (fb_map fb) + id_res (DrmFb fd) (fb_id fb) + id_res (Dumb fd) (fb_handle fb)"

lemma fb_owned_zero [simp]: "fb_owned fd zero_fb = {#}"
  by (simp add: fb_owned_def zero_fb_def ptr_res_def id_res_def)

lemma create_argb_fb_own:
  "wp own (create_argb_fb E fd w h fill fb)
     (\<lambda>x M'. M' = M + (if fst x = 0 then fb_owned fd (snd x) else {#})
        \<and> (fst x = 0 \<or> fst x = -1 \<and> snd x = fb)) (M + {#})"
  unfolding create_argb_fb_def
  by (intro wp_intros) (auto simp: own_simps fb_owned_def)

lemma destroy_dumb_fb_own:
  "wp own (destroy_dumb_fb fd (Some fb)) (\<lambda>x M'. M' = M + {#} \<and> x = Some zero_fb) (M + fb_owned fd fb)"
  unfolding destroy_dumb_fb_def fb_owned_def
  by (intro wp_intros) (auto simp: own_simps)

text \<open>
  The contract: a creation that fails leaves nothing behind, one that succeeds owns what
  \<open>owned\<close> says, and a destruction releases exactly that and leaves an object that owns nothing.
\<close>

locale framebuffer =
  fixes create :: "int \<Rightarrow> int \<Rightarrow> int \<Rightarrow> u32 \<Rightarrow> DumbFB \<Rightarrow> (int \<times> DumbFB) io"
    and destroy :: "int \<Rightarrow> DumbFB option \<Rightarrow> DumbFB option io"
    and owned :: "int \<Rightarrow> DumbFB \<Rightarrow> resource multiset"
  assumes create_own: "wp own (create fd w h fill fb)
     (\<lambda>x M'. M' = M + (if fst x = 0 then owned fd (snd x) else {#})
        \<and> (fst x = 0 \<or> fst x = -1 \<and> snd x = fb)) (M + {#})"
    and destroy_own: "wp own (destroy fd (Some fb)) (\<lambda>x M'. M' = M + {#} \<and> x = Some zero_fb)
        (M + owned fd fb)"
    and owned_zero: "owned fd zero_fb = {#}"
begin

lemmas create_wp = wp_own_frame [OF create_own]
lemmas destroy_wp = wp_own_frame [OF destroy_own]

text \<open>Destroying twice is destroying once.\<close>

lemma destroy_again:
  "wp own (State_Monad.bind (destroy fd (Some fb)) (destroy fd)) (\<lambda>_ M'. M' = M) (M + owned fd fb)"
proof (rule wp_bind, rule wp_mono [OF destroy_own [of fd fb M]])
  fix x M'
  assume "M' = M + {#} \<and> x = Some zero_fb"
  then show "wp own (destroy fd x) (\<lambda>_ M'. M' = M) M'"
    using wp_mono [OF destroy_own [of fd zero_fb M]] by (simp add: owned_zero)
qed

lemma create_destroy_twice:
  "wp own (do { (r, fb) \<leftarrow> create fd w h fill zero_fb; p \<leftarrow> destroy fd (Some fb); destroy fd p })
     (\<lambda>_ M'. M' = M) M"
proof (rule wp_bind, rule wp_mono [OF create_own [of fd w h fill zero_fb M, simplified]])
  fix x M'
  assume x: "M' = M + (if fst x = 0 then owned fd (snd x) else {#})
      \<and> (fst x = 0 \<or> fst x = -1 \<and> snd x = zero_fb)"
  obtain r fb where p: "x = (r, fb)" by (cases x)
  have "M' = M + owned fd fb" using x p by (auto simp: owned_zero)
  then show "wp own (case x of (r, fb) \<Rightarrow> State_Monad.bind (destroy fd (Some fb)) (destroy fd))
      (\<lambda>_ M'. M' = M) M'"
    using p destroy_again [of fd fb M] by simp
qed

end

interpretation dumb_fb: framebuffer "create_argb_fb E" destroy_dumb_fb fb_owned for E
  by unfold_locales (rule create_argb_fb_own, rule destroy_dumb_fb_own, rule fb_owned_zero)

section \<open>Properties\<close>

lemma fill_loop_all:
  "i + n \<le> length px \<Longrightarrow> fill_loop fill n i px = take i px @ replicate n fill @ drop (i + n) px"
proof (induction fill n i px rule: fill_loop.induct)
  case (2 fill n i px)
  then have "fill_loop fill (Suc n) i px =
      take (Suc i) (px[i := fill]) @ replicate n fill @ drop (Suc i + n) (px[i := fill])" by simp
  also have "take (Suc i) (px[i := fill]) = take i px @ [fill]"
    using 2(2) by (simp add: take_Suc_conv_app_nth)
  finally show ?case by simp
qed simp

lemma fill_loop_const: "length px = n \<Longrightarrow> fill_loop fill n 0 px = replicate n fill"
  using fill_loop_all [of 0 n px fill] by simp


text \<open>
  A framebuffer that is created (successfully or not) and destroyed twice, as the decoder's error
  paths do, releases each resource once: \<open>destroy\_dumb\_fb\<close> leaves a zeroed struct.
\<close>

lemma destroy_dumb_fb_idempotent:
  "wp own (do { (r, fb) \<leftarrow> create_argb_fb E fd w h fill zero_fb;
                p \<leftarrow> destroy_dumb_fb fd (Some fb); destroy_dumb_fb fd p })
     (\<lambda>_ M'. M' = M) M"
  by (rule dumb_fb.create_destroy_twice)

text \<open>The pixels that are written to mapped memory.\<close>

definition stores :: "event \<Rightarrow> u32 list list \<Rightarrow> u32 list list" where
  "stores e s = (case e of Drm (EvStore _ px) \<Rightarrow> s @ [px] | _ \<Rightarrow> s)"

text \<open>
  C37. When the creation succeeds, the one thing written to memory is the requested colour in every
  pixel of the mapping: the \<open>size / 4\<close> pixels of a mapping that is as long as the buffer.
\<close>

theorem create_argb_fb_fills:
  assumes "\<And>t fd sz p px. e_mmap (drm E) t fd sz = Some (p, px) \<Longrightarrow> length px = unat sz div 4"
  shows "wp (observe stores) (create_argb_fb E fd w h fill fb)
     (\<lambda>(r, fb') px. px = (if r = 0 then [replicate (unat (fb_size fb') div 4) fill] else [])) []"
proof -
  have len: "length (snd m) = unat sz div 4" if "e_mmap (drm E) t fd sz = Some m" for t fd sz m
    using assms [of t fd sz "fst m" "snd m"] that by simp
  show ?thesis
    unfolding create_argb_fb_def
    by (intro wp_intros observe_intros) (auto simp: stores_def fill_loop_const len)
qed

text \<open>A kernel that grants everything, with a mapping of 16 bytes.\<close>

definition granting_env :: env where
  "granting_env = null_env\<lparr>drm := calm_drm
     \<lparr>e_create_dumb := \<lambda>_ _ _ _ _. Some \<lparr>dumb_handle = 5, dumb_pitch = 8, dumb_size = 16\<rparr>,
      e_add_fb2 := \<lambda>_ _ _ _ _. Some 6, e_map_dumb := \<lambda>_ _ _. Some 4096,
      e_mmap := \<lambda>_ _ sz. Some (7, replicate (unat sz div 4) 0)\<rparr>\<rparr>"

theorem create_argb_fb_fills_witness:
  "wp (observe stores) (create_argb_fb granting_env 3 2 2 0xFF000000 zero_fb)
     (\<lambda>x px. fst x = 0 \<longrightarrow> px = [replicate (unat (fb_size (snd x)) div 4) 0xFF000000]) []
   \<and> fst (fst (run_state (create_argb_fb granting_env 3 2 2 0xFF000000 zero_fb) [])) = 0"
proof
  show "wp (observe stores) (create_argb_fb granting_env 3 2 2 0xFF000000 zero_fb)
     (\<lambda>x px. fst x = 0 \<longrightarrow> px = [replicate (unat (fb_size (snd x)) div 4) 0xFF000000]) []"
    by (rule wp_mono [OF create_argb_fb_fills]) (auto simp: granting_env_def)
  show "fst (fst (run_state (create_argb_fb granting_env 3 2 2 0xFF000000 zero_fb) [])) = 0"
    by (simp add: create_argb_fb_def granting_env_def)
qed

end
