(* ===== verification/Drm_Modeset.thy ===== *)
theory Drm_Modeset
  imports Config Doubles Drm_Fb
begin

text \<open>
  \<open>src/drm\_modeset.c\<close>: the choice of a connector, of its best mode and of a CRTC that can drive it,
  and the atomic commit that puts a black framebuffer on the configured plane. \<open>Mode_Order\<close> shows
  what \<open>better\_mode\<close> orders by.
\<close>

section \<open>Modes\<close>

definition conn_type_str :: "u32 \<Rightarrow> string" where
  "conn_type_str t =
     (if t = 11 then ''HDMI-A'' else if t = 12 then ''HDMI-B'' else if t = 10 then ''DP''
      else if t = 14 then ''eDP'' else if t = 1 then ''VGA'' else ''UNKNOWN'')"

text \<open>
  \<open>htotal * vtotal\<close> is an \<open>int\<close> product of two promoted \<open>uint16\_t\<close>; beyond \<open>INT\_MAX\<close> C leaves it
  undefined and the model takes the wrapped value.
\<close>

definition vrefresh :: "drmModeModeInfo \<Rightarrow> int" where
  "vrefresh m =
     (if mode_vrefresh m \<noteq> 0 then cast_int (uint (mode_vrefresh m))
      else if htotal m \<noteq> 0 \<and> vtotal m \<noteq> 0 then
        (let hz = d_div (d_mul (d_int (uint (clock m))) (d_int 1000))
                        (d_int (cast_int (uint (htotal m) * uint (vtotal m))))
         in d_to_int (d_add hz (Fin (1/2))))
      else 0)"

definition better_mode :: "drmModeModeInfo \<Rightarrow> drmModeModeInfo \<Rightarrow> bool" where
  "better_mode a b =
     (let ahz = vrefresh a; bhz = vrefresh b in
      if ahz \<noteq> bhz then bhz < ahz
      else let aa = uint (hdisplay a) * uint (vdisplay a); bb = uint (hdisplay b) * uint (vdisplay b) in
        if aa \<noteq> bb then bb < aa
        else let ap = (if and (mode_type a) DRM_MODE_TYPE_PREFERRED \<noteq> 0 then 1 else 0 :: int);
                 bp = (if and (mode_type b) DRM_MODE_TYPE_PREFERRED \<noteq> 0 then 1 else 0) in
          if ap \<noteq> bp then bp < ap else clock b < clock a)"

text \<open>The loop over \<open>c->modes[1..count_modes)\<close>.\<close>

fun best_loop :: "drmModeModeInfo \<Rightarrow> drmModeModeInfo list \<Rightarrow> drmModeModeInfo" where
  "best_loop best [] = best"
| "best_loop best (m # ms) = best_loop (if better_mode m best then m else best) ms"

definition zero_mode :: drmModeModeInfo where
  "zero_mode = \<lparr>clock = 0, hdisplay = 0, htotal = 0, vdisplay = 0, vtotal = 0, mode_vrefresh = 0,
     mode_type = 0, mode_name = []\<rparr>"

section \<open>Connector and CRTC\<close>

text \<open>\<open>snprintf(cname, sizeof(cname), "%s-%u", ...)\<close> into 32 bytes.\<close>

definition connector_cname :: "drmModeConnector \<Rightarrow> string" where
  "connector_cname c =
     take 31 (conn_type_str (connector_type c) @ ''-'' @ dec_nat (unat (connector_type_id c)))"

definition name_allows :: "AppCfg \<Rightarrow> drmModeConnector \<Rightarrow> bool" where
  "name_allows cfg c \<longleftrightarrow> connector_name cfg = [] \<or> connector_name cfg = connector_cname c"

text \<open>
  The two variables \<open>crtc\<close> and \<open>crtc_id\<close>, which the loops update; \<open>ci\<close> counts the CRTCs. There are at
  most 32 (the kernel's mask has no more bits), so \<open>1 << ci\<close> is a bit of the mask.
\<close>

fun crtc_loop ::
    "env \<Rightarrow> int \<Rightarrow> u32 \<Rightarrow> nat \<Rightarrow> u32 list \<Rightarrow> drmModeCrtc option \<times> int \<Rightarrow> (drmModeCrtc option \<times> int) io" where
  "crtc_loop E fd possible ci [] st = ret st"
| "crtc_loop E fd possible ci (n # ns) (crtc, crtc_id) =
     (if and possible (push_bit ci 1) \<noteq> 0 then do {
        crtc \<leftarrow> drmModeGetCrtc E fd n;
        case crtc of
          Some c \<Rightarrow> ret (Some c, cast_int (uint (crtc_object_id c)))
        | None \<Rightarrow> crtc_loop E fd possible (Suc ci) ns (None, crtc_id)
      } else crtc_loop E fd possible (Suc ci) ns (crtc, crtc_id))"

fun encoder_loop ::
    "env \<Rightarrow> int \<Rightarrow> u32 list \<Rightarrow> u32 list \<Rightarrow> drmModeCrtc option \<times> int \<Rightarrow> (drmModeCrtc option \<times> int) io" where
  "encoder_loop E fd crtcs [] st = ret st"
| "encoder_loop E fd crtcs (e # es) (crtc, crtc_id) =
     (if crtc_id < 0 then do {
        e2 \<leftarrow> drmModeGetEncoder E fd e;
        case e2 of
          None \<Rightarrow> encoder_loop E fd crtcs es (crtc, crtc_id)
        | Some e2 \<Rightarrow> do {
            st \<leftarrow> crtc_loop E fd (enc_possible_crtcs e2) 0 crtcs (crtc, crtc_id);
            drm_free (enc_ptr e2);
            encoder_loop E fd crtcs es st
          }
      } else ret (crtc, crtc_id))"

text \<open>The CRTC of the connector's own encoder, and if there is none the first that an encoder can use.\<close>

definition pick_crtc ::
    "env \<Rightarrow> int \<Rightarrow> drmModeRes \<Rightarrow> drmModeConnector \<Rightarrow> drmModeCrtc option \<Rightarrow> (drmModeCrtc option \<times> int) io" where
  "pick_crtc E fd res c crtc = do {
     enc \<leftarrow> (if conn_encoder_id c \<noteq> 0 then drmModeGetEncoder E fd (conn_encoder_id c) else ret None);
     st \<leftarrow> (case enc of
              Some enc \<Rightarrow>
                if enc_crtc_id enc \<noteq> 0 then do {
                  crtc \<leftarrow> drmModeGetCrtc E fd (enc_crtc_id enc);
                  ret (crtc, case crtc of Some c \<Rightarrow> cast_int (uint (crtc_object_id c)) | None \<Rightarrow> -1)
                } else ret (crtc, -1)
            | None \<Rightarrow> ret (crtc, -1));
     st \<leftarrow> (if snd st < 0 then encoder_loop E fd (res_crtcs res) (conn_encoders c) st else ret st);
     (case enc of Some enc \<Rightarrow> drm_free (enc_ptr enc) | None \<Rightarrow> ret ());
     ret st
   }"

text \<open>The loop over the connectors: the connector, the CRTC and the mode it ends with.\<close>

fun connector_loop ::
    "env \<Rightarrow> int \<Rightarrow> AppCfg \<Rightarrow> drmModeRes \<Rightarrow> u32 list \<Rightarrow> drmModeCrtc option \<times> drmModeModeInfo \<Rightarrow>
     (drmModeConnector option \<times> drmModeCrtc option \<times> drmModeModeInfo) io" where
  "connector_loop E fd cfg res [] (crtc, best) = ret (None, crtc, best)"
| "connector_loop E fd cfg res (n # ns) (crtc, best) = do {
     c \<leftarrow> drmModeGetConnector E fd n;
     case c of
       None \<Rightarrow> connector_loop E fd cfg res ns (crtc, best)
     | Some c \<Rightarrow>
         if connection c = DRM_MODE_CONNECTED \<and> conn_modes c \<noteq> [] \<and> name_allows cfg c then do {
           let best = best_loop (hd (conn_modes c)) (tl (conn_modes c));
           (crtc, crtc_id) \<leftarrow> pick_crtc E fd res c crtc;
           if 0 \<le> crtc_id \<and> crtc \<noteq> None then ret (Some c, crtc, best)
           else do { drm_free (conn_ptr c); connector_loop E fd cfg res ns (crtc, best) }
         } else do { drm_free (conn_ptr c); connector_loop E fd cfg res ns (crtc, best) }
   }"

section \<open>The commit\<close>

record ModesetResult =
  ms_connector_id :: u32
  ms_crtc_id :: u32
  ms_mode_w :: int
  ms_mode_h :: int
  ms_mode_hz :: int

text \<open>A run of \<open>drm_get_prop_id\<close> calls into cells that hold 0, and one of \<open>drmModeAtomicAddProperty\<close>.\<close>

fun get_prop_ids :: "env \<Rightarrow> int \<Rightarrow> u32 \<Rightarrow> u32 \<Rightarrow> string list \<Rightarrow> u32 list io" where
  "get_prop_ids E fd obj ty [] = ret []"
| "get_prop_ids E fd obj ty (name # names) = do {
     (_, n) \<leftarrow> drm_get_prop_id E fd obj ty name 0;
     ns \<leftarrow> get_prop_ids E fd obj ty names;
     ret (n # ns)
   }"

fun add_props :: "ptr \<Rightarrow> u32 \<Rightarrow> (u32 \<times> u64) list \<Rightarrow> unit io" where
  "add_props req obj [] = ret ()"
| "add_props req obj ((prop, v) # ps) = do {
     drmModeAtomicAddProperty req obj prop v;
     add_props req obj ps
   }"

definition plane_prop_names :: "string list" where
  "plane_prop_names = [''FB_ID'', ''CRTC_ID'', ''CRTC_X'', ''CRTC_Y'', ''CRTC_W'', ''CRTC_H'',
     ''SRC_X'', ''SRC_Y'', ''SRC_W'', ''SRC_H'']"

text \<open>The values of those properties for a whole framebuffer shown on the whole of the mode.\<close>

definition full_plane_values :: "u32 \<Rightarrow> u32 \<Rightarrow> int \<Rightarrow> int \<Rightarrow> u64 list" where
  "full_plane_values fb crtc w h =
     [ucast fb, ucast crtc, 0, 0, word_of_int w, word_of_int h, 0, 0,
      push_bit 16 (word_of_int w), push_bit 16 (word_of_int h)]"

definition build_request ::
    "env \<Rightarrow> int \<Rightarrow> AppCfg \<Rightarrow> drmModeConnector \<Rightarrow> drmModeCrtc \<Rightarrow> DumbFB \<Rightarrow> u32 \<Rightarrow> int \<Rightarrow> int \<Rightarrow> ptr \<Rightarrow> unit io" where
  "build_request E fd cfg conn crtc fb mode_blob w h req = do {
     crtc_props \<leftarrow> get_prop_ids E fd (crtc_object_id crtc) DRM_MODE_OBJECT_CRTC [''ACTIVE'', ''MODE_ID''];
     add_props req (crtc_object_id crtc) (zip crtc_props [1, ucast mode_blob]);
     conn_props \<leftarrow> get_prop_ids E fd (conn_id conn) DRM_MODE_OBJECT_CONNECTOR [''CRTC_ID''];
     add_props req (conn_id conn) (zip conn_props [ucast (crtc_object_id crtc)]);
     let plane = word_of_int (plane_id cfg);
     (zr, zid, _, zmax) \<leftarrow> drm_get_prop_id_and_range_ci E fd plane DRM_MODE_OBJECT_PLANE ''ZPOS'' (0, 0, 0)
       (Some ''zpos'');
     props \<leftarrow> get_prop_ids E fd plane DRM_MODE_OBJECT_PLANE plane_prop_names;
     add_props req plane (zip props (full_plane_values (fb_id fb) (crtc_object_id crtc) w h));
     io_when (zr = 0) (drmModeAtomicAddProperty req plane zid zmax)
   }"

definition free_choice :: "drmModeRes \<Rightarrow> drmModeConnector \<Rightarrow> drmModeCrtc \<Rightarrow> unit io" where
  "free_choice res conn crtc = do {
     drm_free (conn_ptr conn);
     drm_free (crtc_ptr crtc);
     drm_free (res_ptr res)
   }"

text \<open>From the choice on. \<open>out\<close> is the caller's struct, or NULL.\<close>

definition commit_choice ::
    "env \<Rightarrow> int \<Rightarrow> AppCfg \<Rightarrow> drmModeRes \<Rightarrow> drmModeConnector \<Rightarrow> drmModeCrtc \<Rightarrow> drmModeModeInfo \<Rightarrow>
     ModesetResult option \<Rightarrow> (int \<times> ModesetResult option) io" where
  "commit_choice E fd cfg res conn crtc best out = do {
     let w = uint (hdisplay best);
     let h = uint (vdisplay best);
     let hz = vrefresh best;
     (r, fb) \<leftarrow> create_argb_fb E fd w h 0xFF000000 zero_fb;
     if r \<noteq> 0 then do { free_choice res conn crtc; ret (-3, out) }
     else do {
       blob \<leftarrow> drmModeCreatePropertyBlob E fd best;
       case blob of
         None \<Rightarrow> do { _ \<leftarrow> destroy_dumb_fb fd (Some fb); free_choice res conn crtc; ret (-4, out) }
       | Some mode_blob \<Rightarrow> do {
           req \<leftarrow> drmModeAtomicAlloc E;
           if req = 0 then do {
             drmModeDestroyPropertyBlob fd mode_blob;
             _ \<leftarrow> destroy_dumb_fb fd (Some fb);
             free_choice res conn crtc;
             ret (-5, out)
           } else do {
             build_request E fd cfg conn crtc fb mode_blob w h req;
             (r, _) \<leftarrow> drmModeAtomicCommit E fd req DRM_MODE_ATOMIC_ALLOW_MODESET;
             drmModeAtomicFree req;
             drmModeDestroyPropertyBlob fd mode_blob;
             _ \<leftarrow> destroy_dumb_fb fd (Some fb);
             free_choice res conn crtc;
             if r \<noteq> 0 then ret (-9, out)
             else ret (0, map_option (\<lambda>_. \<lparr>ms_connector_id = conn_id conn, ms_crtc_id = crtc_object_id crtc,
                                      ms_mode_w = w, ms_mode_h = h, ms_mode_hz = hz\<rparr>) out)
           }
         }
     }
   }"

definition atomic_modeset_maxhz ::
    "env \<Rightarrow> int \<Rightarrow> AppCfg \<Rightarrow> ModesetResult option \<Rightarrow> (int \<times> ModesetResult option) io" where
  "atomic_modeset_maxhz E fd cfg out = do {
     _ \<leftarrow> drmSetClientCap E fd DRM_CLIENT_CAP_UNIVERSAL_PLANES 1;
     _ \<leftarrow> drmSetClientCap E fd DRM_CLIENT_CAP_ATOMIC 1;
     res \<leftarrow> drmModeGetResources E fd;
     case res of
       None \<Rightarrow> ret (-1, out)
     | Some res \<Rightarrow> do {
         (conn, crtc, best) \<leftarrow> connector_loop E fd cfg res (res_connectors res) (None, zero_mode);
         case (conn, crtc) of
           (Some conn, Some crtc) \<Rightarrow> commit_choice E fd cfg res conn crtc best out
         | _ \<Rightarrow> do { drm_free (res_ptr res); ret (-2, out) }
       }
   }"

text \<open>The hot-plug check.\<close>

fun connected_loop :: "env \<Rightarrow> int \<Rightarrow> AppCfg \<Rightarrow> u32 list \<Rightarrow> bool io" where
  "connected_loop E fd cfg [] = ret False"
| "connected_loop E fd cfg (n # ns) = do {
     c \<leftarrow> drmModeGetConnector E fd n;
     case c of
       None \<Rightarrow> connected_loop E fd cfg ns
     | Some c \<Rightarrow>
         if connection c = DRM_MODE_CONNECTED \<and> name_allows cfg c
         then do { drm_free (conn_ptr c); ret True }
         else do { drm_free (conn_ptr c); connected_loop E fd cfg ns }
   }"

definition is_any_connected :: "env \<Rightarrow> int \<Rightarrow> AppCfg \<Rightarrow> int io" where
  "is_any_connected E fd cfg = do {
     res \<leftarrow> drmModeGetResources E fd;
     case res of
       None \<Rightarrow> ret 0
     | Some res \<Rightarrow> do {
         connected \<leftarrow> connected_loop E fd cfg (res_connectors res);
         drm_free (res_ptr res);
         ret (if connected then 1 else 0)
       }
   }"

end
