(* ===== verification/Service.thy ===== *)
theory Service
  imports Media_Calls
begin

text \<open>
  The life cycle that the receiver and the decoder offer their client: an object (or NULL) that is
  started, stopped and at last destroyed, as often and in whichever order the client likes. The
  provider promises that each operation keeps the object's invariant and that the object owns exactly
  \<open>owned\<close> around each of them; the client then never leaks and never releases twice.
\<close>

datatype service_op = OpStart | OpStop

locale service =
  fixes inv :: "'o \<Rightarrow> bool"
    and owned :: "'o \<Rightarrow> resource multiset"
    and start :: "'o \<Rightarrow> (int \<times> 'o) io"
    and stop :: "'o \<Rightarrow> 'o io"
    and destroy :: "'o \<Rightarrow> unit io"
  assumes start_keeps: "inv ob \<Longrightarrow>
      wp own (start ob) (\<lambda>(r, ob') M'. inv ob' \<and> M' = M + owned ob' \<and> (r = 0 \<or> r = -1)) (M + owned ob)"
    and stop_keeps: "inv ob \<Longrightarrow>
      wp own (stop ob) (\<lambda>ob' M'. inv ob' \<and> M' = M + owned ob') (M + owned ob)"
    and destroy_releases: "inv ob \<Longrightarrow> wp own (destroy ob) (\<lambda>_ M'. M' = M) (M + owned ob)"
begin

fun run_ops :: "service_op list \<Rightarrow> 'o \<Rightarrow> 'o io" where
  "run_ops [] ob = ret ob"
| "run_ops (OpStart # ops) ob = do { (r, ob') \<leftarrow> start ob; run_ops ops ob' }"
| "run_ops (OpStop # ops) ob = do { ob' \<leftarrow> stop ob; run_ops ops ob' }"

lemma run_ops_keeps:
  "inv ob \<Longrightarrow> wp own (run_ops ops ob) (\<lambda>ob' M'. inv ob' \<and> M' = M + owned ob') (M + owned ob)"
proof (induction ops ob rule: run_ops.induct)
  case (2 ops ob)
  show ?case
    by (simp, rule wp_bind, rule wp_mono [OF start_keeps [OF 2(2), of M]])
      (auto intro!: wp_case_prod 2(1))
next
  case (3 ops ob)
  show ?case
    by (simp, rule wp_bind, rule wp_mono [OF stop_keeps [OF 3(2), of M]]) (auto intro!: 3(1))
qed (auto intro: wp_return)

lemma run_ops_destroy:
  assumes "inv ob"
  shows "wp own (State_Monad.bind (run_ops ops ob) destroy) (\<lambda>_ M'. M' = M) (M + owned ob)"
  by (rule wp_bind, rule wp_mono [OF run_ops_keeps [OF assms, of ops M]])
    (auto intro: destroy_releases)

end

end
