(* ===== verification/Video_Decoder.thy ===== *)
theory Video_Decoder
  imports Drm_Modeset Service
begin

text \<open>
  \<open>src/video\_decoder.c\<close>, its state and its pure parts: the packet copy, the rectangle a frame is shown
  in, the timestamps. The planes are in \<open>Decoder\_Planes\<close>, the buffers and threads in \<open>Decoder\_Threads\<close>
  and the life cycle in \<open>Decoder\_Life\<close>. The ten \<open>prop\_*\<close> fields of a plane are one list, in the order of
  \<open>plane\_prop\_names\<close>.
\<close>

section \<open>State\<close>

definition DECODER_READ_BUF_SIZE :: nat where "DECODER_READ_BUF_SIZE = 1024 * 1024"
definition DECODER_MAX_FRAMES :: nat where "DECODER_MAX_FRAMES = 24"

record FrameSlot =
  slot_prime_fd :: int
  slot_fb_id :: u32
  slot_handle :: u32

record VideoDecoder =
  vd_initialized :: bool
  vd_running :: bool
  vd_frame_thread_running :: bool
  vd_display_thread_running :: bool
  vd_eos_received :: bool
  vd_lock_initialized :: bool
  vd_cond_initialized :: bool
  vd_drm_fd :: int
  vd_plane_id :: u32
  vd_crtc_id :: u32
  vd_mode_w :: int
  vd_mode_h :: int
  vd_src_w :: u32
  vd_src_h :: u32
  vd_props :: "u32 list"
  vd_background_fb :: DumbFB
  vd_background_plane_id :: u32
  vd_background_props :: "u32 list"
  vd_background_prop_zpos :: u32
  vd_background_has_zpos :: bool
  vd_background_initialized :: bool
  vd_ctx :: ptr
  vd_mpi :: ptr
  vd_frm_grp :: ptr
  vd_frame_map :: "FrameSlot list"
  vd_packet_buf :: "u8 list option"
  vd_packet_buf_size :: nat
  vd_packet :: ptr
  vd_pending_fb :: u32
  vd_pending_pts :: u64
  vd_frame_thread :: ptr
  vd_display_thread :: ptr

text \<open>\<open>memset(vd, 0, sizeof(*vd))\<close>, which is also what \<open>g\_new0\<close> gives.\<close>

definition zero_slot :: FrameSlot where
  "zero_slot = \<lparr>slot_prime_fd = 0, slot_fb_id = 0, slot_handle = 0\<rparr>"

definition zero_decoder :: VideoDecoder where
  "zero_decoder = \<lparr>vd_initialized = False, vd_running = False, vd_frame_thread_running = False,
     vd_display_thread_running = False, vd_eos_received = False, vd_lock_initialized = False,
     vd_cond_initialized = False, vd_drm_fd = 0, vd_plane_id = 0, vd_crtc_id = 0, vd_mode_w = 0,
     vd_mode_h = 0, vd_src_w = 0, vd_src_h = 0, vd_props = replicate 10 0, vd_background_fb = zero_fb,
     vd_background_plane_id = 0, vd_background_props = replicate 10 0, vd_background_prop_zpos = 0,
     vd_background_has_zpos = False, vd_background_initialized = False, vd_ctx = 0, vd_mpi = 0,
     vd_frm_grp = 0, vd_frame_map = replicate DECODER_MAX_FRAMES zero_slot, vd_packet_buf = None,
     vd_packet_buf_size = 0, vd_packet = 0, vd_pending_fb = 0, vd_pending_pts = 0, vd_frame_thread = 0,
     vd_display_thread = 0\<rparr>"

definition video_decoder_new :: "env \<Rightarrow> VideoDecoder option io" where
  "video_decoder_new E = do {
     ok \<leftarrow> g_alloc E VideoDecoderObj;
     ret (if ok then Some zero_decoder else None)
   }"

definition video_decoder_max_packet_size :: "VideoDecoder option \<Rightarrow> nat" where
  "video_decoder_max_packet_size p =
     (case p of None \<Rightarrow> DECODER_READ_BUF_SIZE
      | Some vd \<Rightarrow> if vd_packet_buf_size vd = 0 then DECODER_READ_BUF_SIZE else vd_packet_buf_size vd)"

section \<open>Timestamps\<close>

definition get_time_ms :: "env \<Rightarrow> u64 io" where
  "get_time_ms E = do {
     (sec, nsec) \<leftarrow> ask (\<lambda>t. e_clock (mpp E) t);
     ret (word_of_int sec * 1000 + word_of_int (nsec div 1000000))
   }"

definition gst_pts_to_mpp_timestamp :: "env \<Rightarrow> u64 \<Rightarrow> u64 io" where
  "gst_pts_to_mpp_timestamp E pts =
     (if pts = GST_CLOCK_TIME_NONE then get_time_ms E
      else ret (gst_util_uint64_scale E pts 1 GST_MSECOND))"

section \<open>The packet copy\<close>

text \<open>\<open>vst1q\_u8(dst + off, vld1q\_u8(src + off))\<close>: sixteen bytes at an offset.\<close>

definition vmove16 :: "u8 list \<Rightarrow> nat \<Rightarrow> u8 list \<Rightarrow> u8 list" where
  "vmove16 src off dst = take off dst @ take 16 (drop off src) @ drop (off + 16) dst"

function burst64 :: "u8 list \<Rightarrow> nat \<Rightarrow> nat \<Rightarrow> u8 list \<Rightarrow> nat \<times> u8 list" where
  "burst64 src n off dst =
     (if off + 64 \<le> n
      then burst64 src n (off + 64)
        (vmove16 src (off + 48) (vmove16 src (off + 32) (vmove16 src (off + 16) (vmove16 src off dst))))
      else (off, dst))"
  by auto
termination by (relation "measure (\<lambda>(src, n, off, dst). n - off)") auto

function burst16 :: "u8 list \<Rightarrow> nat \<Rightarrow> nat \<Rightarrow> u8 list \<Rightarrow> nat \<times> u8 list" where
  "burst16 src n off dst =
     (if off + 16 \<le> n then burst16 src n (off + 16) (vmove16 src off dst) else (off, dst))"
  by auto
termination by (relation "measure (\<lambda>(src, n, off, dst). n - off)") auto

declare burst64.simps [simp del] burst16.simps [simp del]

text \<open>\<open>neon\<close> is the build's \<open>PIXELPILOT\_NEON\_AVAILABLE\<close>.\<close>

definition copy_packet_data :: "bool \<Rightarrow> u8 list \<Rightarrow> u8 list \<Rightarrow> nat \<Rightarrow> u8 list" where
  "copy_packet_data neon dst src n =
     (if neon then
        (if n = 0 then dst
         else case burst64 src n 0 dst of (off, dst) \<Rightarrow>
           (case burst16 src n off dst of (off, dst) \<Rightarrow>
              if off < n then take off dst @ memcpy (drop off dst) (drop off src) (n - off) else dst))
      else if 0 < n then memcpy dst src n else dst)"

section \<open>The rectangle of a frame\<close>

text \<open>
  \<open>commit\_plane\<close> between the choice of the source size and the request: the frame is scaled to the
  screen with its aspect kept, and centred. The variables are \<open>uint32\_t\<close>, and so are the comparisons.
\<close>

definition fit_frame :: "int \<Rightarrow> int \<Rightarrow> u32 \<Rightarrow> u32 \<Rightarrow> u32 \<times> u32" where
  "fit_frame mode_w mode_h src_w src_h =
     (let mw = word_of_int mode_w; mh = word_of_int mode_h in
      if src_w \<noteq> 0 \<and> src_h \<noteq> 0 then
        (let mode_aspect = d_div (d_int mode_w) (d_int mode_h);
             src_aspect = d_div (d_int (uint src_w)) (d_int (uint src_h)) in
         if d_gt mode_aspect (Fin 0) \<and> d_gt src_aspect (Fin 0) then
           (if d_gt src_aspect mode_aspect then
              (let dst_h = word_of_int (d_to_u32 (d_add (d_div (d_int mode_w) src_aspect) (Fin (1/2)))) in
               (mw, if mh < dst_h then mh else dst_h))
            else
              (let dst_w = word_of_int (d_to_u32 (d_add (d_mul (d_int mode_h) src_aspect) (Fin (1/2)))) in
               (if mw < dst_w then mw else dst_w, mh)))
         else (mw, mh))
      else (mw, mh))"

definition centre :: "int \<Rightarrow> u32 \<Rightarrow> u32" where
  "centre mode_len len = (if len < word_of_int mode_len then (word_of_int mode_len - len) div 2 else 0)"

definition frame_rect :: "int \<Rightarrow> int \<Rightarrow> u32 \<Rightarrow> u32 \<Rightarrow> u32 \<times> u32 \<times> u32 \<times> u32" where
  "frame_rect mode_w mode_h src_w src_h =
     (let (w, h) = fit_frame mode_w mode_h src_w src_h;
          w = (if w = 0 then 1 else w);
          h = (if h = 0 then 1 else h)
      in (centre mode_w w, centre mode_h h, w, h))"

end
