(* ===== verification/Decoder_Planes.thy ===== *)
theory Decoder_Planes
  imports Video_Decoder
begin

text \<open>
  The planes of the decoder: the commit that shows a frame, the black background on the primary
  plane, and the frame buffers shared with MPP.
\<close>

definition EBUSY :: int where "EBUSY = 16"

section \<open>Showing a frame\<close>

text \<open>A commit that is retried with other flags when the kernel is busy.\<close>

definition commit_or_retry :: "env \<Rightarrow> int \<Rightarrow> ptr \<Rightarrow> u32 \<Rightarrow> u32 \<Rightarrow> int io" where
  "commit_or_retry E fd req flags again = do {
     (r, err) \<leftarrow> drmModeAtomicCommit E fd req flags;
     if r \<noteq> 0 \<and> err = EBUSY then do {
       (r, _) \<leftarrow> drmModeAtomicCommit E fd req again;
       ret r
     } else ret r
   }"

text \<open>The source size: the caller's, which is remembered, else the last one, else the mode's.\<close>

definition source_size :: "VideoDecoder \<Rightarrow> u32 \<Rightarrow> u32 \<Rightarrow> u32 \<times> u32 \<times> VideoDecoder" where
  "source_size vd w h =
     (let (w', vd) = (if w = 0
            then (if vd_src_w vd \<noteq> 0 then vd_src_w vd else word_of_int (vd_mode_w vd), vd)
            else (w, vd\<lparr>vd_src_w := w\<rparr>));
          (h', vd) = (if h = 0
            then (if vd_src_h vd \<noteq> 0 then vd_src_h vd else word_of_int (vd_mode_h vd), vd)
            else (h, vd\<lparr>vd_src_h := h\<rparr>))
      in (w', h', vd))"

definition plane_values :: "u32 \<Rightarrow> u32 \<Rightarrow> u32 \<times> u32 \<times> u32 \<times> u32 \<Rightarrow> u32 \<Rightarrow> u32 \<Rightarrow> u64 list" where
  "plane_values fb crtc rect src_w src_h =
     (case rect of (x, y, w, h) \<Rightarrow>
       [ucast fb, ucast crtc, ucast x, ucast y, ucast w, ucast h, 0, 0,
        push_bit 16 (ucast src_w), push_bit 16 (ucast src_h)])"

definition commit_plane :: "env \<Rightarrow> VideoDecoder \<Rightarrow> u32 \<Rightarrow> u32 \<Rightarrow> u32 \<Rightarrow> (int \<times> VideoDecoder) io" where
  "commit_plane E vd fb src_w src_h = do {
     req \<leftarrow> drmModeAtomicAlloc E;
     if req = 0 then ret (-1, vd)
     else do {
       let (w, h, vd) = source_size vd src_w src_h;
       let rect = frame_rect (vd_mode_w vd) (vd_mode_h vd) w h;
       add_props req (vd_plane_id vd) (zip (vd_props vd) (plane_values fb (vd_crtc_id vd) rect w h));
       r \<leftarrow> commit_or_retry E (vd_drm_fd vd) req DRM_MODE_ATOMIC_NONBLOCK 0;
       drmModeAtomicFree req;
       ret (r, vd)
     }
   }"

section \<open>The background\<close>

text \<open>The loop over \<open>res->crtcs\<close>.\<close>

fun index_loop :: "u32 \<Rightarrow> nat \<Rightarrow> u32 list \<Rightarrow> int" where
  "index_loop crtc i [] = -1"
| "index_loop crtc i (c # cs) = (if c = crtc then int i else index_loop crtc (Suc i) cs)"

definition find_crtc_index :: "env \<Rightarrow> int \<Rightarrow> u32 \<Rightarrow> int io" where
  "find_crtc_index E fd crtc = do {
     res \<leftarrow> drmModeGetResources E fd;
     case res of
       None \<Rightarrow> ret (-1)
     | Some res \<Rightarrow> do { drm_free (res_ptr res); ret (index_loop crtc 0 (res_crtcs res)) }
   }"

definition DRM_PLANE_TYPE_PRIMARY :: u64 where "DRM_PLANE_TYPE_PRIMARY = 1"

text \<open>The loop over a plane's properties: is its \<open>type\<close> primary?\<close>

fun type_loop :: "env \<Rightarrow> int \<Rightarrow> (u32 \<times> u64) list \<Rightarrow> bool io" where
  "type_loop E fd [] = ret False"
| "type_loop E fd ((p, v) # ps) = do {
     prop \<leftarrow> drmModeGetProperty E fd p;
     case prop of
       None \<Rightarrow> type_loop E fd ps
     | Some prop \<Rightarrow>
         if prop_name prop = ''type'' then do { drm_free (prop_ptr prop); ret (v = DRM_PLANE_TYPE_PRIMARY) }
         else do { drm_free (prop_ptr prop); type_loop E fd ps }
   }"

text \<open>The loop over the planes: the first primary plane of the CRTC, or 0.\<close>

fun plane_loop :: "env \<Rightarrow> int \<Rightarrow> nat \<Rightarrow> u32 list \<Rightarrow> u32 io" where
  "plane_loop E fd crtc_index [] = ret 0"
| "plane_loop E fd crtc_index (n # ns) = do {
     plane \<leftarrow> drmModeGetPlane E fd n;
     case plane of
       None \<Rightarrow> plane_loop E fd crtc_index ns
     | Some plane \<Rightarrow>
         if and (plane_possible_crtcs plane) (push_bit crtc_index 1) = 0
         then do { drm_free (plane_ptr plane); plane_loop E fd crtc_index ns }
         else do {
           props \<leftarrow> drmModeObjectGetProperties E fd (plane_object_id plane) DRM_MODE_OBJECT_PLANE;
           case props of
             None \<Rightarrow> do { drm_free (plane_ptr plane); plane_loop E fd crtc_index ns }
           | Some props \<Rightarrow> do {
               is_primary \<leftarrow> type_loop E fd (zip (oprops props) (oprop_values props));
               drm_free (oprops_ptr props);
               drm_free (plane_ptr plane);
               if is_primary then ret (plane_object_id plane) else plane_loop E fd crtc_index ns
             }
         }
   }"

text \<open>The chain of \<open>drm\_get\_prop\_id(...) != 0 ||\<close> over the cells of a plane's properties.\<close>

fun query_props :: "env \<Rightarrow> int \<Rightarrow> u32 \<Rightarrow> string list \<Rightarrow> u32 list \<Rightarrow> (bool \<times> u32 list) io" where
  "query_props E fd obj (name # names) (cell # cells) = do {
     (r, n) \<leftarrow> drm_get_prop_id E fd obj DRM_MODE_OBJECT_PLANE name cell;
     if r \<noteq> 0 then ret (False, n # cells)
     else do {
       (ok, ns) \<leftarrow> query_props E fd obj names cells;
       ret (ok, n # ns)
     }
   }"
| "query_props E fd obj names cells = ret (True, cells)"

definition drop_background :: "VideoDecoder \<Rightarrow> VideoDecoder io" where
  "drop_background vd = do {
     _ \<leftarrow> destroy_dumb_fb (vd_drm_fd vd) (Some (vd_background_fb vd));
     ret (vd\<lparr>vd_background_fb := zero_fb\<rparr>)
   }"

text \<open>From the framebuffer on: fill the request, commit it, remember the plane.\<close>

definition show_background :: "env \<Rightarrow> VideoDecoder \<Rightarrow> u32 \<Rightarrow> u64 \<Rightarrow> (bool \<times> VideoDecoder) io" where
  "show_background E vd plane zmin = do {
     req \<leftarrow> drmModeAtomicAlloc E;
     if req = 0 then do {
       vd \<leftarrow> drop_background vd;
       ret (False, vd\<lparr>vd_background_has_zpos := False\<rparr>)
     } else do {
       add_props req plane (zip (vd_background_props vd)
         (full_plane_values (fb_id (vd_background_fb vd)) (vd_crtc_id vd) (vd_mode_w vd) (vd_mode_h vd)));
       io_when (vd_background_has_zpos vd) (drmModeAtomicAddProperty req plane (vd_background_prop_zpos vd) zmin);
       r \<leftarrow> commit_or_retry E (vd_drm_fd vd) req 0 DRM_MODE_ATOMIC_ALLOW_MODESET;
       drmModeAtomicFree req;
       if r \<noteq> 0 then do {
         vd \<leftarrow> drop_background vd;
         ret (False, vd\<lparr>vd_background_has_zpos := False\<rparr>)
       } else ret (True, vd\<lparr>vd_background_plane_id := plane, vd_background_initialized := True\<rparr>)
     }
   }"

definition primary_plane :: "env \<Rightarrow> VideoDecoder \<Rightarrow> u32 io" where
  "primary_plane E vd = do {
     crtc_index \<leftarrow> find_crtc_index E (vd_drm_fd vd) (vd_crtc_id vd);
     if crtc_index < 0 then ret 0
     else do {
       pres \<leftarrow> drmModeGetPlaneResources E (vd_drm_fd vd);
       case pres of
         None \<Rightarrow> ret 0
       | Some pres \<Rightarrow> do {
           p \<leftarrow> plane_loop E (vd_drm_fd vd) (nat crtc_index) (pres_planes pres);
           drm_free (pres_ptr pres);
           ret p
         }
     }
   }"

definition setup_black_background :: "env \<Rightarrow> VideoDecoder \<Rightarrow> (bool \<times> VideoDecoder) io" where
  "setup_black_background E vd =
     (if vd_background_initialized vd then ret (True, vd)
      else do {
        plane \<leftarrow> primary_plane E vd;
        if plane = 0 \<or> plane = vd_plane_id vd then ret (False, vd)
        else do {
          (r, fb) \<leftarrow> create_argb_fb E (vd_drm_fd vd) (vd_mode_w vd) (vd_mode_h vd) 0xFF000000 (vd_background_fb vd);
          if r \<noteq> 0 then ret (False, vd\<lparr>vd_background_fb := zero_fb\<rparr>)
          else do {
            let vd = vd\<lparr>vd_background_fb := fb\<rparr>;
            (ok, props) \<leftarrow> query_props E (vd_drm_fd vd) plane plane_prop_names (vd_background_props vd);
            let vd = vd\<lparr>vd_background_props := props\<rparr>;
            if \<not> ok then do { vd \<leftarrow> drop_background vd; ret (False, vd) }
            else do {
              (zr, zid, zmin, _) \<leftarrow> drm_get_prop_id_and_range_ci E (vd_drm_fd vd) plane DRM_MODE_OBJECT_PLANE
                ''ZPOS'' (vd_background_prop_zpos vd, 0, 0) (Some ''zpos'');
              show_background E (vd\<lparr>vd_background_prop_zpos := zid, vd_background_has_zpos := (zr = 0)\<rparr>) plane zmin
            }
          }
        }
      })"

text \<open>Taking the plane down again.\<close>

definition disable_background :: "env \<Rightarrow> VideoDecoder \<Rightarrow> unit io" where
  "disable_background E vd = do {
     req \<leftarrow> drmModeAtomicAlloc E;
     if req = 0 then ret ()
     else do {
       add_props req (vd_background_plane_id vd) (zip (take 2 (vd_background_props vd)) [0, 0]);
       _ \<leftarrow> drmModeAtomicCommit E (vd_drm_fd vd) req 0;
       drmModeAtomicFree req
     }
   }"

definition teardown_background :: "env \<Rightarrow> VideoDecoder \<Rightarrow> VideoDecoder io" where
  "teardown_background E vd =
     (if \<not> vd_background_initialized vd \<and> fb_id (vd_background_fb vd) = 0 then ret vd
      else do {
        io_when (vd_background_initialized vd) (disable_background E vd);
        vd \<leftarrow> (if fb_id (vd_background_fb vd) \<noteq> 0 then drop_background vd else ret vd);
        ret (vd\<lparr>vd_background_plane_id := 0, vd_background_initialized := False, vd_background_has_zpos := False\<rparr>)
      })"

end
