(* ===== verification/Decoder_Frames.thy ===== *)
theory Decoder_Frames
  imports Decoder_Planes
begin

text \<open>
  The decoder's threads and what they work on: the frame buffers shared between DRM and MPP, one turn
  of the frame thread's loop, and one look of the display thread at the pending frame.
\<close>

section \<open>The frame buffers\<close>

definition free_slot :: FrameSlot where
  "free_slot = \<lparr>slot_prime_fd = -1, slot_fb_id = 0, slot_handle = 0\<rparr>"

definition reset_frame_map :: "VideoDecoder \<Rightarrow> VideoDecoder" where
  "reset_frame_map vd = vd\<lparr>vd_frame_map := replicate DECODER_MAX_FRAMES free_slot\<rparr>"

definition release_slot :: "int \<Rightarrow> FrameSlot \<Rightarrow> FrameSlot io" where
  "release_slot fd s = do {
     io_when (slot_fb_id s \<noteq> 0) (drmModeRmFB fd (slot_fb_id s));
     io_when (0 \<le> slot_prime_fd s) (sys_close (slot_prime_fd s));
     io_when (slot_handle s \<noteq> 0) (drm_destroy_dumb fd (slot_handle s));
     ret \<lparr>slot_prime_fd = (if 0 \<le> slot_prime_fd s then -1 else slot_prime_fd s), slot_fb_id = 0, slot_handle = 0\<rparr>
   }"

fun release_slots :: "int \<Rightarrow> FrameSlot list \<Rightarrow> FrameSlot list io" where
  "release_slots fd [] = ret []"
| "release_slots fd (s # ss) = do {
     s \<leftarrow> release_slot fd s;
     ss \<leftarrow> release_slots fd ss;
     ret (s # ss)
   }"

definition release_frame_group :: "VideoDecoder \<Rightarrow> VideoDecoder io" where
  "release_frame_group vd =
     (if vd_frm_grp vd = 0 then ret vd
      else do {
        slots \<leftarrow> release_slots (vd_drm_fd vd) (vd_frame_map vd);
        mpp_buffer_group_clear (vd_frm_grp vd);
        mpp_buffer_group_put (vd_frm_grp vd);
        ret (vd\<lparr>vd_frame_map := slots, vd_frm_grp := 0, vd_src_w := 0, vd_src_h := 0\<rparr>)
      })"

text \<open>
  \<open>do ... while (ret == -1 && (errno == EINTR || errno == EAGAIN))\<close> around an ioctl: the environment
  says how often it is interrupted, finitely often.
\<close>

fun interrupted :: "int \<Rightarrow> nat \<Rightarrow> unit io" where
  "interrupted fd 0 = ret ()"
| "interrupted fd (Suc n) = do { ioctl_interrupted fd; interrupted fd n }"

definition retry_ioctl :: "env \<Rightarrow> int \<Rightarrow> 'a io \<Rightarrow> 'a io" where
  "retry_ioctl E fd call = do {
     n \<leftarrow> ask (\<lambda>t. e_interrupts (mpp E) t);
     interrupted fd n;
     call
   }"

definition DRM_FORMAT_NV12 :: u32 where "DRM_FORMAT_NV12 = 0x3231564E"
definition MPP_FMT_YUV420SP :: int where "MPP_FMT_YUV420SP = 0"
definition MPP_FMT_YUV420SP_10BIT :: int where "MPP_FMT_YUV420SP_10BIT = 1"

text \<open>A slot's dumb buffer as a framebuffer: luma, and the chroma behind it.\<close>

definition add_slot_fb :: "env \<Rightarrow> int \<Rightarrow> mpp_frame \<Rightarrow> dumb_buffer \<Rightarrow> FrameSlot \<Rightarrow> FrameSlot io" where
  "add_slot_fb E fd f d s = do {
     fb \<leftarrow> drmModeAddFB2 E fd (frame_width f) (frame_height f) DRM_FORMAT_NV12
       [slot_handle s, slot_handle s, 0, 0] [dumb_pitch d, dumb_pitch d, 0, 0]
       [0, dumb_pitch d * frame_ver_stride f, 0, 0];
     ret (case fb of None \<Rightarrow> s | Some n \<Rightarrow> s\<lparr>slot_fb_id := n\<rparr>)
   }"

text \<open>One turn of the loop over the slots; each failure leaves the slot as far as it got.\<close>

definition fill_slot :: "env \<Rightarrow> int \<Rightarrow> ptr \<Rightarrow> mpp_frame \<Rightarrow> FrameSlot \<Rightarrow> FrameSlot io" where
  "fill_slot E fd grp f s = do {
     d \<leftarrow> retry_ioctl E fd (drm_create_dumb E fd (frame_hor_stride f) (frame_ver_stride f * 2)
       (if frame_fmt f = MPP_FMT_YUV420SP then 8 else 10));
     case d of
       None \<Rightarrow> ret s
     | Some d \<Rightarrow> do {
         let s = s\<lparr>slot_handle := dumb_handle d\<rparr>;
         p \<leftarrow> retry_ioctl E fd (drm_prime_handle_to_fd E fd (dumb_handle d));
         case p of
           None \<Rightarrow> ret s
         | Some prime \<Rightarrow> do {
             info \<leftarrow> mpp_buffer_commit E grp prime (dumb_size d);
             case info of
               None \<Rightarrow> do { sys_close prime; ret s }
             | Some info_fd \<Rightarrow> do {
                 io_when (prime \<noteq> info_fd) (sys_close prime);
                 add_slot_fb E fd f d (s\<lparr>slot_prime_fd := info_fd\<rparr>)
               }
           }
       }
   }"

fun fill_slots :: "env \<Rightarrow> int \<Rightarrow> ptr \<Rightarrow> mpp_frame \<Rightarrow> FrameSlot list \<Rightarrow> FrameSlot list io" where
  "fill_slots E fd grp f [] = ret []"
| "fill_slots E fd grp f (s # ss) = do {
     s \<leftarrow> fill_slot E fd grp f s;
     ss \<leftarrow> fill_slots E fd grp f ss;
     ret (s # ss)
   }"

text \<open>From the empty map on: fill it, announce the group to the decoder, show the first slot.\<close>

definition share_buffers :: "env \<Rightarrow> VideoDecoder \<Rightarrow> mpp_frame \<Rightarrow> VideoDecoder io" where
  "share_buffers E vd f = do {
     let vd = reset_frame_map vd;
     slots \<leftarrow> fill_slots E (vd_drm_fd vd) (vd_frm_grp vd) f (vd_frame_map vd);
     let vd = vd\<lparr>vd_frame_map := slots\<rparr>;
     _ \<leftarrow> mpi_control E (vd_ctx vd) ''MPP_DEC_SET_EXT_BUF_GROUP'' (MpiPtr (vd_frm_grp vd));
     _ \<leftarrow> mpi_control E (vd_ctx vd) ''MPP_DEC_SET_INFO_CHANGE_READY'' (MpiPtr 0);
     let vd = vd\<lparr>vd_src_w := frame_width f, vd_src_h := frame_height f\<rparr>;
     (_, vd) \<leftarrow> commit_plane E vd (slot_fb_id (hd slots)) (frame_width f) (frame_height f);
     ret vd
   }"

definition setup_external_buffers :: "env \<Rightarrow> VideoDecoder \<Rightarrow> mpp_frame \<Rightarrow> (int \<times> VideoDecoder) io" where
  "setup_external_buffers E vd f =
     (if frame_fmt f \<noteq> MPP_FMT_YUV420SP \<and> frame_fmt f \<noteq> MPP_FMT_YUV420SP_10BIT then ret (-1, vd)
      else do {
        vd \<leftarrow> release_frame_group vd;
        g \<leftarrow> mpp_buffer_group_get_external E;
        case g of
          None \<Rightarrow> ret (-1, vd)
        | Some grp \<Rightarrow> do { vd \<leftarrow> share_buffers E (vd\<lparr>vd_frm_grp := grp\<rparr>) f; ret (0, vd) }
      })"

section \<open>The frame thread\<close>

text \<open>Handing a decoded frame to the display thread: the framebuffer of the slot that has its descriptor.\<close>

definition publish_frame :: "env \<Rightarrow> VideoDecoder \<Rightarrow> mpp_frame \<Rightarrow> VideoDecoder io" where
  "publish_frame E vd f =
     (if frame_buffer f = 0 then ret vd
      else do {
        info \<leftarrow> mpp_buffer_info_get E (frame_buffer f);
        case info of
          None \<Rightarrow> ret vd
        | Some fd \<Rightarrow>
            (case find (\<lambda>s. slot_prime_fd s = fd) (vd_frame_map vd) of
               None \<Rightarrow> ret vd
             | Some s \<Rightarrow> do {
                 g_mutex_lock VdLock;
                 g_cond_signal VdCond;
                 g_mutex_unlock VdLock;
                 ret (vd\<lparr>vd_pending_fb := slot_fb_id s, vd_pending_pts := frame_pts f\<rparr>)
               })
      })"

text \<open>The end of a turn: the frame's end-of-stream flag decides whether there is another.\<close>

definition finish_frame :: "VideoDecoder \<Rightarrow> mpp_frame \<Rightarrow> (bool \<times> VideoDecoder) io" where
  "finish_frame vd f = do {
     mpp_frame_deinit (frame_ptr f);
     ret (\<not> frame_eos f, vd\<lparr>vd_eos_received := frame_eos f\<rparr>)
   }"

definition frame_step :: "env \<Rightarrow> VideoDecoder \<Rightarrow> (bool \<times> VideoDecoder) io" where
  "frame_step E vd =
     (if \<not> vd_running vd then ret (False, vd)
      else do {
        frame \<leftarrow> mpi_decode_get_frame E (vd_ctx vd);
        case frame of
          None \<Rightarrow> do { g_usleep 1000; ret (True, vd) }
        | Some f \<Rightarrow>
            if frame_info_change f then do {
              (_, vd) \<leftarrow> setup_external_buffers E vd f;
              finish_frame vd f
            }
            else if frame_errinfo f \<noteq> 0 \<or> frame_discard f \<noteq> 0 then finish_frame vd f
            else do {
              vd \<leftarrow> publish_frame E vd f;
              finish_frame vd f
            }
      })"

definition frame_thread_end :: "VideoDecoder \<Rightarrow> VideoDecoder io" where
  "frame_thread_end vd = do {
     g_mutex_lock VdLock;
     g_cond_signal VdCond;
     g_mutex_unlock VdLock;
     ret (vd\<lparr>vd_running := False, vd_frame_thread_running := False\<rparr>)
   }"

text \<open>The thread's function with a bound on its turns; the flag tells whether it has returned.\<close>

fun frame_loop :: "env \<Rightarrow> nat \<Rightarrow> VideoDecoder \<Rightarrow> (bool \<times> VideoDecoder) io" where
  "frame_loop E 0 vd = ret (False, vd)"
| "frame_loop E (Suc n) vd = do {
     (more, vd) \<leftarrow> frame_step E vd;
     if more then frame_loop E n vd
     else do { vd \<leftarrow> frame_thread_end vd; ret (True, vd) }
   }"

definition frame_thread_func :: "env \<Rightarrow> nat \<Rightarrow> VideoDecoder \<Rightarrow> (bool \<times> VideoDecoder) io" where
  "frame_thread_func E n vd = frame_loop E n (vd\<lparr>vd_frame_thread_running := True\<rparr>)"

section \<open>The display thread\<close>

datatype display_next = Waiting | Again | Leave

text \<open>
  One look at the pending frame under the lock: with nothing to show and the decoder running the
  thread waits on the condition (and looks again when it is woken); else it takes the frame.
\<close>

definition display_step :: "env \<Rightarrow> VideoDecoder \<Rightarrow> (display_next \<times> VideoDecoder) io" where
  "display_step E vd = do {
     g_mutex_lock VdLock;
     if vd_running vd \<and> vd_pending_fb vd = 0 then do {
       g_cond_wait VdCond VdLock;
       g_mutex_unlock VdLock;
       ret (Waiting, vd)
     } else do {
       g_mutex_unlock VdLock;
       let fb = vd_pending_fb vd;
       let still_running = vd_running vd;
       let vd = vd\<lparr>vd_pending_fb := 0\<rparr>;
       if \<not> still_running \<and> fb = 0 then ret (Leave, vd\<lparr>vd_display_thread_running := False\<rparr>)
       else do {
         vd \<leftarrow> (if fb \<noteq> 0 then do { (_, vd) \<leftarrow> commit_plane E vd fb 0 0; ret vd } else ret vd);
         if \<not> still_running then ret (Leave, vd\<lparr>vd_display_thread_running := False\<rparr>)
         else ret (Again, vd)
       }
     }
   }"

end
