(* ===== verification/Decoder_Life.thy ===== *)
theory Decoder_Life
  imports Decoder_Frames
begin

text \<open>
  The life of the decoder: opening MPP and the plane, starting and stopping the two threads, feeding
  packets, the end of the stream, and the teardown.
\<close>

section \<open>Packets\<close>

text \<open>The setters that hand the packet buffer, with \<open>len\<close> bytes of data in it, to MPP.\<close>

definition load_packet :: "VideoDecoder \<Rightarrow> unit io" where
  "load_packet vd = do {
     mpp_packet_set (vd_packet vd) (PkLength 0);
     mpp_packet_set (vd_packet vd) (PkSize (vd_packet_buf_size vd));
     mpp_packet_set (vd_packet vd) (PkData (case vd_packet_buf vd of Some b \<Rightarrow> b | None \<Rightarrow> []));
     mpp_packet_set (vd_packet vd) (PkPos 0)
   }"

text \<open>
  The loop of \<open>video\_decoder\_send\_eos\<close>; \<open>attempts\<close> is its counter, and the loop ends when it exceeds 50.
\<close>

function eos_loop :: "env \<Rightarrow> VideoDecoder \<Rightarrow> nat \<Rightarrow> unit io" where
  "eos_loop E vd attempts =
     (if vd_mpi vd \<noteq> 0 \<and> vd_ctx vd \<noteq> 0 then do {
        r \<leftarrow> mpi_decode_put_packet E (vd_ctx vd) (vd_packet vd);
        if r = 0 then ret ()
        else if 50 < Suc attempts then ret ()
        else do { g_usleep 2000; eos_loop E vd (Suc attempts) }
      } else ret ())"
  by auto
termination by (relation "measure (\<lambda>(E, vd, attempts). 51 - attempts)") auto

declare eos_loop.simps [simp del]

definition send_eos :: "env \<Rightarrow> VideoDecoder \<Rightarrow> unit io" where
  "send_eos E vd =
     (if vd_packet vd = 0 then ret ()
      else do {
        load_packet vd;
        mpp_packet_set (vd_packet vd) PkEos;
        eos_loop E vd 0
      })"

definition video_decoder_send_eos :: "env \<Rightarrow> VideoDecoder option \<Rightarrow> unit io" where
  "video_decoder_send_eos E p = (case p of None \<Rightarrow> ret () | Some vd \<Rightarrow> send_eos E vd)"

text \<open>
  The loop of \<open>video\_decoder\_feed\<close>, \<open>n\<close> turns of it: \<open>None\<close> is that the packet is still refused. Another
  thread may clear \<open>running\<close> at any time.
\<close>

fun feed_loop :: "env \<Rightarrow> nat \<Rightarrow> VideoDecoder \<Rightarrow> int option io" where
  "feed_loop E 0 vd = ret None"
| "feed_loop E (Suc n) vd = do {
     running \<leftarrow> ask (\<lambda>t. e_vd_running (mpp E) t);
     if \<not> (vd_running vd \<and> running) then ret (Some (-1))
     else do {
       r \<leftarrow> mpi_decode_put_packet E (vd_ctx vd) (vd_packet vd);
       if r = 0 then ret (Some 0)
       else do { g_usleep 2000; feed_loop E n vd }
     }
   }"

text \<open>\<open>bytes\<close> is \<open>data[0..size)\<close>; \<open>neon\<close> the build's copy.\<close>

definition feed :: "env \<Rightarrow> bool \<Rightarrow> nat \<Rightarrow> VideoDecoder \<Rightarrow> u8 list \<Rightarrow> u64 \<Rightarrow> (int option \<times> VideoDecoder) io" where
  "feed E neon n vd bytes pts =
     (if \<not> vd_running vd then ret (Some (-1), vd)
      else if bytes = [] \<or> vd_packet_buf_size vd < length bytes then ret (Some (-1), vd)
      else do {
        let vd = vd\<lparr>vd_packet_buf := map_option (\<lambda>dst. copy_packet_data neon dst bytes (length bytes)) (vd_packet_buf vd)\<rparr>;
        load_packet vd;
        mpp_packet_set (vd_packet vd) (PkLength (length bytes));
        packet_pts \<leftarrow> gst_pts_to_mpp_timestamp E pts;
        mpp_packet_set (vd_packet vd) (PkPts packet_pts);
        mpp_packet_set (vd_packet vd) (PkDts packet_pts);
        r \<leftarrow> feed_loop E n vd;
        ret (r, vd)
      })"

definition video_decoder_feed ::
    "env \<Rightarrow> bool \<Rightarrow> nat \<Rightarrow> VideoDecoder option \<Rightarrow> u8 list \<Rightarrow> u64 \<Rightarrow> (int option \<times> VideoDecoder option) io" where
  "video_decoder_feed E neon n p bytes pts =
     (case p of None \<Rightarrow> ret (Some (-1), None)
      | Some vd \<Rightarrow> do { (r, vd) \<leftarrow> feed E neon n vd bytes pts; ret (r, Some vd) })"

section \<open>Start and stop\<close>

text \<open>The flags and the frame thread, then the display thread; each tells whether its thread exists.\<close>

definition start_frame :: "env \<Rightarrow> VideoDecoder \<Rightarrow> (bool \<times> VideoDecoder) io" where
  "start_frame E vd = do {
     let vd = vd\<lparr>vd_running := True, vd_eos_received := False\<rparr>;
     ft \<leftarrow> g_thread_new E ''mpp-frame'';
     let vd = vd\<lparr>vd_frame_thread := ft\<rparr>;
     ret (if ft = 0 then (False, vd\<lparr>vd_running := False\<rparr>) else (True, vd))
   }"

definition start_display :: "env \<Rightarrow> VideoDecoder \<Rightarrow> (bool \<times> VideoDecoder) io" where
  "start_display E vd = do {
     dt \<leftarrow> g_thread_new E ''mpp-display'';
     let vd = vd\<lparr>vd_display_thread := dt\<rparr>;
     ret (if dt = 0 then (False, vd\<lparr>vd_running := False\<rparr>) else (True, vd))
   }"

definition join_frame :: "VideoDecoder \<Rightarrow> VideoDecoder io" where
  "join_frame vd = do {
     io_when (vd_frame_thread vd \<noteq> 0) (g_thread_join (vd_frame_thread vd));
     ret (vd\<lparr>vd_frame_thread := 0\<rparr>)
   }"

definition join_display :: "VideoDecoder \<Rightarrow> VideoDecoder io" where
  "join_display vd = do {
     io_when (vd_display_thread vd \<noteq> 0) (g_thread_join (vd_display_thread vd));
     ret (vd\<lparr>vd_display_thread := 0\<rparr>)
   }"

definition start_threads :: "env \<Rightarrow> VideoDecoder \<Rightarrow> (int \<times> VideoDecoder) io" where
  "start_threads E vd =
     (if \<not> vd_initialized vd then ret (-1, vd)
      else if vd_running vd then ret (0, vd)
      else do {
        (ok, vd) \<leftarrow> start_frame E vd;
        if \<not> ok then ret (-1, vd)
        else do {
          (ok, vd) \<leftarrow> start_display E vd;
          if ok then ret (0, vd) else do { vd \<leftarrow> join_frame vd; ret (-1, vd) }
        }
      })"

definition video_decoder_start :: "env \<Rightarrow> VideoDecoder option \<Rightarrow> (int \<times> VideoDecoder option) io" where
  "video_decoder_start E p =
     (case p of None \<Rightarrow> ret (-1, None)
      | Some vd \<Rightarrow> do { (r, vd) \<leftarrow> start_threads E vd; ret (r, Some vd) })"

text \<open>The request, with the lock when there is one; was the decoder running?\<close>

definition request_stop :: "VideoDecoder \<Rightarrow> (bool \<times> VideoDecoder) io" where
  "request_stop vd =
     (if vd_lock_initialized vd then do {
        g_mutex_lock VdLock;
        io_when (vd_cond_initialized vd) (g_cond_signal VdCond);
        g_mutex_unlock VdLock;
        ret (vd_running vd, vd\<lparr>vd_running := False\<rparr>)
      } else do {
        io_when (vd_cond_initialized vd) (g_cond_signal VdCond);
        ret (vd_running vd, vd\<lparr>vd_running := False\<rparr>)
      })"

text \<open>The end of the stream and the reset that let the threads see the request.\<close>

definition drain :: "env \<Rightarrow> bool \<Rightarrow> VideoDecoder \<Rightarrow> unit io" where
  "drain E was_running vd =
     io_when (was_running \<and> vd_mpi vd \<noteq> 0 \<and> vd_ctx vd \<noteq> 0) (do {
       send_eos E vd;
       _ \<leftarrow> mpi_reset E (vd_ctx vd);
       ret ()
     })"

definition stop_threads :: "env \<Rightarrow> VideoDecoder \<Rightarrow> VideoDecoder io" where
  "stop_threads E vd = do {
     (was_running, vd) \<leftarrow> request_stop vd;
     drain E was_running vd;
     vd \<leftarrow> join_frame vd;
     join_display vd
   }"

definition video_decoder_stop :: "env \<Rightarrow> VideoDecoder option \<Rightarrow> VideoDecoder option io" where
  "video_decoder_stop E p =
     (case p of None \<Rightarrow> ret None | Some vd \<Rightarrow> do { vd \<leftarrow> stop_threads E vd; ret (Some vd) })"

section \<open>Teardown\<close>

definition close_mpp :: "env \<Rightarrow> VideoDecoder \<Rightarrow> VideoDecoder io" where
  "close_mpp E vd = do {
     io_when (vd_packet vd \<noteq> 0) (mpp_packet_deinit (vd_packet vd));
     io_when (vd_mpi vd \<noteq> 0 \<and> vd_ctx vd \<noteq> 0) (do {
       _ \<leftarrow> mpi_reset E (vd_ctx vd);
       mpp_destroy (vd_ctx vd)
     });
     ret (vd\<lparr>vd_packet := 0, vd_ctx := 0, vd_mpi := 0\<rparr>)
   }"

definition close_rest_of :: "VideoDecoder \<Rightarrow> VideoDecoder io" where
  "close_rest_of vd = do {
     io_when (vd_packet_buf vd \<noteq> None) (g_free DecoderBuf);
     io_when (0 \<le> vd_drm_fd vd) (sys_close (vd_drm_fd vd));
     io_when (vd_lock_initialized vd) (g_mutex_clear VdLock);
     io_when (vd_cond_initialized vd) (g_cond_clear VdCond);
     ret (vd\<lparr>vd_packet_buf := None, vd_drm_fd := (if 0 \<le> vd_drm_fd vd then -1 else vd_drm_fd vd),
       vd_lock_initialized := False, vd_cond_initialized := False, vd_initialized := False\<rparr>)
   }"

definition deinit :: "env \<Rightarrow> VideoDecoder \<Rightarrow> VideoDecoder io" where
  "deinit E vd = do {
     vd \<leftarrow> stop_threads E vd;
     vd \<leftarrow> close_mpp E vd;
     vd \<leftarrow> release_frame_group vd;
     vd \<leftarrow> teardown_background E vd;
     close_rest_of vd
   }"

definition video_decoder_deinit :: "env \<Rightarrow> VideoDecoder option \<Rightarrow> VideoDecoder option io" where
  "video_decoder_deinit E p =
     (case p of None \<Rightarrow> ret None | Some vd \<Rightarrow> do { vd \<leftarrow> deinit E vd; ret (Some vd) })"

definition video_decoder_free :: "env \<Rightarrow> VideoDecoder option \<Rightarrow> unit io" where
  "video_decoder_free E p =
     (case p of None \<Rightarrow> ret ()
      | Some vd \<Rightarrow> do { _ \<leftarrow> deinit E vd; g_free VideoDecoderObj })"

section \<open>Opening\<close>

definition set_control_verbose :: "env \<Rightarrow> ptr \<Rightarrow> string \<Rightarrow> u32 \<Rightarrow> unit io" where
  "set_control_verbose E ctx control v = do { _ \<leftarrow> mpi_control E ctx control (MpiU32 v); ret () }"

definition set_mpp_decoding_parameters :: "env \<Rightarrow> VideoDecoder \<Rightarrow> unit io" where
  "set_mpp_decoding_parameters E vd = do {
     cfg \<leftarrow> mpp_dec_cfg_init E;
     case cfg of
       None \<Rightarrow> ret ()
     | Some cfg \<Rightarrow> do {
         r \<leftarrow> mpi_control E (vd_ctx vd) ''MPP_DEC_GET_CFG'' (MpiPtr cfg);
         if r \<noteq> 0 then mpp_dec_cfg_deinit cfg
         else do {
           _ \<leftarrow> mpp_dec_cfg_set_u32 E cfg ''base:split_parse'' 1;
           _ \<leftarrow> mpi_control E (vd_ctx vd) ''MPP_DEC_SET_CFG'' (MpiPtr cfg);
           mpp_dec_cfg_deinit cfg;
           set_control_verbose E (vd_ctx vd) ''MPP_DEC_SET_DISABLE_ERROR'' 0xFFFF;
           set_control_verbose E (vd_ctx vd) ''MPP_DEC_SET_IMMEDIATE_OUT'' 0xFFFF;
           set_control_verbose E (vd_ctx vd) ''MPP_DEC_SET_ENABLE_FAST_PLAY'' 0xFFFF
         }
       }
   }"

text \<open>The struct after the \<open>memset\<close> and the fields that come from the configuration and the modeset.\<close>

definition blank_decoder :: "AppCfg \<Rightarrow> ModesetResult \<Rightarrow> VideoDecoder" where
  "blank_decoder cfg ms = zero_decoder\<lparr>vd_drm_fd := -1, vd_plane_id := word_of_int (plane_id cfg),
     vd_crtc_id := ms_crtc_id ms, vd_mode_w := ms_mode_w ms, vd_mode_h := ms_mode_h ms,
     vd_packet_buf_size := DECODER_READ_BUF_SIZE\<rparr>"

definition fail_init :: "env \<Rightarrow> VideoDecoder \<Rightarrow> (int \<times> VideoDecoder) io" where
  "fail_init E vd = do { vd \<leftarrow> deinit E vd; ret (-1, vd) }"

text \<open>
  From the decoding parameters on; the output timeout is one control call, whichever of the two it is.
\<close>

definition finish_init :: "env \<Rightarrow> VideoDecoder \<Rightarrow> (int \<times> VideoDecoder) io" where
  "finish_init E vd = do {
     set_mpp_decoding_parameters E vd;
     _ \<leftarrow> mpi_control E (vd_ctx vd) ''MPP_SET_OUTPUT_BLOCK'' (MpiInt 5);
     g_mutex_init VdLock;
     g_cond_init VdCond;
     ret (0, reset_frame_map (vd\<lparr>vd_lock_initialized := True, vd_cond_initialized := True,
       vd_pending_fb := 0, vd_pending_pts := 0, vd_frm_grp := 0, vd_initialized := True\<rparr>))
   }"

definition open_packet :: "env \<Rightarrow> VideoDecoder \<Rightarrow> (int \<times> VideoDecoder) io" where
  "open_packet E vd = do {
     p \<leftarrow> mpp_packet_init E (vd_packet_buf_size vd);
     case p of
       None \<Rightarrow> fail_init E vd
     | Some p \<Rightarrow> do {
         let vd = vd\<lparr>vd_packet := p\<rparr>;
         set_control_verbose E (vd_ctx vd) ''MPP_DEC_SET_PARSER_SPLIT_MODE'' 1;
         r \<leftarrow> mpp_init E (vd_ctx vd) ''MPP_VIDEO_CodingHEVC'';
         if r \<noteq> 0 then fail_init E vd else finish_init E vd
       }
   }"

definition open_mpp :: "env \<Rightarrow> VideoDecoder \<Rightarrow> (int \<times> VideoDecoder) io" where
  "open_mpp E vd = do {
     (r, ctx, mpi) \<leftarrow> mpp_create E;
     if r \<noteq> 0 then fail_init E vd
     else open_packet E (vd\<lparr>vd_ctx := ctx, vd_mpi := mpi\<rparr>)
   }"

definition init_decoder :: "env \<Rightarrow> AppCfg \<Rightarrow> ModesetResult \<Rightarrow> int \<Rightarrow> (int \<times> VideoDecoder) io" where
  "init_decoder E cfg ms drm_fd = do {
     let vd = blank_decoder cfg ms;
     ok \<leftarrow> g_alloc E DecoderBuf;
     if \<not> ok then ret (-1, vd)
     else do {
       dup_fd \<leftarrow> sys_dup_fd E drm_fd;
       if dup_fd < 0 then do { g_free DecoderBuf; ret (-1, vd) }
       else do {
         let vd = vd\<lparr>vd_packet_buf := Some (replicate DECODER_READ_BUF_SIZE 0), vd_drm_fd := dup_fd\<rparr>;
         (ok, props) \<leftarrow> query_props E (vd_drm_fd vd) (vd_plane_id vd) plane_prop_names (vd_props vd);
         let vd = vd\<lparr>vd_props := props\<rparr>;
         if \<not> ok then fail_init E vd
         else do {
           (_, vd) \<leftarrow> setup_black_background E vd;
           open_mpp E vd
         }
       }
     }
   }"

text \<open>NULL arguments are \<open>None\<close>; the \<open>memset\<close> makes the old contents of the struct irrelevant.\<close>

definition video_decoder_init ::
    "env \<Rightarrow> VideoDecoder option \<Rightarrow> AppCfg option \<Rightarrow> ModesetResult option \<Rightarrow> int \<Rightarrow> (int \<times> VideoDecoder option) io" where
  "video_decoder_init E p cfg ms drm_fd =
     (case (p, cfg, ms) of
        (Some _, Some cfg, Some ms) \<Rightarrow> do { (r, vd) \<leftarrow> init_decoder E cfg ms drm_fd; ret (r, Some vd) }
      | _ \<Rightarrow> ret (-1, p))"

end
