(* ===== verification/Modeset_Own.thy ===== *)
theory Modeset_Own
  imports Drm_Modeset
begin

text \<open>
  What \<open>atomic\_modeset\_maxhz\<close> owns along the way: the structures of libdrm, the framebuffer (through
  the contract of \<open>Drm\_Fb\<close>), the mode blob and the request; and that each return code leaves nothing.
\<close>

text \<open>
  DRM object ids are positive \<open>int\<close>s (the kernel's id allocator starts at 1 and never reaches \<open>2^31\<close>),
  which is what \<open>int crtc\_id = crtc->crtc\_id\<close> relies on.
\<close>

definition small_ids :: "env \<Rightarrow> bool" where
  "small_ids E \<longleftrightarrow> (\<forall>t fd n c. e_get_crtc (drm E) t fd n = Some c \<longrightarrow> uint (crtc_object_id c) < 2 ^ 31)"

lemma small_ids_cast:
  assumes "small_ids E" and "e_get_crtc (drm E) t fd n = Some c"
  shows "0 \<le> cast_int (uint (crtc_object_id c))"
proof -
  have "uint (crtc_object_id c) < 2 ^ 31" using assms unfolding small_ids_def by blast
  then have "int_range (uint (crtc_object_id c))"
    using uint_ge_0 [of "crtc_object_id c"] unfolding int_range_def by linarith
  then show ?thesis using uint_ge_0 [of "crtc_object_id c"] by (simp add: cast_int_id)
qed

definition crtc_res :: "drmModeCrtc option \<Rightarrow> resource multiset" where
  "crtc_res crtc = (case crtc of None \<Rightarrow> {#} | Some c \<Rightarrow> {#DrmObj (crtc_ptr c)#})"

definition crtc_ok :: "drmModeCrtc option \<times> int \<Rightarrow> bool" where
  "crtc_ok st \<longleftrightarrow> (fst st = None \<longleftrightarrow> snd st < 0)"

lemma crtc_loop_own:
  assumes "small_ids E" and "k < 0"
  shows "wp own (crtc_loop E fd possible ci crtcs (None, k))
     (\<lambda>st' M'. M' = M + crtc_res (fst st') \<and> crtc_ok st') (M + {#})"
proof (induction crtcs arbitrary: ci M)
  case Nil
  then show ?case using assms(2) by (auto simp: crtc_res_def crtc_ok_def intro: wp_return)
next
  case (Cons n ns)
  show ?case
    unfolding crtc_loop.simps
    by (intro wp_intros wp_own_frame [OF Cons.IH])
      (auto simp: own_simps crtc_res_def crtc_ok_def not_less dest: small_ids_cast [OF assms(1)])
qed

lemma encoder_loop_own:
  assumes "small_ids E" and "crtc_ok st"
  shows "wp own (encoder_loop E fd crtcs es st)
     (\<lambda>st' M'. M' = M + crtc_res (fst st') \<and> crtc_ok st') (M + crtc_res (fst st))"
  using assms(2)
proof (induction es arbitrary: st M)
  case Nil
  then show ?case by (auto intro: wp_return)
next
  case (Cons e es)
  obtain crtc k where st: "st = (crtc, k)" by (cases st)
  show ?case
  proof (cases "k < 0")
    case True
    then have "crtc = None" using Cons.prems st by (simp add: crtc_ok_def)
    then show ?thesis
      using True Cons.prems
      unfolding st \<open>crtc = None\<close> encoder_loop.simps
      by (intro wp_intros wp_own_frame [OF Cons.IH] wp_own_frame [OF crtc_loop_own [OF assms(1)]])
        (auto simp: own_simps crtc_res_def)
  next
    case False
    then show ?thesis using Cons.prems st by (auto intro: wp_return)
  qed
qed

text \<open>A connector whose encoder is asked for is entered with no CRTC.\<close>

lemma pick_crtc_own:
  assumes "small_ids E"
  shows "wp own (pick_crtc E fd res c None)
     (\<lambda>st' M'. M' = M + crtc_res (fst st') \<and> crtc_ok st') (M + {#})"
  unfolding pick_crtc_def
  by (intro wp_intros wp_own_frame [OF encoder_loop_own [OF assms]])
    (auto simp: own_simps crtc_res_def crtc_ok_def not_less split: option.splits
      dest: small_ids_cast [OF assms])

definition conn_res :: "drmModeConnector option \<Rightarrow> resource multiset" where
  "conn_res conn = (case conn of None \<Rightarrow> {#} | Some c \<Rightarrow> {#DrmObj (conn_ptr c)#})"

text \<open>The connectors are walked with no CRTC until one is chosen; then there are both.\<close>

lemma connector_loop_own:
  assumes "small_ids E"
  shows "wp own (connector_loop E fd cfg res ns (None, best))
     (\<lambda>x M'. M' = M + (conn_res (fst x) + crtc_res (fst (snd x)))
        \<and> (fst x = None \<longleftrightarrow> fst (snd x) = None)) (M + {#})"
proof (induction ns arbitrary: best M)
  case Nil
  then show ?case by (auto simp: crtc_res_def conn_res_def intro: wp_return)
next
  case (Cons n ns)
  show ?case
    unfolding connector_loop.simps
    by (intro wp_intros wp_own_frame [OF pick_crtc_own [OF assms]] wp_own_frame [OF Cons.IH])
      (auto simp: own_simps crtc_res_def conn_res_def crtc_ok_def intro!: wp_own_frame [OF Cons.IH])
qed

section \<open>The commit\<close>

lemma get_prop_ids_wp: "(\<And>x. Q x M) \<Longrightarrow> wp own (get_prop_ids E fd obj ty names) Q M"
proof (induction names arbitrary: Q)
  case (Cons name names)
  then show ?case
    unfolding get_prop_ids.simps by (intro wp_intros drm_get_prop_id_wp Cons.IH) auto
qed (simp add: wp_return)

lemma add_props_wp: "AtomicReq req \<in># M \<Longrightarrow> Q () M \<Longrightarrow> wp own (add_props req obj ps) Q M"
proof (induction ps)
  case (Cons p ps)
  obtain pid v where "p = (pid, v)" by (cases p)
  with Cons show ?case
    by simp (intro wp_intros; simp add: own_simps)
qed (simp add: wp_return)

lemma build_request_wp:
  "AtomicReq req \<in># M \<Longrightarrow> Q () M \<Longrightarrow> wp own (build_request E fd cfg conn crtc fb blob w h req) Q M"
  unfolding build_request_def
  by (intro wp_intros get_prop_ids_wp add_props_wp drm_get_prop_id_and_range_ci_wp)
    (simp_all add: own_simps)

lemma free_choice_own:
  "wp own (free_choice res conn crtc) (\<lambda>x M'. M' = M + {#} \<and> True)
     (M + {#DrmObj (conn_ptr conn), DrmObj (crtc_ptr crtc), DrmObj (res_ptr res)#})"
  unfolding free_choice_def
  by (intro wp_intros) (simp_all add: own_simps)

lemma commit_choice_own:
  "wp own (commit_choice E fd cfg res conn crtc best out) (\<lambda>x M'. M' = M + {#} \<and> fst x \<in> {0, -3, -4, -5, -9})
     (M + {#DrmObj (conn_ptr conn), DrmObj (crtc_ptr crtc), DrmObj (res_ptr res)#})"
  unfolding commit_choice_def
  apply (intro wp_intros dumb_fb.create_wp dumb_fb.destroy_wp build_request_wp wp_own_frame [OF free_choice_own])
  apply (auto simp: own_simps)
  done

end
