(* ===== verification/Decoder_Own.thy ===== *)
theory Decoder_Own
  imports Decoder_Life Modeset_Own
begin

text \<open>
  What the decoder owns, part by part: its planes, its frame buffers, MPP's objects, and the rest.
\<close>

section \<open>Planes\<close>

lemma commit_or_retry_wp:
  "AtomicReq req \<in># M \<Longrightarrow> (\<And>r. Q r M) \<Longrightarrow> wp own (commit_or_retry E fd req flags again) Q M"
  unfolding commit_or_retry_def by (intro wp_intros) (simp_all add: own_simps)

text \<open>
  Most operations leave alone what decides who owns what. \<open>fixed\<close> is what every operation on the planes
  and the frame buffers keeps, \<open>resized\<close> a change of the remembered source size only.
\<close>

definition fixed :: "VideoDecoder \<Rightarrow> VideoDecoder \<Rightarrow> bool" where
  "fixed vd vd' \<longleftrightarrow> vd_initialized vd' = vd_initialized vd \<and> vd_running vd' = vd_running vd
     \<and> vd_lock_initialized vd' = vd_lock_initialized vd \<and> vd_cond_initialized vd' = vd_cond_initialized vd
     \<and> vd_drm_fd vd' = vd_drm_fd vd \<and> vd_ctx vd' = vd_ctx vd \<and> vd_mpi vd' = vd_mpi vd
     \<and> vd_packet vd' = vd_packet vd \<and> vd_packet_buf vd' = vd_packet_buf vd
     \<and> vd_frame_thread vd' = vd_frame_thread vd \<and> vd_display_thread vd' = vd_display_thread vd"

definition resized :: "VideoDecoder \<Rightarrow> VideoDecoder \<Rightarrow> bool" where
  "resized vd vd' \<longleftrightarrow> fixed vd vd' \<and> vd_background_fb vd' = vd_background_fb vd
     \<and> vd_frm_grp vd' = vd_frm_grp vd \<and> vd_frame_map vd' = vd_frame_map vd"

lemmas step_defs = fixed_def resized_def

lemma resized_refl [simp]: "resized vd vd"
  by (simp add: step_defs)

lemma source_size_resized:
  "source_size vd w h = (w', h', vd') \<Longrightarrow> resized vd vd' \<and> vd_pending_fb vd' = vd_pending_fb vd"
  by (auto simp: source_size_def Let_def step_defs split: if_splits)

lemma commit_plane_wp:
  "(\<And>r vd'. resized vd vd' \<and> vd_pending_fb vd' = vd_pending_fb vd \<Longrightarrow> Q (r, vd') M) \<Longrightarrow> wp own (commit_plane E vd fb w h) Q M"
  unfolding commit_plane_def
  by (intro wp_intros add_props_wp commit_or_retry_wp)
    (auto simp: own_simps dest: source_size_resized)

lemma find_crtc_index_wp: "(\<And>r. Q r M) \<Longrightarrow> wp own (find_crtc_index E fd crtc) Q M"
  unfolding find_crtc_index_def by (intro wp_intros) (simp_all add: own_simps)

lemma type_loop_wp: "(\<And>r. Q r M) \<Longrightarrow> wp own (type_loop E fd ps) Q M"
proof (induction ps)
  case (Cons p ps)
  obtain n v where "p = (n, v)" by (cases p)
  then show ?case using Cons by simp (intro wp_intros; simp add: own_simps)
qed (simp add: wp_return)

lemma plane_loop_wp: "(\<And>r. Q r M) \<Longrightarrow> wp own (plane_loop E fd i ns) Q M"
proof (induction ns)
  case (Cons n ns)
  then show ?case
    unfolding plane_loop.simps by (intro wp_intros type_loop_wp) (simp_all add: own_simps)
qed (simp add: wp_return)

lemma query_props_wp: "(\<And>r. Q r M) \<Longrightarrow> wp own (query_props E fd obj names cells) Q M"
proof (induction E fd obj names cells arbitrary: Q rule: query_props.induct)
  case (1 E fd obj name names cell cells)
  show ?case
    unfolding query_props.simps
    by (intro wp_intros drm_get_prop_id_wp 1(1)) (use 1(2) in auto)
qed (simp_all add: wp_return)

lemma primary_plane_wp: "(\<And>r. Q r M) \<Longrightarrow> wp own (primary_plane E vd) Q M"
  unfolding primary_plane_def
  by (intro wp_intros find_crtc_index_wp plane_loop_wp) (simp_all add: own_simps)

section \<open>The background\<close>

text \<open>
  Objects that a call hands out are real: MPP and libdrm answer no NULL, no id 0 and no negative
  descriptor when they report success.
\<close>

definition real_objects :: "env \<Rightarrow> bool" where
  "real_objects E \<longleftrightarrow>
     (\<forall>t fd w h fmt. e_add_fb2 (drm E) t fd w h fmt \<noteq> Some 0)
   \<and> (\<forall>t c a. e_mpp_create (mpp E) t = (0, c, a) \<longrightarrow> c \<noteq> 0 \<and> a \<noteq> 0)
   \<and> (\<forall>t. e_packet_init (mpp E) t \<noteq> Some 0) \<and> (\<forall>t. e_group_get (mpp E) t \<noteq> Some 0)
   \<and> (\<forall>t fd h p. e_prime_fd (mpp E) t fd h = Some p \<longrightarrow> 0 \<le> p)
   \<and> (\<forall>t p q. e_buffer_commit (mpp E) t p = Some q \<longrightarrow> 0 \<le> q)"

definition bg_owned :: "VideoDecoder \<Rightarrow> resource multiset" where
  "bg_owned vd = fb_owned (vd_drm_fd vd) (vd_background_fb vd)"

definition bg_inv :: "VideoDecoder \<Rightarrow> bool" where
  "bg_inv vd \<longleftrightarrow> (fb_id (vd_background_fb vd) = 0 \<longrightarrow> vd_background_fb vd = zero_fb)"

text \<open>What the background code keeps.\<close>

definition bg_step :: "VideoDecoder \<Rightarrow> VideoDecoder \<Rightarrow> bool" where
  "bg_step vd vd' \<longleftrightarrow> fixed vd vd' \<and> vd_frm_grp vd' = vd_frm_grp vd \<and> vd_frame_map vd' = vd_frame_map vd"

lemmas bg_step_defs = bg_step_def fixed_def

lemma drop_background_own:
  "wp own (drop_background vd) (\<lambda>vd' M'. M' = M + {#} \<and> vd' = vd\<lparr>vd_background_fb := zero_fb\<rparr>) (M + bg_owned vd)"
  unfolding drop_background_def bg_owned_def
  by (intro wp_intros dumb_fb.destroy_wp) simp_all

lemma show_background_own:
  "wp own (show_background E vd plane zmin)
     (\<lambda>x M'. M' = M + bg_owned (snd x) \<and> bg_step vd (snd x)
        \<and> (vd_background_fb (snd x) = vd_background_fb vd \<or> vd_background_fb (snd x) = zero_fb)) (M + bg_owned vd)"
  unfolding show_background_def
  by (intro wp_intros add_props_wp commit_or_retry_wp wp_own_frame [OF drop_background_own])
    (auto simp: own_simps bg_step_defs bg_owned_def zero_fb_def fb_owned_def)

lemma create_argb_fb_real:
  assumes "real_objects E"
  shows "wp own (create_argb_fb E fd w h fill fb)
     (\<lambda>x M'. M' = M + (if fst x = 0 then fb_owned fd (snd x) else {#}) \<and> (fst x = 0 \<longrightarrow> fb_id (snd x) \<noteq> 0)) (M + {#})"
proof -
  have nz: "n \<noteq> 0" if "e_add_fb2 (drm E) t fd w h fmt = Some n" for t fd w h fmt n
    using assms that by (auto simp: real_objects_def)
  show ?thesis
    unfolding create_argb_fb_def
    by (intro wp_intros) (auto simp: own_simps fb_owned_def dest: nz)
qed

lemma setup_black_background_own:
  assumes "real_objects E" and "bg_inv vd" and "\<not> vd_background_initialized vd" and "vd_background_fb vd = zero_fb"
  shows "wp own (setup_black_background E vd)
     (\<lambda>x M'. M' = M + bg_owned (snd x) \<and> bg_step vd (snd x) \<and> bg_inv (snd x)) (M + {#})"
  using assms(2-4) unfolding setup_black_background_def
  by (intro wp_intros primary_plane_wp wp_own_frame [OF create_argb_fb_real [OF assms(1)]] query_props_wp
      drm_get_prop_id_and_range_ci_wp wp_own_frame [OF drop_background_own] wp_own_frame [OF show_background_own])
    (auto simp: bg_owned_def bg_step_defs bg_inv_def)

lemma disable_background_wp: "Q () M \<Longrightarrow> wp own (disable_background E vd) Q M"
  unfolding disable_background_def by (intro wp_intros add_props_wp) (simp_all add: own_simps)

lemma teardown_background_own:
  assumes "bg_inv vd"
  shows "wp own (teardown_background E vd)
     (\<lambda>vd' M'. M' = M + {#} \<and> bg_step vd vd' \<and> vd_background_fb vd' = zero_fb) (M + bg_owned vd)"
  using assms unfolding teardown_background_def
  by (intro wp_intros disable_background_wp wp_own_frame [OF drop_background_own])
    (auto simp: bg_step_defs bg_owned_def bg_inv_def)

section \<open>Frame buffers\<close>

definition slot_owned :: "int \<Rightarrow> FrameSlot \<Rightarrow> resource multiset" where
  "slot_owned fd s = id_res (Dumb fd) (slot_handle s) + id_res (DrmFb fd) (slot_fb_id s) + fd_res (slot_prime_fd s)"

fun slots_owned :: "int \<Rightarrow> FrameSlot list \<Rightarrow> resource multiset" where
  "slots_owned fd [] = {#}"
| "slots_owned fd (s # ss) = slot_owned fd s + slots_owned fd ss"

definition frames_owned :: "VideoDecoder \<Rightarrow> resource multiset" where
  "frames_owned vd = (if vd_frm_grp vd = 0 then {#}
     else {#MppGroup (vd_frm_grp vd)#} + slots_owned (vd_drm_fd vd) (vd_frame_map vd))"

lemma slots_owned_free [simp]: "slots_owned fd (replicate n free_slot) = {#}"
  by (induction n) (simp_all add: slot_owned_def free_slot_def own_simps)

lemma release_slot_own:
  "wp own (release_slot fd s) (\<lambda>s' M'. M' = M + {#} \<and> True) (M + slot_owned fd s)"
  unfolding release_slot_def slot_owned_def by (intro wp_intros; simp add: own_simps)

lemma release_slots_own:
  "wp own (release_slots fd ss) (\<lambda>ss' M'. M' = M + {#} \<and> length ss' = length ss) (M + slots_owned fd ss)"
proof (induction ss arbitrary: M)
  case (Cons s ss)
  show ?case
    unfolding release_slots.simps slots_owned.simps
    by (intro wp_intros wp_own_frame [OF release_slot_own] wp_own_frame [OF Cons.IH]) auto
qed (simp add: wp_return)

text \<open>What the frame buffers' code keeps.\<close>

definition grp_step :: "VideoDecoder \<Rightarrow> VideoDecoder \<Rightarrow> bool" where
  "grp_step vd vd' \<longleftrightarrow> fixed vd vd' \<and> vd_background_fb vd' = vd_background_fb vd
     \<and> length (vd_frame_map vd') = length (vd_frame_map vd)"

lemmas grp_step_defs = grp_step_def fixed_def

lemma release_frame_group_own:
  "wp own (release_frame_group vd) (\<lambda>vd' M'. M' = M + {#} \<and> grp_step vd vd' \<and> vd_frm_grp vd' = 0)
     (M + frames_owned vd)"
  unfolding release_frame_group_def frames_owned_def
  by (intro wp_intros wp_own_frame [OF release_slots_own]) (auto simp: own_simps grp_step_defs)

lemma interrupted_wp: "Q () M \<Longrightarrow> wp own (interrupted fd n) Q M"
  by (induction n) (auto intro!: wp_intros simp: own_simps)

lemma retry_ioctl_wp: "wp own call Q M \<Longrightarrow> wp own (retry_ioctl E fd call) Q M"
  unfolding retry_ioctl_def by (intro wp_intros interrupted_wp)

lemma add_slot_fb_own:
  assumes "slot_fb_id s = 0"
  shows "wp own (add_slot_fb E fd f d s) (\<lambda>s' M'. M' = M + slot_owned fd s' \<and> True) (M + slot_owned fd s)"
  using assms unfolding add_slot_fb_def slot_owned_def
  by (intro wp_intros) (auto simp: own_simps split: option.splits)

lemma fill_slot_own:
  assumes "real_objects E"
  shows "wp own (fill_slot E fd grp f free_slot)
     (\<lambda>s' M'. M' = M + ({#MppGroup grp#} + slot_owned fd s') \<and> True) (M + {#MppGroup grp#})"
proof -
  have nn: "0 \<le> p" if "e_prime_fd (mpp E) t fd h = Some p" for t h p
    using assms that unfolding real_objects_def by blast
  show ?thesis
    unfolding fill_slot_def
    by (intro wp_intros retry_ioctl_wp wp_own_frame [OF add_slot_fb_own])
      (auto simp: own_simps slot_owned_def free_slot_def dest: nn)
qed

lemma fill_slots_own:
  assumes "real_objects E"
  shows "wp own (fill_slots E fd grp f (replicate n free_slot))
     (\<lambda>ss M'. M' = M + ({#MppGroup grp#} + slots_owned fd ss) \<and> length ss = n) (M + {#MppGroup grp#})"
proof (induction n arbitrary: M)
  case (Suc n)
  show ?case
    unfolding fill_slots.simps replicate_Suc
    by (intro wp_intros wp_own_frame [OF fill_slot_own [OF assms]] wp_own_frame [OF Suc.IH]) auto
qed (simp add: wp_return)

lemma resized_frames:
  "resized vd vd' \<Longrightarrow> frames_owned vd' = frames_owned vd \<and> grp_step vd vd'"
  by (simp add: step_defs grp_step_defs frames_owned_def)

definition decoding :: "VideoDecoder \<Rightarrow> resource multiset" where
  "decoding vd = {#MppCtx (vd_ctx vd)#} + frames_owned vd"

text \<open>The same, as rewrite rules.\<close>

lemma real_objectsD:
  assumes "real_objects E"
  shows "e_group_get (mpp E) t \<noteq> Some 0" "e_packet_init (mpp E) t \<noteq> Some 0"
    "e_mpp_create (mpp E) t \<noteq> (0, 0, a)" "e_mpp_create (mpp E) t \<noteq> (0, c, 0)"
  using assms unfolding real_objects_def by blast+

lemma share_buffers_own:
  assumes "real_objects E" and "0 < vd_frm_grp vd" and "length (vd_frame_map vd) = DECODER_MAX_FRAMES"
  shows "wp own (share_buffers E vd f) (\<lambda>vd' M'. M' = M + decoding vd' \<and> grp_step vd vd')
     (M + {#MppCtx (vd_ctx vd), MppGroup (vd_frm_grp vd)#})"
  unfolding share_buffers_def Let_def reset_frame_map_def
  using assms(2-3)
  by (simp, intro wp_intros commit_plane_wp wp_own_frame [OF fill_slots_own [OF assms(1)]];
    simp add: own_simps; clarsimp simp: decoding_def frames_owned_def resized_def grp_step_defs)

lemma setup_external_buffers_own:
  assumes "real_objects E" and "length (vd_frame_map vd) = DECODER_MAX_FRAMES"
  shows "wp own (setup_external_buffers E vd f)
     (\<lambda>x M'. M' = M + decoding (snd x) \<and> grp_step vd (snd x)) (M + decoding vd)"
proof -
  have nz: "0 < g" if "e_group_get (mpp E) t = Some g" for t g
    using that by (metis gr0I real_objectsD(1) [OF assms(1)])
  show ?thesis
    unfolding setup_external_buffers_def decoding_def Let_def
    by (intro wp_intros wp_own_frame [OF release_frame_group_own]
        wp_own_frame [OF share_buffers_own [OF assms(1)]];
      simp add: own_simps grp_step_defs assms(2);
      clarsimp dest!: nz simp: decoding_def frames_owned_def)
qed
section \<open>The threads' turns\<close>

definition sync :: "resource multiset" where
  "sync = {#Mutex VdLock, Cond VdCond#}"

lemma publish_frame_own:
  "wp own (publish_frame E vd f) (\<lambda>vd' M'. M' = M + sync \<and> resized vd vd') (M + sync)"
  unfolding publish_frame_def sync_def by (intro wp_intros; simp add: own_simps step_defs)

lemma finish_frame_own:
  "wp own (finish_frame vd f) (\<lambda>x M'. M' = M + {#} \<and> resized vd (snd x) \<and> vd_pending_fb (snd x) = vd_pending_fb vd)
     (M + {#MppFrame (frame_ptr f)#})"
  unfolding finish_frame_def by (intro wp_intros; simp add: own_simps step_defs)

lemma frame_step_own:
  assumes "real_objects E" and "length (vd_frame_map vd) = DECODER_MAX_FRAMES"
  shows "wp own (frame_step E vd)
     (\<lambda>x M'. M' = M + (sync + decoding (snd x)) \<and> grp_step vd (snd x)) (M + (sync + decoding vd))"
  unfolding frame_step_def
  by (intro wp_intros wp_own_frame [OF publish_frame_own] wp_own_frame [OF finish_frame_own]
      wp_own_frame [OF setup_external_buffers_own [OF assms]])
    (simp_all add: own_simps decoding_def frames_owned_def step_defs grp_step_defs)

lemma frame_thread_end_own:
  "wp own (frame_thread_end vd)
     (\<lambda>vd' M'. M' = M + sync \<and> vd' = vd\<lparr>vd_running := False, vd_frame_thread_running := False\<rparr>) (M + sync)"
  unfolding frame_thread_end_def sync_def by (intro wp_intros; simp add: own_simps)

lemma display_step_own:
  "wp own (display_step E vd)
     (\<lambda>x M'. M' = M + sync \<and> resized vd (snd x) \<and> vd_pending_fb (snd x) = 0
        \<and> (fst x = Waiting \<longrightarrow> vd_running vd) \<and> (\<not> vd_running vd \<longrightarrow> fst x = Leave)) (M + sync)"
  unfolding display_step_def sync_def Let_def
  by (intro wp_intros commit_plane_wp) (simp_all add: own_simps step_defs)

section \<open>Packets\<close>

lemma load_packet_wp: "MppPacket (vd_packet vd) \<in># M \<Longrightarrow> Q () M \<Longrightarrow> wp own (load_packet vd) Q M"
  unfolding load_packet_def by (intro wp_intros; simp add: own_simps)

lemma eos_loop_wp:
  assumes "MppPacket (vd_packet vd) \<in># M" and "vd_mpi vd \<noteq> 0 \<and> vd_ctx vd \<noteq> 0 \<Longrightarrow> MppCtx (vd_ctx vd) \<in># M" and "Q () M"
  shows "wp own (eos_loop E vd n) Q M"
  using assms
proof (induction E vd n rule: eos_loop.induct)
  case (1 E vd n)
  show ?case
    by (subst eos_loop.simps) (intro wp_intros; use 1 in \<open>fastforce simp: own_simps\<close>)
qed

lemma send_eos_wp:
  assumes "vd_packet vd \<noteq> 0 \<Longrightarrow> MppPacket (vd_packet vd) \<in># M"
    and "vd_mpi vd \<noteq> 0 \<and> vd_ctx vd \<noteq> 0 \<Longrightarrow> MppCtx (vd_ctx vd) \<in># M" and "Q () M"
  shows "wp own (send_eos E vd) Q M"
  using assms unfolding send_eos_def by (intro wp_intros load_packet_wp eos_loop_wp; simp add: own_simps)

lemma feed_loop_wp:
  assumes "MppPacket (vd_packet vd) \<in># M" and "MppCtx (vd_ctx vd) \<in># M" and "\<And>r. Q r M"
  shows "wp own (feed_loop E n vd) Q M"
  using assms by (induction n) (auto intro!: wp_intros simp: own_simps)

lemma pts_wp: "(\<And>x. Q x M) \<Longrightarrow> wp \<delta> (gst_pts_to_mpp_timestamp E pts) Q M"
  unfolding gst_pts_to_mpp_timestamp_def get_time_ms_def by (intro wp_intros)

lemma feed_wp:
  assumes "vd_running vd \<Longrightarrow> MppPacket (vd_packet vd) \<in># M \<and> MppCtx (vd_ctx vd) \<in># M"
    and "\<And>r b. (b = None \<longleftrightarrow> vd_packet_buf vd = None) \<Longrightarrow> Q (r, vd\<lparr>vd_packet_buf := b\<rparr>) M"
  shows "wp own (feed E neon n vd bytes pts) Q M"
proof -
  have "Q (r, vd) M" for r using assms(2) [of "vd_packet_buf vd"] by simp
  then show ?thesis
    using assms unfolding feed_def Let_def
    by (intro wp_intros load_packet_wp pts_wp feed_loop_wp; simp add: own_simps)
qed
end
