(* ===== verification/Decoder_Lifecycle.thy ===== *)
theory Decoder_Lifecycle
  imports Decoder_Own
begin

text \<open>
  The decoder as a whole: what it owns between the calls of its client, its invariant, and that every
  operation of its life cycle keeps them; the interpretation of \<open>service\<close>.
\<close>

definition base_owned :: "VideoDecoder \<Rightarrow> resource multiset" where
  "base_owned vd = (if vd_packet_buf vd = None then {#} else {#Heap DecoderBuf#}) + fd_res (vd_drm_fd vd)
     + (if vd_lock_initialized vd then {#Mutex VdLock#} else {#})
     + (if vd_cond_initialized vd then {#Cond VdCond#} else {#})"

definition mpp_owned :: "VideoDecoder \<Rightarrow> resource multiset" where
  "mpp_owned vd = (if vd_mpi vd = 0 then {#} else ptr_res MppCtx (vd_ctx vd)) + ptr_res MppPacket (vd_packet vd)"

definition threads_owned :: "VideoDecoder \<Rightarrow> resource multiset" where
  "threads_owned vd = ptr_res Thread (vd_frame_thread vd) + ptr_res Thread (vd_display_thread vd)"

definition core_owned :: "VideoDecoder \<Rightarrow> resource multiset" where
  "core_owned vd = base_owned vd + mpp_owned vd + frames_owned vd + bg_owned vd"

definition vd_owned :: "VideoDecoder \<Rightarrow> resource multiset" where
  "vd_owned vd = core_owned vd + threads_owned vd"

lemmas owned_defs = base_owned_def mpp_owned_def threads_owned_def

text \<open>
  An initialised decoder has all its parts; a running one is initialised; the frame map has its size.
\<close>

definition core_inv :: "VideoDecoder \<Rightarrow> bool" where
  "core_inv vd \<longleftrightarrow> bg_inv vd \<and> length (vd_frame_map vd) = DECODER_MAX_FRAMES
     \<and> (vd_lock_initialized vd \<longleftrightarrow> vd_cond_initialized vd)
     \<and> (vd_initialized vd \<longrightarrow> vd_lock_initialized vd \<and> vd_mpi vd \<noteq> 0 \<and> vd_ctx vd \<noteq> 0
          \<and> vd_packet vd \<noteq> 0 \<and> vd_packet_buf vd \<noteq> None)"

definition vd_inv :: "VideoDecoder \<Rightarrow> bool" where
  "vd_inv vd \<longleftrightarrow> core_inv vd \<and> (vd_running vd \<longrightarrow> vd_initialized vd)"

text \<open>The flags and the thread handles are no part of the core.\<close>

lemma core_owned_flags [simp]:
  "core_owned (vd\<lparr>vd_running := r\<rparr>) = core_owned vd" "core_owned (vd\<lparr>vd_eos_received := r\<rparr>) = core_owned vd"
  "core_owned (vd\<lparr>vd_frame_thread := p\<rparr>) = core_owned vd" "core_owned (vd\<lparr>vd_display_thread := p\<rparr>) = core_owned vd"
  "core_owned (vd\<lparr>vd_frame_thread_running := r\<rparr>) = core_owned vd"
  "core_owned (vd\<lparr>vd_display_thread_running := r\<rparr>) = core_owned vd"
  by (simp_all add: core_owned_def owned_defs frames_owned_def bg_owned_def)

lemma core_inv_flags [simp]:
  "core_inv (vd\<lparr>vd_running := r\<rparr>) = core_inv vd" "core_inv (vd\<lparr>vd_eos_received := r\<rparr>) = core_inv vd"
  "core_inv (vd\<lparr>vd_frame_thread := p\<rparr>) = core_inv vd" "core_inv (vd\<lparr>vd_display_thread := p\<rparr>) = core_inv vd"
  "core_inv (vd\<lparr>vd_frame_thread_running := r\<rparr>) = core_inv vd"
  "core_inv (vd\<lparr>vd_display_thread_running := r\<rparr>) = core_inv vd"
  by (simp_all add: core_inv_def bg_inv_def)

text \<open>No thread, or both and running: what holds when the threads end only by being stopped.\<close>

definition vd_idle :: "VideoDecoder \<Rightarrow> bool" where
  "vd_idle vd \<longleftrightarrow> \<not> vd_running vd \<and> vd_frame_thread vd = 0 \<and> vd_display_thread vd = 0"

definition vd_settled :: "VideoDecoder \<Rightarrow> bool" where
  "vd_settled vd \<longleftrightarrow> vd_idle vd \<or> (vd_running vd \<and> vd_frame_thread vd \<noteq> 0 \<and> vd_display_thread vd \<noteq> 0)"

section \<open>Starting and stopping\<close>

lemma start_frame_wp:
  assumes "Q (False, vd\<lparr>vd_eos_received := False, vd_frame_thread := 0, vd_running := False\<rparr>) M"
    and "\<And>p. 0 < p \<Longrightarrow> Q (True, vd\<lparr>vd_running := True, vd_eos_received := False, vd_frame_thread := p\<rparr>)
           (add_mset (Thread p) M)"
  shows "wp own (start_frame E vd) Q M"
  using assms unfolding start_frame_def Let_def by (intro wp_intros; simp add: own_simps)

lemma start_display_wp:
  assumes "Q (False, vd\<lparr>vd_display_thread := 0, vd_running := False\<rparr>) M"
    and "\<And>p. 0 < p \<Longrightarrow> Q (True, vd\<lparr>vd_display_thread := p\<rparr>) (add_mset (Thread p) M)"
  shows "wp own (start_display E vd) Q M"
  using assms unfolding start_display_def Let_def by (intro wp_intros; simp add: own_simps)

lemma join_frame_own:
  "wp own (join_frame vd) (\<lambda>vd' M'. M' = M + {#} \<and> vd' = vd\<lparr>vd_frame_thread := 0\<rparr>)
     (M + ptr_res Thread (vd_frame_thread vd))"
  unfolding join_frame_def by (intro wp_intros; simp add: own_simps)

lemma join_display_own:
  "wp own (join_display vd) (\<lambda>vd' M'. M' = M + {#} \<and> vd' = vd\<lparr>vd_display_thread := 0\<rparr>)
     (M + ptr_res Thread (vd_display_thread vd))"
  unfolding join_display_def by (intro wp_intros; simp add: own_simps)

lemma start_threads_own:
  assumes "vd_inv vd" and "vd_settled vd"
  shows "wp own (start_threads E vd)
     (\<lambda>x M'. M' = M + vd_owned (snd x) \<and> vd_inv (snd x) \<and> vd_settled (snd x) \<and> (fst x = 0 \<or> fst x = -1)) (M + vd_owned vd)"
  using assms unfolding start_threads_def
  by (intro wp_intros start_frame_wp start_display_wp
      wp_own_frame [OF join_frame_own];
    clarsimp simp: ptr_res_def threads_owned_def vd_owned_def vd_inv_def vd_settled_def vd_idle_def)

lemma request_stop_own:
  assumes "vd_lock_initialized vd \<longleftrightarrow> vd_cond_initialized vd"
  shows "wp own (request_stop vd)
     (\<lambda>x M'. M' = M + vd_owned vd \<and> x = (vd_running vd, vd\<lparr>vd_running := False\<rparr>)) (M + vd_owned vd)"
  using assms unfolding request_stop_def
  by (intro wp_intros; simp add: own_simps owned_defs vd_owned_def core_owned_def)

lemma drain_wp: "mpp_owned vd \<subseteq># M \<Longrightarrow> Q () M \<Longrightarrow> wp own (drain E b vd) Q M"
  unfolding drain_def
  by (intro wp_intros send_eos_wp; simp add: own_simps mpp_owned_def insert_subset_eq_iff)

lemma mpp_owned_sub: "mpp_owned (vd\<lparr>vd_running := r\<rparr>) \<subseteq># M + vd_owned vd"
  by (simp add: vd_owned_def core_owned_def mpp_owned_def)

lemma stop_threads_own:
  assumes "vd_inv vd"
  shows "wp own (stop_threads E vd)
     (\<lambda>vd' M'. M' = M + vd_owned vd' \<and> vd' = vd\<lparr>vd_running := False, vd_frame_thread := 0, vd_display_thread := 0\<rparr>)
     (M + vd_owned vd)"
  using assms unfolding stop_threads_def
  by (intro wp_intros wp_own_frame [OF request_stop_own] drain_wp
      wp_own_frame [OF join_frame_own] wp_own_frame [OF join_display_own];
    clarsimp simp: vd_inv_def core_inv_def mpp_owned_sub;
    simp add: vd_owned_def threads_owned_def ptr_res_def)

section \<open>Closing\<close>

lemma ptr_res_0 [simp]: "ptr_res k 0 = {#}"
  by (simp add: ptr_res_def)

lemma close_mpp_own:
  "wp own (close_mpp E vd) (\<lambda>vd' M'. M' = M + {#} \<and> vd' = vd\<lparr>vd_packet := 0, vd_ctx := 0, vd_mpi := 0\<rparr>)
     (M + mpp_owned vd)"
  unfolding close_mpp_def mpp_owned_def by (intro wp_intros; simp add: own_simps; auto)

text \<open>A closed decoder: nothing is left of it but the struct.\<close>

definition vd_closed :: "VideoDecoder \<Rightarrow> bool" where
  "vd_closed vd \<longleftrightarrow> vd_inv vd \<and> vd_idle vd \<and> vd_owned vd = {#}"

lemma close_rest_of_own:
  assumes "vd_background_fb vd = zero_fb" and "vd_frm_grp vd = 0" and "vd_mpi vd = 0" and "vd_packet vd = 0"
    and "vd_idle vd" and "length (vd_frame_map vd) = DECODER_MAX_FRAMES"
  shows "wp own (close_rest_of vd) (\<lambda>vd' M'. M' = M + {#} \<and> vd_closed vd') (M + base_owned vd)"
  using assms unfolding close_rest_of_def base_owned_def
  by (intro wp_intros;
    clarsimp simp: own_simps vd_closed_def vd_inv_def core_inv_def bg_inv_def vd_idle_def vd_owned_def core_owned_def
      base_owned_def mpp_owned_def threads_owned_def frames_owned_def bg_owned_def fb_owned_def zero_fb_def)

lemma deinit_own:
  assumes "vd_inv vd"
  shows "wp own (deinit E vd) (\<lambda>vd' M'. M' = M + {#} \<and> vd_closed vd') (M + vd_owned vd)"
  using assms unfolding deinit_def
  by (intro wp_intros wp_own_frame [OF stop_threads_own] wp_own_frame [OF close_mpp_own]
      wp_own_frame [OF release_frame_group_own] wp_own_frame [OF teardown_background_own]
      wp_own_frame [OF close_rest_of_own];
    clarsimp simp: vd_inv_def core_inv_def grp_step_def bg_step_defs bg_inv_def vd_idle_def
      vd_owned_def core_owned_def threads_owned_def mpp_owned_def frames_owned_def bg_owned_def base_owned_def)
section \<open>Opening\<close>

lemma blank_decoder_closed: "vd_closed (blank_decoder cfg ms)"
  by (simp add: blank_decoder_def zero_decoder_def vd_closed_def vd_inv_def core_inv_def bg_inv_def vd_idle_def
      vd_owned_def core_owned_def base_owned_def mpp_owned_def threads_owned_def frames_owned_def bg_owned_def
      fb_owned_def zero_fb_def fd_res_def id_res_def)

text \<open>What \<open>video\_decoder\_init\<close> promises: an initialised decoder or a closed one.\<close>

definition init_outcome :: "int \<times> VideoDecoder \<Rightarrow> bool" where
  "init_outcome x \<longleftrightarrow> vd_inv (snd x) \<and> vd_idle (snd x)
     \<and> (fst x = 0 \<and> vd_initialized (snd x) \<or> fst x = -1 \<and> vd_closed (snd x))"

lemma fail_init_own:
  assumes "vd_inv vd"
  shows "wp own (fail_init E vd)
     (\<lambda>x M'. M' = M + {#} \<and> init_outcome x \<and> vd_owned (snd x) = {#}) (M + vd_owned vd)"
  unfolding fail_init_def
  by (intro wp_intros wp_own_frame [OF deinit_own [OF assms]]) (auto simp: init_outcome_def vd_closed_def)

lemma mpp_parameters_wp:
  assumes "MppCtx (vd_ctx vd) \<in># M" and "Q () M"
  shows "wp own (set_mpp_decoding_parameters E vd) Q M"
  using assms unfolding set_mpp_decoding_parameters_def set_control_verbose_def
  by (intro wp_intros; simp add: own_simps)

text \<open>The decoder while it is opened: nothing runs, and there are no frame buffers.\<close>

definition vd_opening :: "VideoDecoder \<Rightarrow> bool" where
  "vd_opening vd \<longleftrightarrow> vd_inv vd \<and> vd_idle vd \<and> \<not> vd_initialized vd \<and> \<not> vd_lock_initialized vd \<and> \<not> vd_cond_initialized vd
     \<and> vd_frm_grp vd = 0 \<and> vd_packet_buf vd \<noteq> None"

lemma vd_openingD: "vd_opening vd \<Longrightarrow> vd_inv vd"
  by (simp add: vd_opening_def)

lemma finish_init_own:
  assumes "vd_opening vd" and "0 < vd_mpi vd" and "0 < vd_ctx vd" and "0 < vd_packet vd"
  shows "wp own (finish_init E vd) (\<lambda>x M'. M' = M + vd_owned (snd x) \<and> init_outcome x) (M + vd_owned vd)"
  using assms unfolding finish_init_def set_control_verbose_def reset_frame_map_def
  by (intro wp_intros mpp_parameters_wp;
    simp add: own_simps init_outcome_def vd_opening_def vd_inv_def core_inv_def bg_inv_def vd_idle_def
      vd_owned_def core_owned_def base_owned_def mpp_owned_def threads_owned_def frames_owned_def bg_owned_def)

lemma vd_opening_parts:
  assumes "vd_opening vd"
  shows "vd_opening (vd\<lparr>vd_packet := p\<rparr>)" and "vd_opening (vd\<lparr>vd_ctx := c, vd_mpi := a\<rparr>)"
    and "vd_packet vd = 0 \<Longrightarrow> vd_owned (vd\<lparr>vd_packet := p\<rparr>) = vd_owned vd + ptr_res MppPacket p"
    and "vd_mpi vd = 0 \<Longrightarrow> 0 < a \<Longrightarrow> vd_owned (vd\<lparr>vd_ctx := c, vd_mpi := a\<rparr>) = vd_owned vd + ptr_res MppCtx c"
    and "0 < vd_mpi vd \<Longrightarrow> 0 < vd_ctx vd \<Longrightarrow> MppCtx (vd_ctx vd) \<in># vd_owned vd"
  using assms
  by (simp_all add: vd_opening_def vd_inv_def core_inv_def bg_inv_def vd_idle_def
      vd_owned_def core_owned_def base_owned_def mpp_owned_def threads_owned_def frames_owned_def bg_owned_def ptr_res_def)

lemma open_packet_own:
  assumes "real_objects E" and "vd_opening vd" and "0 < vd_mpi vd" and "0 < vd_ctx vd" and "vd_packet vd = 0"
  shows "wp own (open_packet E vd) (\<lambda>x M'. M' = M + vd_owned (snd x) \<and> init_outcome x) (M + vd_owned vd)"
proof -
  have nz: "0 < p" if "e_packet_init (mpp E) t = Some p" for t p
    using that by (metis gr0I real_objectsD(2) [OF assms(1)])
  show ?thesis
    using assms(2-) unfolding open_packet_def Let_def set_control_verbose_def
    by (intro wp_intros wp_own_frame [OF fail_init_own [OF vd_openingD]] wp_own_frame [OF finish_init_own];
      simp add: own_simps vd_opening_parts nz)
qed

lemma open_mpp_own:
  assumes "real_objects E" and "vd_opening vd" and "vd_mpi vd = 0" and "vd_packet vd = 0"
  shows "wp own (open_mpp E vd) (\<lambda>x M'. M' = M + vd_owned (snd x) \<and> init_outcome x) (M + vd_owned vd)"
proof -
  have nz: "0 < c \<and> 0 < a" if "e_mpp_create (mpp E) t = (0, c, a)" for t c a
    using that by (metis gr0I real_objectsD(3,4) [OF assms(1)])
  show ?thesis
    using assms(2-) unfolding open_mpp_def
    by (intro wp_intros wp_own_frame [OF fail_init_own [OF vd_openingD]]
        wp_own_frame [OF open_packet_own [OF assms(1)]];
      clarsimp simp: own_simps vd_opening_parts dest!: nz)
qed

text \<open>The decoder between the descriptor and MPP.\<close>

definition opened_fd :: "AppCfg \<Rightarrow> ModesetResult \<Rightarrow> int \<Rightarrow> u32 list \<Rightarrow> VideoDecoder" where
  "opened_fd cfg ms fd ps = (blank_decoder cfg ms)\<lparr>vd_packet_buf := Some (replicate DECODER_READ_BUF_SIZE 0),
     vd_drm_fd := fd, vd_props := ps\<rparr>"

lemma opened_fd_facts:
  assumes "0 \<le> fd"
  shows "vd_opening (opened_fd cfg ms fd ps)" "vd_owned (opened_fd cfg ms fd ps) = {#Heap DecoderBuf, Fd fd#}"
    "bg_inv (opened_fd cfg ms fd ps)" "\<not> vd_background_initialized (opened_fd cfg ms fd ps)"
    "vd_background_fb (opened_fd cfg ms fd ps) = zero_fb" "bg_owned (opened_fd cfg ms fd ps) = {#}"
    "vd_mpi (opened_fd cfg ms fd ps) = 0" "vd_packet (opened_fd cfg ms fd ps) = 0"
  using assms
  by (simp_all add: opened_fd_def blank_decoder_def zero_decoder_def vd_opening_def vd_inv_def core_inv_def bg_inv_def
      vd_idle_def vd_owned_def core_owned_def base_owned_def mpp_owned_def threads_owned_def frames_owned_def
      bg_owned_def fb_owned_def zero_fb_def fd_res_def id_res_def)

lemma bg_step_opened:
  assumes "bg_step (opened_fd cfg ms fd ps) vd" and "bg_inv vd" and "0 \<le> fd"
  shows "vd_opening vd \<and> vd_owned vd = {#Heap DecoderBuf, Fd fd#} + bg_owned vd \<and> vd_mpi vd = 0 \<and> vd_packet vd = 0"
  using opened_fd_facts [OF assms(3), of cfg ms ps] assms(1,2)
  by (simp add: bg_step_defs vd_opening_def vd_inv_def core_inv_def vd_idle_def vd_owned_def core_owned_def
      base_owned_def mpp_owned_def threads_owned_def frames_owned_def)

lemma init_decoder_own:
  assumes "real_objects E"
  shows "wp own (init_decoder E cfg ms fd) (\<lambda>x M'. M' = M + vd_owned (snd x) \<and> init_outcome x) M"
proof -
  have closed: "vd_owned (blank_decoder cfg ms) = {#} \<and> init_outcome (-1, blank_decoder cfg ms)"
    using blank_decoder_closed [of cfg ms] by (simp add: vd_closed_def init_outcome_def)
  show ?thesis
    unfolding init_decoder_def Let_def
    apply (simp only: VideoDecoder.update_convs opened_fd_def [symmetric])
    apply (intro wp_intros query_props_wp wp_own_frame [OF fail_init_own]
        wp_own_frame [OF setup_black_background_own [OF assms]] wp_own_frame [OF open_mpp_own [OF assms]])
    apply (simp_all add: own_simps closed opened_fd_def [symmetric])
    apply (simp_all add: opened_fd_facts vd_openingD)
    apply (clarsimp, drule (1) bg_step_opened, simp, simp)+
    done
qed
section \<open>The service\<close>

definition dec_owned :: "VideoDecoder option \<Rightarrow> resource multiset" where
  "dec_owned p = (case p of None \<Rightarrow> {#} | Some vd \<Rightarrow> {#Heap VideoDecoderObj#} + vd_owned vd)"

definition dec_inv :: "VideoDecoder option \<Rightarrow> bool" where
  "dec_inv p \<longleftrightarrow> (case p of None \<Rightarrow> True | Some vd \<Rightarrow> vd_inv vd \<and> vd_settled vd)"

lemma video_decoder_start_own:
  assumes "dec_inv p"
  shows "wp own (video_decoder_start E p)
     (\<lambda>(r, p') M'. dec_inv p' \<and> M' = M + dec_owned p' \<and> (r = 0 \<or> r = -1)) (M + dec_owned p)"
  using assms unfolding video_decoder_start_def
  by (intro wp_intros wp_own_frame [OF start_threads_own]; clarsimp simp: dec_owned_def dec_inv_def)

lemma video_decoder_stop_own:
  assumes "dec_inv p"
  shows "wp own (video_decoder_stop E p) (\<lambda>p' M'. dec_inv p' \<and> M' = M + dec_owned p') (M + dec_owned p)"
  using assms unfolding video_decoder_stop_def
  by (intro wp_intros wp_own_frame [OF stop_threads_own];
    clarsimp simp: dec_owned_def dec_inv_def vd_inv_def vd_settled_def vd_idle_def)

lemma video_decoder_free_own:
  assumes "dec_inv p"
  shows "wp own (video_decoder_free E p) (\<lambda>_ M'. M' = M) (M + dec_owned p)"
  using assms unfolding video_decoder_free_def
  by (intro wp_intros wp_own_frame [OF deinit_own];
    clarsimp simp: dec_owned_def dec_inv_def own_simps)

interpretation dec: service dec_inv dec_owned "video_decoder_start E" "video_decoder_stop E" "video_decoder_free E" for E
  by unfold_locales (auto intro: video_decoder_start_own video_decoder_stop_own video_decoder_free_own)

lemma video_decoder_init_own:
  assumes "real_objects E"
  shows "wp own (video_decoder_init E (Some vd) (Some cfg) (Some ms) fd)
     (\<lambda>x M'. M' = M + (dec_owned (snd x) - {#Heap VideoDecoderObj#}) \<and> dec_inv (snd x) \<and> snd x \<noteq> None) M"
  unfolding video_decoder_init_def
  by (simp, intro wp_intros wp_mono [OF init_decoder_own [OF assms]])
    (auto intro!: wp_intros simp: dec_owned_def dec_inv_def init_outcome_def vd_settled_def)

definition decoder_session :: "env \<Rightarrow> AppCfg \<Rightarrow> ModesetResult \<Rightarrow> int \<Rightarrow> service_op list \<Rightarrow> unit io" where
  "decoder_session E cfg ms fd ops = do {
     p \<leftarrow> video_decoder_new E;
     case p of
       None \<Rightarrow> ret ()
     | Some vd \<Rightarrow> do {
         (_, p) \<leftarrow> video_decoder_init E (Some vd) (Some cfg) (Some ms) fd;
         p \<leftarrow> dec.run_ops E ops p;
         video_decoder_free E p
       }
   }"

text \<open>
  C12. The life of a decoder: made, opened, started and stopped in any order and freed, it gives back
  exactly what was held before, whichever calls fail on the way: every plane buffer, descriptor, MPP
  object, thread, lock and allocation is released once and nothing is used after its release. The
  one assumption is that libdrm and MPP hand out no null objects with a success code.
\<close>

theorem decoder_lifecycle:
  assumes "real_objects E"
  shows "wp own (decoder_session E cfg ms fd ops) (\<lambda>_ M'. M' = M) M"
proof -
  have rest: "wp own (State_Monad.bind (dec.run_ops E ops p) (video_decoder_free E)) (\<lambda>_ M'. M' = M)
      (add_mset (Heap VideoDecoderObj) (M + (dec_owned p - {#Heap VideoDecoderObj#})))"
    if "dec_inv p" "p \<noteq> None" for p
    using dec.run_ops_destroy [OF that(1), of E ops M] that(2) by (auto simp: dec_owned_def)
  show ?thesis
    unfolding decoder_session_def video_decoder_new_def
    apply (intro wp_intros)
    apply (auto simp: own_simps)
    apply (rule wp_mono [OF video_decoder_init_own [OF assms]])
    apply (intro wp_case_prod)
    subgoal for t x s' r p using rest [of p] by simp
    done
qed
text \<open>An environment in which the allocations, the descriptor and MPP are there.\<close>

definition mpp_only_env :: env where
  "mpp_only_env = null_env\<lparr>sys := (sys null_env)\<lparr>e_alloc := \<lambda>_ _. True, e_thread_new := \<lambda>_ _. 8\<rparr>,
     mpp := (mpp null_env)\<lparr>e_dup_fd := \<lambda>_ _. 7, e_mpp_create := \<lambda>_. (0, 3, 4), e_mpp_init := \<lambda>_. 0,
       e_packet_init := \<lambda>_. Some 5\<rparr>\<rparr>"

theorem decoder_lifecycle_witness:
  "monitor own {#} (trace_of (decoder_session mpp_only_env cfg_defaults
     \<lparr>ms_connector_id = 1, ms_crtc_id = 2, ms_mode_w = 1920, ms_mode_h = 1080, ms_mode_hz = 60\<rparr> 3 [OpStart, OpStop])) = Some {#}"
proof -
  have "real_objects mpp_only_env" by (simp add: real_objects_def mpp_only_env_def null_env_def)
  from wp_trace_of [OF decoder_lifecycle [OF this]] show ?thesis by blast
qed

text \<open>
  A decoder that was never opened holds the zeroes of \<open>g\_new0\<close>, and 0 is a descriptor: freeing it closes
  a descriptor it does not own.
\<close>

lemma free_of_new_closes_stdin:
  "monitor own {#} (trace_of (State_Monad.bind (video_decoder_new mpp_only_env) (video_decoder_free mpp_only_env))) = None"
  by (simp add: trace_of_def video_decoder_new_def video_decoder_free_def deinit_def stop_threads_def request_stop_def
      drain_def join_frame_def join_display_def close_mpp_def release_frame_group_def teardown_background_def
      close_rest_of_def zero_decoder_def zero_fb_def io_when_def mpp_only_env_def null_env_def own_def own_by_def own_simps)

end
