(* ===== verification/Udp_Receiver.thy ===== *)
theory Udp_Receiver
  imports Service "HOL-Library.Sublist"
begin

text \<open>
  \<open>src/udp\_receiver.c\<close>: the socket, the thread that turns datagrams into GStreamer buffers, and the
  life cycle around them. The struct is passed and returned; its lock, descriptor, thread, buffer pool
  and reference on the appsrc are resources of the trace. The thread is one \<open>receiver_step\<close> per turn of
  its loop; \<open>Udp_Threads\<close> interleaves the steps with the owner's calls.
\<close>

definition UDP_MAX_PACKET :: nat where
  "UDP_MAX_PACKET = 4 * 1024"

record UdpReceiver =
  ur_udp_port :: int
  ur_vid_pt :: int
  ur_video_appsrc :: ptr
  ur_sockfd :: int
  ur_thread :: ptr
  ur_running :: bool
  ur_stop_requested :: bool
  ur_pool :: ptr
  ur_pool_active :: bool

definition ensure_buffer_pool :: "env \<Rightarrow> UdpReceiver \<Rightarrow> (bool \<times> UdpReceiver) io" where
  "ensure_buffer_pool E ur =
     (if ur_pool ur \<noteq> 0 then
        if \<not> ur_pool_active ur then do {
          ok \<leftarrow> gst_buffer_pool_set_active E (ur_pool ur) True;
          if \<not> ok then ret (False, ur) else ret (True, ur\<lparr>ur_pool_active := True\<rparr>)
        } else ret (True, ur)
      else do {
        pool \<leftarrow> gst_buffer_pool_new E;
        if pool = 0 then ret (False, ur) else do {
          config \<leftarrow> gst_buffer_pool_get_config E pool;
          gst_buffer_pool_config_set_params config UDP_MAX_PACKET 8 32;
          ok \<leftarrow> gst_buffer_pool_set_config E pool config;
          if \<not> ok then do { gst_object_unref pool; ret (False, ur) } else do {
            ok \<leftarrow> gst_buffer_pool_set_active E pool True;
            if \<not> ok then do { gst_object_unref pool; ret (False, ur) }
            else ret (True, ur\<lparr>ur_pool := pool, ur_pool_active := True\<rparr>)
          }
        }
      })"

text \<open>The C function takes the length beside the pointer; the list has it.\<close>

definition payload_type_matches :: "u8 list \<Rightarrow> int \<Rightarrow> bool" where
  "payload_type_matches data expected_pt =
     (if expected_pt < 0 then True
      else if length data < 2 then False
      else and (data ! 1) 0x7F = (word_of_int expected_pt :: u8))"

text \<open>
  The loop body behind the payload check, where \<open>pkt\<close> is \<open>buffer[0..n)\<close>: a buffer from the pool or
  freshly allocated, then the copy and the push.
\<close>

definition packet_buffer :: "env \<Rightarrow> UdpReceiver \<Rightarrow> nat \<Rightarrow> (ptr \<times> UdpReceiver) io" where
  "packet_buffer E ur n = do {
     (ok, ur) \<leftarrow> ensure_buffer_pool E ur;
     gst_buf \<leftarrow> (if ok then do {
                   (acquire_ret, b) \<leftarrow> gst_buffer_pool_acquire_buffer E (ur_pool ur);
                   ret (if acquire_ret \<noteq> 0 then 0 else b)
                 } else ret 0);
     if gst_buf = 0 then do { gst_buf \<leftarrow> gst_buffer_new_allocate E n; ret (gst_buf, ur) }
     else ret (gst_buf, ur)
   }"

definition push_packet :: "env \<Rightarrow> UdpReceiver \<Rightarrow> u8 list \<Rightarrow> UdpReceiver io" where
  "push_packet E ur pkt = do {
     (gst_buf, ur) \<leftarrow> packet_buffer E ur (length pkt);
     if gst_buf = 0 then ret ur
     else do {
       map \<leftarrow> gst_buffer_map E gst_buf;
       case map of
         None \<Rightarrow> do { gst_buffer_unref gst_buf; ret ur }
       | Some mem \<Rightarrow>
           if length mem < length pkt then do {
             gst_buffer_unmap gst_buf;
             gst_buffer_unref gst_buf;
             ret ur
           } else do {
             gst_buffer_unmap gst_buf;
             gst_buffer_set_size gst_buf (length pkt);
             _ \<leftarrow> gst_app_src_push_buffer E (ur_video_appsrc ur) gst_buf
                    (take (length pkt) (memcpy mem pkt (length pkt)));
             ret ur
           }
     }
   }"

text \<open>One turn of the thread's loop: the look at the flag under the lock, then a datagram.\<close>

definition receiver_check :: "UdpReceiver \<Rightarrow> bool io" where
  "receiver_check ur = do {
     g_mutex_lock UrLock;
     let stop = ur_stop_requested ur;
     g_mutex_unlock UrLock;
     ret stop
   }"

definition receiver_packet :: "env \<Rightarrow> UdpReceiver \<Rightarrow> UdpReceiver io" where
  "receiver_packet E ur = do {
     n \<leftarrow> sys_recv E (ur_sockfd ur) UDP_MAX_PACKET;
     case n of
       RecvErr _ \<Rightarrow> ret ur
     | Recv pkt \<Rightarrow>
         if pkt = [] then ret ur
         else if \<not> payload_type_matches pkt (ur_vid_pt ur) then ret ur
         else push_packet E ur pkt
   }"

definition receiver_step :: "env \<Rightarrow> UdpReceiver \<Rightarrow> (bool \<times> UdpReceiver) io" where
  "receiver_step E ur = do {
     stop \<leftarrow> receiver_check ur;
     if stop then ret (True, ur)
     else do { ur \<leftarrow> receiver_packet E ur; ret (False, ur) }
   }"

text \<open>\<open>n\<close> turns of the loop, or fewer when it stops.\<close>

fun receiver_loop :: "env \<Rightarrow> nat \<Rightarrow> UdpReceiver \<Rightarrow> (bool \<times> UdpReceiver) io" where
  "receiver_loop E 0 ur = ret (False, ur)"
| "receiver_loop E (Suc n) ur = do {
     (stop, ur) \<leftarrow> receiver_step E ur;
     if stop then ret (True, ur) else receiver_loop E n ur
   }"

definition udp_receiver_create :: "env \<Rightarrow> int \<Rightarrow> int \<Rightarrow> ptr \<Rightarrow> UdpReceiver option io" where
  "udp_receiver_create E udp_port vid_pt video_appsrc =
     (if video_appsrc = 0 then ret None
      else do {
        ok \<leftarrow> g_alloc E UdpReceiverObj;
        if \<not> ok then ret None
        else do {
          gst_object_ref video_appsrc;
          g_mutex_init UrLock;
          ret (Some \<lparr>ur_udp_port = udp_port, ur_vid_pt = vid_pt, ur_video_appsrc = video_appsrc,
                     ur_sockfd = -1, ur_thread = 0, ur_running = False, ur_stop_requested = False,
                     ur_pool = 0, ur_pool_active = False\<rparr>)
        }
      })"

definition udp_receiver_start :: "env \<Rightarrow> UdpReceiver option \<Rightarrow> (int \<times> UdpReceiver option) io" where
  "udp_receiver_start E p =
     (case p of None \<Rightarrow> ret (-1, None)
      | Some ur \<Rightarrow> do {
          g_mutex_lock UrLock;
          if ur_running ur then do { g_mutex_unlock UrLock; ret (0, Some ur) }
          else do {
            let ur = ur\<lparr>ur_stop_requested := False\<rparr>;
            g_mutex_unlock UrLock;
            fd \<leftarrow> sys_socket E;
            if fd < 0 then ret (-1, Some ur)
            else do {
              _ \<leftarrow> sys_setsockopt E fd ''SO_REUSEADDR'' 1;
              _ \<leftarrow> sys_setsockopt E fd ''SO_RCVTIMEO'' 200000;
              r \<leftarrow> sys_bind E fd (word_of_int (ur_udp_port ur));
              if r < 0 then do { sys_close fd; ret (-1, Some ur) }
              else do {
                g_mutex_lock UrLock;
                let ur = ur\<lparr>ur_sockfd := fd, ur_running := True\<rparr>;
                g_mutex_unlock UrLock;
                thread \<leftarrow> g_thread_new E ''udp-receiver'';
                let ur = ur\<lparr>ur_thread := thread\<rparr>;
                if thread = 0 then do {
                  g_mutex_lock UrLock;
                  let ur = ur\<lparr>ur_running := False\<rparr>;
                  g_mutex_unlock UrLock;
                  sys_close fd;
                  ret (-1, Some (ur\<lparr>ur_sockfd := -1\<rparr>))
                } else ret (0, Some ur)
              }
            }
          }
        })"

text \<open>
  \<open>udp_receiver_stop\<close> in its three parts: the request, the join of the thread, and the rest behind it.
\<close>

definition stop_request :: "UdpReceiver \<Rightarrow> (bool \<times> UdpReceiver) io" where
  "stop_request ur = do {
     g_mutex_lock UrLock;
     if \<not> ur_running ur then do { g_mutex_unlock UrLock; ret (False, ur) }
     else do {
       let ur = ur\<lparr>ur_stop_requested := True\<rparr>;
       g_mutex_unlock UrLock;
       io_when (0 \<le> ur_sockfd ur) (sys_shutdown (ur_sockfd ur));
       ret (True, ur)
     }
   }"

definition stop_join :: "UdpReceiver \<Rightarrow> UdpReceiver io" where
  "stop_join ur =
     (if ur_thread ur \<noteq> 0 then do { g_thread_join (ur_thread ur); ret (ur\<lparr>ur_thread := 0\<rparr>) }
      else ret ur)"

definition stop_finish :: "UdpReceiver \<Rightarrow> UdpReceiver io" where
  "stop_finish ur = do {
     ur \<leftarrow> (if 0 \<le> ur_sockfd ur then do { sys_close (ur_sockfd ur); ret (ur\<lparr>ur_sockfd := -1\<rparr>) }
            else ret ur);
     g_mutex_lock UrLock;
     let ur = ur\<lparr>ur_running := False, ur_stop_requested := False\<rparr>;
     g_mutex_unlock UrLock;
     ret ur
   }"

definition receiver_stop :: "UdpReceiver \<Rightarrow> UdpReceiver io" where
  "receiver_stop ur = do {
     (go, ur) \<leftarrow> stop_request ur;
     if go then do { ur \<leftarrow> stop_join ur; stop_finish ur } else ret ur
   }"

definition udp_receiver_stop :: "UdpReceiver option \<Rightarrow> UdpReceiver option io" where
  "udp_receiver_stop p =
     (case p of None \<Rightarrow> ret None
      | Some ur \<Rightarrow> do { ur \<leftarrow> receiver_stop ur; ret (Some ur) })"

definition udp_receiver_destroy :: "env \<Rightarrow> UdpReceiver option \<Rightarrow> unit io" where
  "udp_receiver_destroy E p =
     (case p of None \<Rightarrow> ret ()
      | Some ur \<Rightarrow> do {
          ur \<leftarrow> receiver_stop ur;
          io_when (ur_video_appsrc ur \<noteq> 0) (gst_object_unref (ur_video_appsrc ur));
          io_when (ur_pool ur \<noteq> 0) (do {
            io_when (ur_pool_active ur) (do {
              _ \<leftarrow> gst_buffer_pool_set_active E (ur_pool ur) False;
              ret ()
            });
            gst_object_unref (ur_pool ur)
          });
          g_mutex_clear UrLock;
          g_free UdpReceiverObj
        })"

section \<open>Ownership\<close>

text \<open>
  What a receiver owns, and its invariant between the owner's calls: it is running exactly when it
  has a thread and a socket, and a stop is requested only while it is running.
\<close>

definition ur_owned :: "UdpReceiver \<Rightarrow> resource multiset" where
  "ur_owned ur =
     {#Heap UdpReceiverObj, Mutex UrLock#} + ptr_res Ref (ur_video_appsrc ur) + ptr_res Ref (ur_pool ur)
     + fd_res (ur_sockfd ur) + ptr_res Thread (ur_thread ur)"

definition ur_inv :: "UdpReceiver \<Rightarrow> bool" where
  "ur_inv ur \<longleftrightarrow>
     (ur_running ur \<longleftrightarrow> 0 \<le> ur_sockfd ur) \<and> (ur_running ur \<longleftrightarrow> ur_thread ur \<noteq> 0)
   \<and> ur_video_appsrc ur \<noteq> 0 \<and> \<not> ur_stop_requested ur"

text \<open>What the thread changes of the struct: the pool.\<close>

definition pool_step :: "UdpReceiver \<Rightarrow> UdpReceiver \<Rightarrow> bool" where
  "pool_step ur ur' \<longleftrightarrow> ur' = ur\<lparr>ur_pool := ur_pool ur', ur_pool_active := ur_pool_active ur'\<rparr>"

lemma ensure_buffer_pool_own:
  "wp own (ensure_buffer_pool E ur)
     (\<lambda>x M'. M' = M + ptr_res Ref (ur_pool (snd x)) \<and> pool_step ur (snd x)
        \<and> (fst x \<longrightarrow> ur_pool (snd x) \<noteq> 0))
     (M + ptr_res Ref (ur_pool ur))"
  unfolding ensure_buffer_pool_def
  by (intro wp_intros) (auto simp: own_simps pool_step_def)

lemmas ensure_buffer_pool_wp = wp_own_frame [OF ensure_buffer_pool_own]

lemma packet_buffer_own:
  "wp own (packet_buffer E ur n)
     (\<lambda>x M'. M' = M + (ptr_res Ref (ur_pool (snd x)) + ptr_res Buf (fst x)) \<and> pool_step ur (snd x))
     (M + ptr_res Ref (ur_pool ur))"
  unfolding packet_buffer_def
  by (intro wp_intros ensure_buffer_pool_wp) (auto simp: own_simps split: if_splits)

lemmas packet_buffer_wp = wp_own_frame [OF packet_buffer_own]

text \<open>The thread's calls need the reference on the appsrc and the pool's own.\<close>

definition thread_needs :: "UdpReceiver \<Rightarrow> resource multiset" where
  "thread_needs ur = {#Ref (ur_video_appsrc ur)#} + ptr_res Ref (ur_pool ur)"

lemma pool_step_appsrc: "pool_step ur ur' \<Longrightarrow> ur_video_appsrc ur' = ur_video_appsrc ur"
  by (cases ur; cases ur') (simp add: pool_step_def)

lemma push_packet_own:
  "wp own (push_packet E ur pkt)
     (\<lambda>ur' M'. M' = M + thread_needs ur' \<and> pool_step ur ur') (M + thread_needs ur)"
  unfolding push_packet_def
  by (intro wp_intros packet_buffer_wp) (simp_all add: own_simps thread_needs_def pool_step_appsrc)

lemmas push_packet_wp = wp_own_frame [OF push_packet_own]

lemma pool_step_refl [simp]: "pool_step ur ur"
  by (simp add: pool_step_def)

lemma thread_owned:
  assumes "ur_inv ur"
  shows "thread_needs ur \<subseteq># M + ur_owned ur"
    and "M + ur_owned ur - thread_needs ur =
      M + {#Heap UdpReceiverObj, Mutex UrLock#} + fd_res (ur_sockfd ur) + ptr_res Thread (ur_thread ur)"
  using assms by (simp_all add: thread_needs_def ur_owned_def ur_inv_def ptr_res_def)

lemma pool_step_owned:
  assumes "pool_step ur ur'" and "ur_video_appsrc ur \<noteq> 0"
  shows "{#Heap UdpReceiverObj, Mutex UrLock#} + fd_res (ur_sockfd ur) + ptr_res Thread (ur_thread ur)
      + thread_needs ur' = ur_owned ur'"
  using assms by (cases ur; cases ur') (simp add: pool_step_def thread_needs_def
      ur_owned_def ptr_res_def)

text \<open>One turn of the thread while its owner has it running.\<close>

definition step_needs :: "UdpReceiver \<Rightarrow> resource multiset" where
  "step_needs ur = thread_needs ur + {#Mutex UrLock, Fd (ur_sockfd ur)#}"

lemma pool_step_sockfd: "pool_step ur ur' \<Longrightarrow> ur_sockfd ur' = ur_sockfd ur"
  by (cases ur; cases ur') (simp add: pool_step_def)

lemma receiver_check_own:
  "wp own (receiver_check ur) (\<lambda>x M'. M' = M + {#Mutex UrLock#} \<and> x = ur_stop_requested ur)
     (M + {#Mutex UrLock#})"
  unfolding receiver_check_def by (intro wp_intros) (simp_all add: own_simps)

lemma receiver_packet_own:
  "wp own (receiver_packet E ur)
     (\<lambda>ur' M'. M' = M + step_needs ur' \<and> pool_step ur ur') (M + step_needs ur)"
  unfolding receiver_packet_def
  by (intro wp_intros push_packet_wp) (simp_all add: own_simps step_needs_def pool_step_sockfd)

section \<open>The owner's calls\<close>

definition opt_owned :: "UdpReceiver option \<Rightarrow> resource multiset" where
  "opt_owned p = (case p of None \<Rightarrow> {#} | Some ur \<Rightarrow> ur_owned ur)"

definition opt_inv :: "UdpReceiver option \<Rightarrow> bool" where
  "opt_inv p \<longleftrightarrow> (case p of None \<Rightarrow> True | Some ur \<Rightarrow> ur_inv ur)"

lemma udp_receiver_create_own:
  "wp own (udp_receiver_create E port pt src)
     (\<lambda>p M'. M' = M + {#Ref src#} + opt_owned p \<and> opt_inv p
        \<and> (\<forall>ur. p = Some ur \<longrightarrow> \<not> ur_running ur)) (M + {#Ref src#})"
  unfolding udp_receiver_create_def
  by (intro wp_intros) (simp_all add: own_simps opt_owned_def opt_inv_def ur_owned_def ur_inv_def)

lemma udp_receiver_start_own:
  assumes "opt_inv p"
  shows "wp own (udp_receiver_start E p)
     (\<lambda>(r, p') M'. opt_inv p' \<and> M' = M + opt_owned p' \<and> (r = 0 \<or> r = -1)) (M + opt_owned p)"
  unfolding udp_receiver_start_def
  using assms
  by (intro wp_intros) (simp_all add: own_simps opt_owned_def opt_inv_def ur_owned_def ur_inv_def)

lemma receiver_stop_own:
  assumes "ur_inv ur"
  shows "wp own (receiver_stop ur)
     (\<lambda>ur' M'. M' = M + ur_owned ur' \<and> ur_inv ur' \<and> \<not> ur_running ur' \<and> ur_pool ur' = ur_pool ur
        \<and> ur_video_appsrc ur' = ur_video_appsrc ur) (M + ur_owned ur)"
  unfolding receiver_stop_def stop_request_def stop_join_def stop_finish_def
  using assms
  by (intro wp_intros; clarsimp simp: own_simps ur_owned_def ur_inv_def)

lemmas receiver_stop_wp = wp_own_frame [OF receiver_stop_own]

lemma udp_receiver_stop_own:
  assumes "opt_inv p"
  shows "wp own (udp_receiver_stop p) (\<lambda>p' M'. opt_inv p' \<and> M' = M + opt_owned p') (M + opt_owned p)"
  using assms unfolding udp_receiver_stop_def
  by (intro wp_intros wp_own_frame [OF receiver_stop_own])
    (auto simp: opt_owned_def opt_inv_def)

lemma udp_receiver_destroy_own:
  assumes "opt_inv p"
  shows "wp own (udp_receiver_destroy E p) (\<lambda>_ M'. M' = M) (M + opt_owned p)"
  using assms unfolding udp_receiver_destroy_def
  by (intro wp_intros wp_own_frame [OF receiver_stop_own];
      clarsimp simp: own_simps opt_owned_def opt_inv_def ur_owned_def ur_inv_def)

interpretation udp: service opt_inv opt_owned "udp_receiver_start E" udp_receiver_stop
  "udp_receiver_destroy E" for E
  by unfold_locales
    (auto intro: udp_receiver_start_own udp_receiver_stop_own udp_receiver_destroy_own)

section \<open>Properties\<close>

text \<open>
  The payload filter on a packet: a negative configured type lets everything through;
  otherwise the packet needs its second byte, whose low seven bits must be the configured type modulo
  256 (so a type above 127 matches nothing, and 256 + n means n).
\<close>

lemma payload_type_matches_iff:
  "payload_type_matches pkt pt \<longleftrightarrow>
     pt < 0 \<or> (2 \<le> length pkt \<and> uint (pkt ! 1) mod 128 = pt mod 256)"
proof -
  have "uint (and b 0x7F) = uint b mod 128" for b :: u8
  proof -
    have "and (uint b) 127 = take_bit 7 (uint b)"
      by (simp add: take_bit_eq_mask mask_eq_exp_minus_1)
    then show ?thesis by (simp add: unsigned_and_eq take_bit_eq_mod)
  qed
  moreover have "uint (word_of_int pt :: u8) = pt mod 256"
    by (simp add: uint_word_of_int)
  ultimately have "and (pkt ! 1) 0x7F = (word_of_int pt :: u8) \<longleftrightarrow> uint (pkt ! 1) mod 128 = pt mod 256"
    by (metis word_uint_eq_iff)
  then show ?thesis by (auto simp: payload_type_matches_def)
qed

text \<open>What the receiver took off the socket and what it handed to the appsrc, oldest first.\<close>

definition rx_tx :: "event \<Rightarrow> u8 list list \<times> u8 list list \<Rightarrow> u8 list list \<times> u8 list list" where
  "rx_tx e s = (case e of
     Sys (EvRecv _ (Recv pkt)) \<Rightarrow> (fst s @ [pkt], snd s)
   | Gst (EvPushBuffer _ _ bytes _) \<Rightarrow> (fst s, snd s @ [bytes])
   | _ \<Rightarrow> s)"

definition received :: "trace \<Rightarrow> u8 list list" where
  "received t = fst (foldr rx_tx t ([], []))"

definition pushed :: "trace \<Rightarrow> u8 list list" where
  "pushed t = snd (foldr rx_tx t ([], []))"

text \<open>The packets that are to be forwarded.\<close>

definition wanted :: "int \<Rightarrow> u8 list \<Rightarrow> bool" where
  "wanted pt pkt \<longleftrightarrow> pkt \<noteq> [] \<and> payload_type_matches pkt pt"

lemma wp_rx_tx:
  assumes "wp (observe rx_tx) m (\<lambda>_. P) ([], [])"
  shows "P (received (trace_of m), pushed (trace_of m))"
  using assms unfolding wp_def
  by (elim allE [of _ "[]"]) (auto simp: monitor_observe received_def pushed_def trace_of_def)

lemma ensure_buffer_pool_rx_tx:
  "(\<And>ok ur'. pool_step ur ur' \<Longrightarrow> Q (ok, ur') s) \<Longrightarrow> wp (observe rx_tx) (ensure_buffer_pool E ur) Q s"
  unfolding ensure_buffer_pool_def
  by (intro wp_intros observe_intros; simp add: rx_tx_def pool_step_def)

text \<open>An environment in which no buffer is refused and every buffer is as large as the pool's.\<close>

definition ample :: "env \<Rightarrow> bool" where
  "ample E \<longleftrightarrow> (\<forall>t n. e_buffer_new (gst E) t n \<noteq> 0)
     \<and> (\<forall>t b. \<exists>mem. e_buffer_map (gst E) t b = Some mem \<and> UDP_MAX_PACKET \<le> length mem)"

lemma packet_buffer_rx_tx:
  assumes "\<And>b ur'. pool_step ur ur' \<Longrightarrow> (ample E \<Longrightarrow> b \<noteq> 0) \<Longrightarrow> Q (b, ur') s"
  shows "wp (observe rx_tx) (packet_buffer E ur n) Q s"
  unfolding packet_buffer_def
  by (intro wp_intros observe_intros ensure_buffer_pool_rx_tx)
    (auto simp: rx_tx_def ample_def intro!: assms split: if_splits)

lemma push_packet_rx_tx:
  assumes "\<And>ur' tx. pool_step ur ur' \<Longrightarrow> tx = [] \<or> tx = [pkt] \<Longrightarrow>
      (ample E \<Longrightarrow> length pkt \<le> UDP_MAX_PACKET \<Longrightarrow> tx = [pkt]) \<Longrightarrow> Q ur' (fst s, snd s @ tx)"
  shows "wp (observe rx_tx) (push_packet E ur pkt) Q s"
proof -
  have none: "Q ur' s" if "pool_step ur ur'" "\<not> (ample E \<and> length pkt \<le> UDP_MAX_PACKET)" for ur'
    using assms [of ur' "[]"] that by simp
  have one: "Q ur' (fst s, snd s @ [pkt])" if "pool_step ur ur'" for ur'
    using assms [of ur' "[pkt]"] that by simp
  have refused: "\<not> ample E" if "e_buffer_map (gst E) t b = None" for t b
    using that by (auto simp: ample_def) (metis option.distinct(1))
  have small: "\<not> (ample E \<and> length pkt \<le> UDP_MAX_PACKET)"
    if "e_buffer_map (gst E) t b = Some mem" "length mem < length pkt" for t b mem
  proof
    assume a: "ample E \<and> length pkt \<le> UDP_MAX_PACKET"
    then obtain mem' where "e_buffer_map (gst E) t b = Some mem'" "UDP_MAX_PACKET \<le> length mem'"
      unfolding ample_def by blast
    then show False using a that by simp
  qed
  show ?thesis
    unfolding push_packet_def
    by (intro wp_intros observe_intros packet_buffer_rx_tx)
      (auto simp: rx_tx_def intro!: none one dest: refused small)
qed

lemma receiver_packet_rx_tx:
  assumes "\<And>ur' rx tx. pool_step ur ur' \<Longrightarrow> subseq tx (filter (wanted (ur_vid_pt ur)) rx) \<Longrightarrow>
      (ample E \<Longrightarrow> tx = filter (wanted (ur_vid_pt ur)) rx) \<Longrightarrow> Q ur' (fst s @ rx, snd s @ tx)"
  shows "wp (observe rx_tx) (receiver_packet E ur) Q s"
proof -
  have short: "length bs \<le> UDP_MAX_PACKET" if "cut_datagram UDP_MAX_PACKET r = Recv bs" for r bs
    using that by (cases r) auto
  have keep: "Q ur s" using assms [of ur "[]" "[]"] by simp
  have drop: "Q ur (fst s @ [bs], snd s)" if "\<not> wanted (ur_vid_pt ur) bs" for bs
    using assms [of ur "[]" "[bs]"] that by simp
  have push: "Q ur' (fst s @ [bs], snd s @ tx)"
    if "pool_step ur ur'" "tx = [] \<or> tx = [bs]" "ample E \<Longrightarrow> length bs \<le> UDP_MAX_PACKET \<Longrightarrow> tx = [bs]"
      "wanted (ur_vid_pt ur) bs" "length bs \<le> UDP_MAX_PACKET" for ur' tx bs
    using assms [of ur' tx "[bs]"] that by auto
  show ?thesis
    unfolding receiver_packet_def
    by (intro wp_intros observe_intros push_packet_rx_tx)
      (auto simp: rx_tx_def wanted_def keep intro: drop push dest: short)
qed

lemma receiver_step_rx_tx:
  assumes "\<And>x rx tx. pool_step ur (snd x) \<Longrightarrow> subseq tx (filter (wanted (ur_vid_pt ur)) rx) \<Longrightarrow>
      (ample E \<Longrightarrow> tx = filter (wanted (ur_vid_pt ur)) rx) \<Longrightarrow> Q x (fst s @ rx, snd s @ tx)"
  shows "wp (observe rx_tx) (receiver_step E ur) Q s"
proof -
  have keep: "Q (True, ur) s" using assms [of "(True, ur)" "[]" "[]"] by simp
  show ?thesis
    unfolding receiver_step_def receiver_check_def
    by (intro wp_intros observe_intros receiver_packet_rx_tx) (auto simp: rx_tx_def keep intro!: assms)
qed

lemma pool_step_vid_pt: "pool_step ur ur' \<Longrightarrow> ur_vid_pt ur' = ur_vid_pt ur"
  by (cases ur; cases ur') (simp add: pool_step_def)

definition forwards :: "env \<Rightarrow> int \<Rightarrow> u8 list list \<times> u8 list list \<Rightarrow> bool" where
  "forwards E pt s \<longleftrightarrow> subseq (snd s) (filter (wanted pt) (fst s))
     \<and> (ample E \<longrightarrow> snd s = filter (wanted pt) (fst s))"

lemma forwards_append:
  assumes "forwards E pt s" and "subseq tx (filter (wanted pt) rx)"
    and "ample E \<Longrightarrow> tx = filter (wanted pt) rx"
  shows "forwards E pt (fst s @ rx, snd s @ tx)"
  using assms by (auto simp: forwards_def intro: list_emb_append_mono)

lemma receiver_loop_rx_tx:
  "forwards E (ur_vid_pt ur) s \<Longrightarrow>
   wp (observe rx_tx) (receiver_loop E n ur) (\<lambda>_. forwards E (ur_vid_pt ur)) s"
proof (induction n arbitrary: ur s)
  case 0
  then show ?case by (auto intro: wp_return)
next
  case (Suc n)
  have cont: "wp (observe rx_tx) (receiver_loop E n ur') (\<lambda>_. forwards E (ur_vid_pt ur)) s'"
    if "pool_step ur ur'" "forwards E (ur_vid_pt ur) s'" for ur' s'
    using Suc.IH [of ur' s'] that pool_step_vid_pt [OF that(1)] by simp
  show ?case
    unfolding receiver_loop.simps
  proof (intro wp_bind receiver_step_rx_tx)
    fix x :: "bool \<times> UdpReceiver" and rx tx
    assume x: "pool_step ur (snd x)" "subseq tx (filter (wanted (ur_vid_pt ur)) rx)"
      "ample E \<Longrightarrow> tx = filter (wanted (ur_vid_pt ur)) rx"
    have "forwards E (ur_vid_pt ur) (fst s @ rx, snd s @ tx)"
      using Suc.prems x(2,3) by (rule forwards_append)
    then show "wp (observe rx_tx)
        (case x of (stop, ur) \<Rightarrow> if stop then ret (True, ur) else receiver_loop E n ur)
        (\<lambda>_. forwards E (ur_vid_pt ur)) (fst s @ rx, snd s @ tx)"
      using cont [OF x(1)] by (cases x) (auto intro: wp_return)
  qed
qed

text \<open>
  C14. Whatever the network and GStreamer do, in any number of turns of the receiver's thread the
  buffers handed to the appsrc are, in order and byte for byte, datagrams (cut to the 4 KiB buffer)
  of the configured payload type that were received, none twice; and when no buffer is refused or too
  small, they are all of them.
\<close>

theorem receiver_forwards:
  "let t = trace_of (receiver_loop E n ur)
   in subseq (pushed t) (filter (wanted (ur_vid_pt ur)) (received t))
    \<and> (ample E \<longrightarrow> pushed t = filter (wanted (ur_vid_pt ur)) (received t))"
  using wp_rx_tx [OF receiver_loop_rx_tx [of E ur "([], [])" n]]
  by (simp add: forwards_def Let_def)

text \<open>An environment where every call succeeds, and one that delivers two packets.\<close>

definition calm_sys :: sys_env where
  "calm_sys = \<lparr>e_socket = \<lambda>_. 3, e_setsockopt = \<lambda>_ _ _. 0, e_bind = \<lambda>_ _ _. 0,
     e_recv = \<lambda>_ _. RecvErr 11, e_thread_new = \<lambda>_ _. 1, e_alloc = \<lambda>_ _. True\<rparr>"

definition calm_gst :: gst_env where
  "calm_gst = \<lparr>e_pool_new = \<lambda>_. 0, e_pool_get_config = \<lambda>_ _. 1, e_pool_set_config = \<lambda>_ _. True,
     e_pool_set_active = \<lambda>_ _ _. True, e_pool_acquire = \<lambda>_ _. (0, 7), e_buffer_new = \<lambda>_ _. 8,
     e_buffer_map = \<lambda>_ _. Some (replicate UDP_MAX_PACKET 0), e_push_buffer = \<lambda>_ _. 0\<rparr>"

definition two_packets :: "trace \<Rightarrow> int \<Rightarrow> recv_result" where
  "two_packets t fd = (case received t of
     [] \<Rightarrow> Recv [0x80, 0xE1, 5] | [_] \<Rightarrow> Recv [0x80, 0x60] | _ \<Rightarrow> RecvErr 11)"

definition started :: UdpReceiver where
  "started = \<lparr>ur_udp_port = 5600, ur_vid_pt = 97, ur_video_appsrc = 2, ur_sockfd = 3, ur_thread = 1,
     ur_running = True, ur_stop_requested = False, ur_pool = 0, ur_pool_active = False\<rparr>"

theorem receiver_forwards_witness:
  "\<exists>E. ample E \<and> received (trace_of (receiver_loop E 2 started)) = [[0x80, 0xE1, 5], [0x80, 0x60]]
     \<and> pushed (trace_of (receiver_loop E 2 started)) = [[0x80, 0xE1, 5]]"
proof -
  let ?E = "null_env\<lparr>sys := calm_sys\<lparr>e_recv := two_packets\<rparr>, gst := calm_gst\<rparr>"
  have a: "ample ?E" by (simp add: ample_def calm_gst_def)
  have r: "received (trace_of (receiver_loop ?E 2 started)) = [[0x80, 0xE1, 5], [0x80, 0x60]]"
    by (simp add: numeral_2_eq_2 receiver_step_def receiver_check_def receiver_packet_def started_def
        trace_of_def calm_sys_def two_packets_def received_def rx_tx_def push_packet_def
        packet_buffer_def ensure_buffer_pool_def calm_gst_def payload_type_matches_def UDP_MAX_PACKET_def)
  then show ?thesis
    using receiver_forwards [of ?E 2 started] a
    by (intro exI [of _ ?E]) (simp add: Let_def wanted_def payload_type_matches_def started_def)
qed

text \<open>
  The life of a receiver leaks nothing and releases nothing twice, uses no descriptor after its
  close and takes no lock twice: whatever each call answers, after \<open>udp\_receiver\_create\<close>, any sequence
  of starts and stops, and \<open>udp\_receiver\_destroy\<close>, exactly what was held before is held again.
\<close>

theorem udp_receiver_lifecycle:
  "wp own (do { p \<leftarrow> udp_receiver_create E port pt src; p \<leftarrow> udp.run_ops E ops p; udp_receiver_destroy E p })
     (\<lambda>_ M'. M' = M + {#Ref src#}) (M + {#Ref src#})"
proof (rule wp_bind, rule wp_mono [OF udp_receiver_create_own])
  fix p M'
  assume "M' = M + {#Ref src#} + opt_owned p \<and> opt_inv p \<and> (\<forall>ur. p = Some ur \<longrightarrow> \<not> ur_running ur)"
  then show "wp own (State_Monad.bind (udp.run_ops E ops p) (udp_receiver_destroy E))
      (\<lambda>_ M'. M' = M + {#Ref src#}) M'"
    using udp.run_ops_destroy [of p E ops "M + {#Ref src#}"] by simp
qed

end
