(* ===== verification/Pipeline.thy ===== *)
theory Pipeline
  imports Decoder_Lifecycle Recorder_Own Udp_Receiver
begin

text \<open>
  \<open>src/pipeline.c\<close>: the GStreamer pipeline that depacketises the stream, with the receiver, the decoder
  and the recorder as its parts. The fields its threads share are written in the record; what a
  thread finds in a field that another one writes is the environment's answer \<open>e_shared\<close>. The addresses
  of the pipeline and its elements are opaque, and \<open>g\_once\_init\_enter\<close> is the flag \<open>ps\_gst\_ready\<close>.
\<close>

section \<open>State\<close>

datatype PipelineStateEnum = PIPELINE_STOPPED | PIPELINE_RUNNING | PIPELINE_STOPPING

record PipelineState =
  ps_state :: PipelineStateEnum
  ps_pipeline :: ptr
  ps_appsink :: ptr
  ps_udp_receiver :: "UdpReceiver option"
  ps_bus_thread :: ptr
  ps_appsink_thread :: ptr
  ps_initialized :: bool
  ps_bus_thread_running :: bool
  ps_stop_requested :: bool
  ps_encountered_error :: bool
  ps_decoder :: "VideoDecoder option"
  ps_decoder_initialized :: bool
  ps_decoder_running :: bool
  ps_appsink_thread_running :: bool
  ps_recorder :: "VideoRecorder option"
  ps_cfg :: "AppCfg option"
  ps_gst_ready :: bool

text \<open>\<open>PipelineState ps = {0}\<close>.\<close>

definition zero_pipeline :: PipelineState where
  "zero_pipeline = \<lparr>ps_state = PIPELINE_STOPPED, ps_pipeline = 0, ps_appsink = 0, ps_udp_receiver = None,
     ps_bus_thread = 0, ps_appsink_thread = 0, ps_initialized = False, ps_bus_thread_running = False,
     ps_stop_requested = False, ps_encountered_error = False, ps_decoder = None, ps_decoder_initialized = False,
     ps_decoder_running = False, ps_appsink_thread_running = False, ps_recorder = None, ps_cfg = None,
     ps_gst_ready = False\<rparr>"

section \<open>Building\<close>

text \<open>The appsrc with its caps, and the receiver that feeds it.\<close>

definition create_udp_app_source :: "env \<Rightarrow> AppCfg option \<Rightarrow> (ptr \<times> UdpReceiver option) io" where
  "create_udp_app_source E c =
     (case c of
        None \<Rightarrow> ret (0, None)
      | Some cfg \<Rightarrow> do {
          appsrc \<leftarrow> gst_element_factory_make E ''appsrc'';
          if appsrc = 0 then ret (0, None)
          else do {
            caps \<leftarrow> gst_caps_new_simple E ''application/x-rtp''
              [(''media'', PStr ''video''), (''encoding-name'', PStr ''H265''), (''payload'', PInt (vid_pt cfg)),
               (''clock-rate'', PInt 90000)];
            if caps = 0 then do { gst_object_unref appsrc; ret (0, None) }
            else do {
              gst_set_props appsrc [(''is-live'', PBool True), (''format'', PEnum ''GST_FORMAT_TIME''),
                (''stream-type'', PEnum ''GST_APP_STREAM_TYPE_STREAM''), (''do-timestamp'', PBool True),
                (''max-bytes'', PInt (4 * 1024 * 1024))];
              gst_set_props appsrc [(''caps'', PPtr caps)];
              gst_elem_unref caps;
              receiver \<leftarrow> udp_receiver_create E (udp_port cfg) (vid_pt cfg) appsrc;
              case receiver of
                None \<Rightarrow> do { gst_object_unref appsrc; ret (0, None) }
              | Some ur \<Rightarrow> ret (appsrc, Some ur)
            }
          }
        })"

text \<open>The five elements behind the appsrc; the capsfilter's caps; the bin and the links.\<close>

definition configure_elements :: "env \<Rightarrow> AppCfg \<Rightarrow> ptr \<Rightarrow> ptr \<Rightarrow> ptr \<Rightarrow> ptr \<Rightarrow> bool io" where
  "configure_elements E cfg queue parser capsfilter appsink = do {
     gst_set_props appsink [(''max-buffers'', PInt (if 0 < appsink_max_buffers cfg then appsink_max_buffers cfg else 4))];
     gst_set_props appsink [(''drop'', PBool True)];
     gst_set_props appsink [(''sync'', PBool False)];
     gst_set_props parser [(''config-interval'', PInt (-1)), (''disable-passthrough'', PBool True)];
     gst_set_props parser [(''stream-format'', PStr ''byte-stream'')];
     gst_set_props parser [(''alignment'', PStr ''au'')];
     raw_caps \<leftarrow> gst_caps_new_simple E ''video/x-h265''
       [(''stream-format'', PStr ''byte-stream''), (''alignment'', PStr ''au'')];
     if raw_caps = 0 then ret False
     else do {
       gst_set_props capsfilter [(''caps'', PPtr raw_caps)];
       gst_set_props appsink [(''caps'', PPtr raw_caps)];
       gst_elem_unref raw_caps;
       gst_set_props queue [(''leaky'', PInt 2), (''max-size-time'', PInt 0), (''max-size-bytes'', PInt 0),
         (''max-size-buffers'', PInt 16)];
       ret True
     }
   }"

definition build_elements :: "env \<Rightarrow> AppCfg \<Rightarrow> ptr \<Rightarrow> ptr \<Rightarrow> ptr option io" where
  "build_elements E cfg pipeline appsrc = do {
     queue \<leftarrow> gst_element_factory_make E ''queue'';
     depay \<leftarrow> gst_element_factory_make E ''rtph265depay'';
     parser \<leftarrow> gst_element_factory_make E ''h265parse'';
     capsfilter \<leftarrow> gst_element_factory_make E ''capsfilter'';
     appsink \<leftarrow> gst_element_factory_make E ''appsink'';
     if queue = 0 \<or> depay = 0 \<or> parser = 0 \<or> capsfilter = 0 \<or> appsink = 0 then ret None
     else do {
       ok \<leftarrow> configure_elements E cfg queue parser capsfilter appsink;
       if \<not> ok then ret None
       else do {
         gst_bin_add_many pipeline [appsrc, queue, depay, parser, capsfilter, appsink];
         linked \<leftarrow> gst_element_link_many E [appsrc, queue, depay, parser, capsfilter, appsink];
         ret (if linked then Some appsink else None)
       }
     }
   }"

text \<open>From \<open>gst\_pipeline\_new\<close> until the pipeline is entered in \<open>ps\<close>; \<open>None\<close> is the jump to \<open>fail\<close>.\<close>

definition build_rest :: "env \<Rightarrow> AppCfg \<Rightarrow> ptr \<Rightarrow> ptr \<Rightarrow> UdpReceiver option \<Rightarrow> (ptr \<times> ptr \<times> UdpReceiver option) option io" where
  "build_rest E cfg pipeline appsrc receiver = do {
     appsink \<leftarrow> build_elements E cfg pipeline appsrc;
     ret (map_option (\<lambda>appsink. (pipeline, appsink, receiver)) appsink)
   }"

definition build_pipeline :: "env \<Rightarrow> AppCfg \<Rightarrow> (ptr \<times> ptr \<times> UdpReceiver option) option io" where
  "build_pipeline E cfg = do {
     pipeline \<leftarrow> gst_pipeline_new E;
     if pipeline = 0 then ret None
     else do {
       (appsrc, receiver) \<leftarrow> create_udp_app_source E (Some cfg);
       if appsrc = 0 then ret None else build_rest E cfg pipeline appsrc receiver
     }
   }"

section \<open>Cleaning up\<close>

definition join_appsink :: "PipelineState \<Rightarrow> PipelineState io" where
  "join_appsink ps = do {
     io_when (ps_appsink_thread ps \<noteq> 0) (g_thread_join (ps_appsink_thread ps));
     ret (ps\<lparr>ps_appsink_thread := 0\<rparr>)
   }"

definition join_bus :: "PipelineState \<Rightarrow> PipelineState io" where
  "join_bus ps = do {
     io_when (ps_bus_thread ps \<noteq> 0) (g_thread_join (ps_bus_thread ps));
     ret (ps\<lparr>ps_bus_thread := 0\<rparr>)
   }"

definition close_receiver :: "env \<Rightarrow> PipelineState \<Rightarrow> PipelineState io" where
  "close_receiver E ps = do { udp_receiver_destroy E (ps_udp_receiver ps); ret (ps\<lparr>ps_udp_receiver := None\<rparr>) }"

definition close_gst :: "env \<Rightarrow> PipelineState \<Rightarrow> PipelineState io" where
  "close_gst E ps = do {
     io_when (ps_pipeline ps \<noteq> 0) (do {
       _ \<leftarrow> gst_element_set_state E (ps_pipeline ps) GST_STATE_NULL;
       gst_object_unref (ps_pipeline ps)
     });
     ret (ps\<lparr>ps_pipeline := 0, ps_appsink := 0\<rparr>)
   }"

definition close_decoder :: "env \<Rightarrow> PipelineState \<Rightarrow> PipelineState io" where
  "close_decoder E ps = do {
     dec \<leftarrow> (if ps_decoder_running ps then video_decoder_stop E (ps_decoder ps) else ret (ps_decoder ps));
     dec \<leftarrow> (if ps_decoder_initialized ps then video_decoder_deinit E dec else ret dec);
     video_decoder_free E dec;
     ret (ps\<lparr>ps_decoder := None, ps_decoder_running := False, ps_decoder_initialized := False\<rparr>)
   }"

definition drop_recorder :: "env \<Rightarrow> PipelineState \<Rightarrow> PipelineState io" where
  "drop_recorder E ps = do {
     g_mutex_lock RecorderLock;
     let rec = ps_recorder ps;
     let ps = ps\<lparr>ps_recorder := None\<rparr>;
     g_mutex_unlock RecorderLock;
     video_recorder_free E rec;
     ret ps
   }"

text \<open>The last lines of \<open>cleanup\_pipeline\<close> are those of \<open>pipeline\_disable\_recording\<close>.\<close>

definition cleanup_pipeline :: "env \<Rightarrow> PipelineState \<Rightarrow> PipelineState io" where
  "cleanup_pipeline E ps = do {
     ps \<leftarrow> join_appsink ps;
     ps \<leftarrow> join_bus ps;
     ps \<leftarrow> close_receiver E ps;
     ps \<leftarrow> close_gst E ps;
     ps \<leftarrow> close_decoder E ps;
     drop_recorder E ps
   }"

section \<open>Starting\<close>

definition ensure_gst_initialized :: "PipelineState \<Rightarrow> PipelineState io" where
  "ensure_gst_initialized ps = do {
     io_when (\<not> ps_gst_ready ps) gst_init;
     ret (ps\<lparr>ps_gst_ready := True\<rparr>)
   }"

definition init_locks :: "PipelineState \<Rightarrow> PipelineState io" where
  "init_locks ps = do {
     io_when (\<not> ps_initialized ps) (do {
       g_mutex_init PsLock;
       g_mutex_init RecorderLock;
       g_cond_init PsCond
     });
     ret (ps\<lparr>ps_initialized := True\<rparr>)
   }"

definition reset_fields :: "AppCfg \<Rightarrow> PipelineState \<Rightarrow> PipelineState" where
  "reset_fields cfg ps = ps\<lparr>ps_cfg := Some cfg, ps_pipeline := 0, ps_appsink := 0, ps_udp_receiver := None,
     ps_bus_thread := 0, ps_appsink_thread := 0, ps_bus_thread_running := False,
     ps_appsink_thread_running := False, ps_stop_requested := False, ps_encountered_error := False\<rparr>"

text \<open>The steps behind the registration, each telling whether to go on.\<close>

definition start_receiver :: "env \<Rightarrow> PipelineState \<Rightarrow> (bool \<times> PipelineState) io" where
  "start_receiver E ps = do {
     (r, ur) \<leftarrow> udp_receiver_start E (ps_udp_receiver ps);
     ret (r = 0, ps\<lparr>ps_udp_receiver := ur\<rparr>)
   }"

definition start_playing :: "env \<Rightarrow> PipelineState \<Rightarrow> bool io" where
  "start_playing E ps = do {
     r \<leftarrow> gst_element_set_state E (ps_pipeline ps) GST_STATE_PLAYING;
     if r = GST_STATE_CHANGE_FAILURE then ret False
     else if r = GST_STATE_CHANGE_ASYNC then do {
       r \<leftarrow> gst_element_get_state E (ps_pipeline ps) GST_SECOND;
       ret (r \<noteq> GST_STATE_CHANGE_FAILURE)
     } else ret True
   }"

definition open_decoder :: "env \<Rightarrow> AppCfg \<Rightarrow> ModesetResult \<Rightarrow> int \<Rightarrow> PipelineState \<Rightarrow> (bool \<times> PipelineState) io" where
  "open_decoder E cfg ms fd ps = do {
     dec \<leftarrow> (if ps_decoder ps = None then video_decoder_new E else ret (ps_decoder ps));
     if dec = None then ret (False, ps\<lparr>ps_decoder := dec\<rparr>)
     else do {
       (r, dec) \<leftarrow> video_decoder_init E dec (Some cfg) (Some ms) fd;
       let ps = ps\<lparr>ps_decoder := dec\<rparr>;
       if r \<noteq> 0 then ret (False, ps)
       else ret (True, ps\<lparr>ps_decoder_initialized := True\<rparr>)
     }
   }"

definition start_decoder :: "env \<Rightarrow> PipelineState \<Rightarrow> (bool \<times> PipelineState) io" where
  "start_decoder E ps = do {
     (r, dec) \<leftarrow> video_decoder_start E (ps_decoder ps);
     let ps = ps\<lparr>ps_decoder := dec\<rparr>;
     ret (if r \<noteq> 0 then (False, ps) else (True, ps\<lparr>ps_decoder_running := True\<rparr>))
   }"

definition start_pipeline_threads :: "env \<Rightarrow> PipelineState \<Rightarrow> (bool \<times> PipelineState) io" where
  "start_pipeline_threads E ps = do {
     t1 \<leftarrow> g_thread_new E ''appsink-thread'';
     let ps = ps\<lparr>ps_appsink_thread := t1\<rparr>;
     if t1 = 0 then ret (False, ps)
     else do {
       t2 \<leftarrow> g_thread_new E ''pipeline-bus'';
       ret (t2 \<noteq> 0, ps\<lparr>ps_bus_thread := t2\<rparr>)
     }
   }"

definition run_pipeline :: "env \<Rightarrow> AppCfg \<Rightarrow> ModesetResult \<Rightarrow> int \<Rightarrow> PipelineState \<Rightarrow> (bool \<times> PipelineState) io" where
  "run_pipeline E cfg ms fd ps = do {
     (ok, ps) \<leftarrow> start_receiver E ps;
     if \<not> ok then ret (False, ps)
     else do {
       ok \<leftarrow> start_playing E ps;
       if \<not> ok then ret (False, ps)
       else do {
         (ok, ps) \<leftarrow> open_decoder E cfg ms fd ps;
         if \<not> ok then ret (False, ps)
         else do {
           (ok, ps) \<leftarrow> start_decoder E ps;
           if \<not> ok then ret (False, ps) else start_pipeline_threads E ps
         }
       }
     }
   }"

definition fail_start :: "env \<Rightarrow> PipelineState \<Rightarrow> (int \<times> PipelineState) io" where
  "fail_start E ps = do { ps \<leftarrow> cleanup_pipeline E ps; ret (-1, ps) }"

text \<open>From the registration of what was built in \<open>ps\<close> to the end of the function.\<close>

definition enter_pipeline ::
    "env \<Rightarrow> AppCfg \<Rightarrow> ModesetResult \<Rightarrow> int \<Rightarrow> (ptr \<times> ptr \<times> UdpReceiver option) option \<Rightarrow> PipelineState \<Rightarrow>
     (int \<times> PipelineState) io" where
  "enter_pipeline E cfg ms fd built ps =
     (case built of
        None \<Rightarrow> fail_start E ps
      | Some (pipeline, appsink, receiver) \<Rightarrow> do {
          (ok, ps) \<leftarrow> run_pipeline E cfg ms fd
            (ps\<lparr>ps_pipeline := pipeline, ps_appsink := appsink, ps_udp_receiver := receiver\<rparr>);
          if ok then ret (0, ps\<lparr>ps_state := PIPELINE_RUNNING\<rparr>) else fail_start E ps
        })"

definition start_pipeline :: "env \<Rightarrow> AppCfg \<Rightarrow> ModesetResult \<Rightarrow> int \<Rightarrow> PipelineState \<Rightarrow> (int \<times> PipelineState) io" where
  "start_pipeline E cfg ms fd ps =
     (if ps_state ps \<noteq> PIPELINE_STOPPED then ret (-1, ps)
      else do {
        ps \<leftarrow> ensure_gst_initialized ps;
        ps \<leftarrow> init_locks ps;
        let ps = reset_fields cfg ps;
        built \<leftarrow> build_pipeline E cfg;
        enter_pipeline E cfg ms fd built ps
      })"

definition pipeline_start ::
    "env \<Rightarrow> AppCfg option \<Rightarrow> ModesetResult option \<Rightarrow> int \<Rightarrow> PipelineState option \<Rightarrow> (int \<times> PipelineState option) io" where
  "pipeline_start E c m fd p =
     (case (c, m, p) of
        (Some cfg, Some ms, Some ps) \<Rightarrow> do { (r, ps) \<leftarrow> start_pipeline E cfg ms fd ps; ret (r, Some ps) }
      | _ \<Rightarrow> ret (-1, p))"

end
