(* ===== verification/Pipeline_Run.thy ===== *)
theory Pipeline_Run
  imports Pipeline
begin

text \<open>
  The running pipeline: its two threads, turn by turn, stopping, polling and the recording calls.
\<close>

section \<open>The appsink thread\<close>

text \<open>
  A buffer's bytes go to the recorder, under its lock, and to the decoder. The result tells whether the
  decoder's call came back within \<open>n\<close> attempts: if it did not, the thread is still in it.
\<close>

definition feed_bytes ::
    "env \<Rightarrow> bool \<Rightarrow> nat \<Rightarrow> ptr \<times> ptr \<Rightarrow> ptr \<Rightarrow> u8 list \<Rightarrow> u64 \<Rightarrow> PipelineState \<Rightarrow> (bool \<times> PipelineState) io" where
  "feed_bytes E neon n sample buffer bytes pts ps = do {
     g_mutex_lock RecorderLock;
     rec \<leftarrow> video_recorder_handle_sample E (ps_recorder ps) sample buffer (Some bytes);
     let ps = ps\<lparr>ps_recorder := rec\<rparr>;
     g_mutex_unlock RecorderLock;
     (r, dec) \<leftarrow> video_decoder_feed E neon n (ps_decoder ps) bytes pts;
     ret (r \<noteq> None, ps\<lparr>ps_decoder := dec\<rparr>)
   }"

definition buffer_time :: "env \<Rightarrow> ptr \<Rightarrow> u64 io" where
  "buffer_time E buffer = do {
     pts \<leftarrow> GST_BUFFER_PTS E buffer;
     if pts = GST_CLOCK_TIME_NONE then GST_BUFFER_DTS E buffer else ret pts
   }"

definition handle_buffer ::
    "env \<Rightarrow> bool \<Rightarrow> nat \<Rightarrow> nat \<Rightarrow> ptr \<times> ptr \<Rightarrow> ptr \<Rightarrow> PipelineState \<Rightarrow> (bool \<times> PipelineState) io" where
  "handle_buffer E neon n max_packet sample buffer ps = do {
     pts \<leftarrow> buffer_time E buffer;
     map \<leftarrow> gst_buffer_map E buffer;
     case map of
       None \<Rightarrow> ret (True, ps)
     | Some bytes \<Rightarrow> do {
         (back, ps) \<leftarrow> (if 0 < length bytes \<and> length bytes \<le> max_packet
                       then feed_bytes E neon n sample buffer bytes pts ps else ret (True, ps));
         io_when back (gst_buffer_unmap buffer);
         ret (back, ps)
       }
   }"

definition handle_pulled ::
    "env \<Rightarrow> bool \<Rightarrow> nat \<Rightarrow> nat \<Rightarrow> ptr \<times> ptr \<Rightarrow> PipelineState \<Rightarrow> (bool \<times> PipelineState) io" where
  "handle_pulled E neon n max_packet sample ps = do {
     (back, ps) \<leftarrow> (if snd sample \<noteq> 0 then handle_buffer E neon n max_packet sample (snd sample) ps
                   else ret (True, ps));
     io_when back (gst_sample_unref sample);
     ret (back, ps)
   }"

datatype turn = TurnStop | TurnAgain | TurnBusy

text \<open>
  One turn of the loop: the flags under the lock, a sample, its buffer. \<open>TurnBusy\<close> is a turn that is
  still inside the decoder's call.
\<close>

definition appsink_turn :: "env \<Rightarrow> bool \<Rightarrow> nat \<Rightarrow> nat \<Rightarrow> PipelineState \<Rightarrow> (turn \<times> PipelineState) io" where
  "appsink_turn E neon n max_packet ps = do {
     g_mutex_lock PsLock;
     now \<leftarrow> ask (\<lambda>t. e_shared (proc E) t);
     g_mutex_unlock PsLock;
     if sh_stop_requested now \<or> \<not> ps_decoder_running ps then ret (TurnStop, ps)
     else do {
       sample \<leftarrow> gst_app_sink_try_pull_sample E (ps_appsink ps) (100 * GST_MSECOND);
       if fst sample = 0 then ret (TurnAgain, ps)
       else do {
         (back, ps) \<leftarrow> handle_pulled E neon n max_packet sample ps;
         ret (if back then TurnAgain else TurnBusy, ps)
       }
     }
   }"

definition set_appsink_running :: "bool \<Rightarrow> PipelineState \<Rightarrow> PipelineState io" where
  "set_appsink_running b ps = do {
     g_mutex_lock PsLock;
     g_mutex_unlock PsLock;
     ret (ps\<lparr>ps_appsink_thread_running := b\<rparr>)
   }"

definition appsink_max_packet :: "PipelineState \<Rightarrow> nat" where
  "appsink_max_packet ps =
     (let n = video_decoder_max_packet_size (if ps_decoder_initialized ps then ps_decoder ps else None)
      in if n = 0 then 1024 * 1024 else n)"

text \<open>What the thread does when it leaves the loop.\<close>

definition appsink_end :: "env \<Rightarrow> PipelineState \<Rightarrow> PipelineState io" where
  "appsink_end E ps = do {
     video_decoder_send_eos E (ps_decoder ps);
     set_appsink_running False ps
   }"

text \<open>The loop with a bound on its turns, and the whole function; the flag tells whether it has returned.\<close>

fun appsink_loop :: "env \<Rightarrow> bool \<Rightarrow> nat \<Rightarrow> nat \<Rightarrow> nat \<Rightarrow> PipelineState \<Rightarrow> (bool \<times> PipelineState) io" where
  "appsink_loop E neon n max_packet 0 ps = ret (False, ps)"
| "appsink_loop E neon n max_packet (Suc k) ps = do {
     (turn, ps) \<leftarrow> appsink_turn E neon n max_packet ps;
     case turn of
       TurnStop \<Rightarrow> do { ps \<leftarrow> appsink_end E ps; ret (True, ps) }
     | TurnAgain \<Rightarrow> appsink_loop E neon n max_packet k ps
     | TurnBusy \<Rightarrow> ret (False, ps)
   }"

definition appsink_thread_func :: "env \<Rightarrow> bool \<Rightarrow> nat \<Rightarrow> nat \<Rightarrow> PipelineState \<Rightarrow> (bool \<times> PipelineState) io" where
  "appsink_thread_func E neon n k ps =
     (if ps_appsink ps = 0 then do { ps \<leftarrow> set_appsink_running False ps; ret (True, ps) }
      else do {
        ps \<leftarrow> set_appsink_running True ps;
        appsink_loop E neon n (appsink_max_packet ps) k ps
      })"

section \<open>The bus thread\<close>

text \<open>One message, or none within the timeout; the flag is \<open>running\<close>.\<close>

definition handle_message :: "int \<Rightarrow> PipelineState \<Rightarrow> (bool \<times> PipelineState) io" where
  "handle_message ty ps =
     (if ty = GST_MESSAGE_ERROR then do {
        g_mutex_lock PsLock;
        let ps = ps\<lparr>ps_encountered_error := True, ps_stop_requested := True\<rparr>;
        g_mutex_unlock PsLock;
        ret (False, ps)
      } else if ty = GST_MESSAGE_EOS then do {
        g_mutex_lock PsLock;
        let ps = ps\<lparr>ps_stop_requested := True\<rparr>;
        g_mutex_unlock PsLock;
        ret (False, ps)
      } else ret (True, ps))"

definition bus_turn :: "env \<Rightarrow> ptr \<Rightarrow> PipelineState \<Rightarrow> (bool \<times> PipelineState) io" where
  "bus_turn E bus ps = do {
     (msg, ty) \<leftarrow> gst_bus_timed_pop E bus (GST_MSECOND * 100);
     if msg = 0 then do {
       g_mutex_lock PsLock;
       now \<leftarrow> ask (\<lambda>t. e_shared (proc E) t);
       g_mutex_unlock PsLock;
       ret (\<not> (sh_stop_requested now \<or> ps_stop_requested ps), ps)
     } else do {
       (running, ps) \<leftarrow> handle_message ty ps;
       gst_elem_unref msg;
       ret (running, ps)
     }
   }"

fun bus_loop :: "env \<Rightarrow> ptr \<Rightarrow> nat \<Rightarrow> PipelineState \<Rightarrow> (bool \<times> PipelineState) io" where
  "bus_loop E bus 0 ps = ret (False, ps)"
| "bus_loop E bus (Suc k) ps = do {
     (running, ps) \<leftarrow> bus_turn E bus ps;
     if running then bus_loop E bus k ps else ret (True, ps)
   }"

text \<open>What comes before the loop, with the bus or 0 when there is none and the thread is over; and what comes behind it.\<close>

definition bus_begin :: "env \<Rightarrow> PipelineState \<Rightarrow> (ptr \<times> PipelineState) io" where
  "bus_begin E ps = do {
     bus \<leftarrow> gst_element_get_bus E (ps_pipeline ps);
     if bus = 0 then do {
       g_mutex_lock PsLock;
       let ps = ps\<lparr>ps_encountered_error := True, ps_bus_thread_running := False\<rparr>;
       g_cond_signal PsCond;
       g_mutex_unlock PsLock;
       ret (0, ps)
     } else do {
       g_mutex_lock PsLock;
       let ps = ps\<lparr>ps_bus_thread_running := True\<rparr>;
       g_mutex_unlock PsLock;
       ret (bus, ps)
     }
   }"

definition bus_end :: "ptr \<Rightarrow> PipelineState \<Rightarrow> PipelineState io" where
  "bus_end bus ps = do {
     gst_elem_unref bus;
     g_mutex_lock PsLock;
     let ps = ps\<lparr>ps_bus_thread_running := False\<rparr>;
     g_cond_signal PsCond;
     g_mutex_unlock PsLock;
     ret ps
   }"

definition bus_thread_func :: "env \<Rightarrow> nat \<Rightarrow> PipelineState \<Rightarrow> (bool \<times> PipelineState) io" where
  "bus_thread_func E k ps = do {
     (bus, ps) \<leftarrow> bus_begin E ps;
     if bus = 0 then ret (True, ps)
     else do {
       (ended, ps) \<leftarrow> bus_loop E bus k ps;
       if \<not> ended then ret (False, ps)
       else do { ps \<leftarrow> bus_end bus ps; ret (True, ps) }
     }
   }"

section \<open>Stopping and polling\<close>

text \<open>
  \<open>g\_cond\_wait\_until\<close> in \<open>stop\_bus\_thread\<close>: each turn looks at the flag, waits, and leaves when the
  deadline has passed; \<open>k\<close> is a number of wake-ups that the time up to the deadline suffices for.
\<close>

fun wait_bus :: "env \<Rightarrow> nat \<Rightarrow> int \<Rightarrow> unit io" where
  "wait_bus E 0 deadline = ret ()"
| "wait_bus E (Suc k) deadline = do {
     now \<leftarrow> ask (\<lambda>t. e_shared (proc E) t);
     if \<not> sh_bus_running now then ret ()
     else do {
       g_cond_wait PsCond PsLock;
       time \<leftarrow> g_get_monotonic_time E;
       if deadline \<le> time then ret () else wait_bus E k deadline
     }
   }"

definition await_bus :: "env \<Rightarrow> nat \<Rightarrow> int \<Rightarrow> unit io" where
  "await_bus E k wait_ms_total = do {
     time \<leftarrow> g_get_monotonic_time E;
     g_mutex_lock PsLock;
     wait_bus E k (time + wait_ms_total * 1000);
     g_mutex_unlock PsLock
   }"

definition stop_bus_thread :: "env \<Rightarrow> nat \<Rightarrow> int \<Rightarrow> PipelineState \<Rightarrow> PipelineState io" where
  "stop_bus_thread E k wait_ms_total ps =
     (if ps_bus_thread ps = 0 then ret ps
      else do { await_bus E k wait_ms_total; join_bus ps })"

text \<open>\<open>pipeline\_stop\<close> up to its first join; the flag is that there is something to stop.\<close>

definition begin_stop :: "env \<Rightarrow> PipelineState \<Rightarrow> (bool \<times> PipelineState) io" where
  "begin_stop E ps = do {
     g_mutex_lock PsLock;
     if ps_state ps = PIPELINE_STOPPED then do { g_mutex_unlock PsLock; ret (False, ps) }
     else do {
       let ps = ps\<lparr>ps_state := PIPELINE_STOPPING, ps_stop_requested := True\<rparr>;
       g_mutex_unlock PsLock;
       io_when (ps_pipeline ps \<noteq> 0) (do {
         gst_element_send_eos (ps_pipeline ps);
         _ \<leftarrow> gst_element_set_state E (ps_pipeline ps) GST_STATE_NULL;
         ret ()
       });
       ur \<leftarrow> udp_receiver_stop (ps_udp_receiver ps);
       ret (True, ps\<lparr>ps_udp_receiver := ur\<rparr>)
     }
   }"

text \<open>The cleanup, and the state behind it, as stopping and polling have it.\<close>

definition finish_stop :: "env \<Rightarrow> PipelineState \<Rightarrow> PipelineState io" where
  "finish_stop E ps = do {
     ps \<leftarrow> cleanup_pipeline E ps;
     ret (ps\<lparr>ps_state := PIPELINE_STOPPED\<rparr>)
   }"

definition stop_pipeline :: "env \<Rightarrow> nat \<Rightarrow> int \<Rightarrow> PipelineState \<Rightarrow> PipelineState io" where
  "stop_pipeline E k wait_ms_total ps = do {
     (go, ps) \<leftarrow> begin_stop E ps;
     if \<not> go then ret ps
     else do {
       ps \<leftarrow> join_appsink ps;
       ps \<leftarrow> stop_bus_thread E k wait_ms_total ps;
       finish_stop E ps
     }
   }"

definition pipeline_stop :: "env \<Rightarrow> nat \<Rightarrow> int \<Rightarrow> PipelineState option \<Rightarrow> PipelineState option io" where
  "pipeline_stop E k wait_ms_total p =
     (case p of None \<Rightarrow> ret None | Some ps \<Rightarrow> do { ps \<leftarrow> stop_pipeline E k wait_ms_total ps; ret (Some ps) })"

text \<open>The look at the flag: whether the bus thread is taken to have ended.\<close>

definition poll_look :: "env \<Rightarrow> PipelineState \<Rightarrow> bool io" where
  "poll_look E ps =
     (if ps_bus_thread ps = 0 then ret False
      else do {
        g_mutex_lock PsLock;
        now \<leftarrow> ask (\<lambda>t. e_shared (proc E) t);
        g_mutex_unlock PsLock;
        ret (\<not> sh_bus_running now)
      })"

definition poll_child :: "env \<Rightarrow> PipelineState \<Rightarrow> PipelineState io" where
  "poll_child E ps = do {
     gone \<leftarrow> poll_look E ps;
     if \<not> gone then ret ps
     else do { ps \<leftarrow> join_bus ps; finish_stop E ps }
   }"

definition pipeline_poll_child :: "env \<Rightarrow> PipelineState option \<Rightarrow> PipelineState option io" where
  "pipeline_poll_child E p =
     (case p of None \<Rightarrow> ret None | Some ps \<Rightarrow> do { ps \<leftarrow> poll_child E ps; ret (Some ps) })"

section \<open>Recording\<close>

definition enable_recording :: "env \<Rightarrow> RecordCfg \<Rightarrow> PipelineState \<Rightarrow> (int \<times> PipelineState) io" where
  "enable_recording E cfg ps =
     (if output_path cfg = [] then ret (-1, ps)
      else do {
        rec \<leftarrow> video_recorder_new E (Some (cfg\<lparr>enable := 1\<rparr>));
        if rec = None then ret (-1, ps)
        else do {
          g_mutex_lock RecorderLock;
          if ps_recorder ps \<noteq> None then do {
            g_mutex_unlock RecorderLock;
            video_recorder_free E rec;
            ret (0, ps)
          } else do {
            let ps = ps\<lparr>ps_recorder := rec\<rparr>;
            g_mutex_unlock RecorderLock;
            ret (0, ps)
          }
        }
      })"

definition pipeline_enable_recording ::
    "env \<Rightarrow> RecordCfg option \<Rightarrow> PipelineState option \<Rightarrow> (int \<times> PipelineState option) io" where
  "pipeline_enable_recording E c p =
     (case (p, c) of
        (Some ps, Some cfg) \<Rightarrow> do { (r, ps) \<leftarrow> enable_recording E cfg ps; ret (r, Some ps) }
      | _ \<Rightarrow> ret (-1, p))"

definition pipeline_disable_recording :: "env \<Rightarrow> PipelineState option \<Rightarrow> PipelineState option io" where
  "pipeline_disable_recording E p =
     (case p of None \<Rightarrow> ret None | Some ps \<Rightarrow> do { ps \<leftarrow> drop_recorder E ps; ret (Some ps) })"

definition recording_stats :: "env \<Rightarrow> PipelineState \<Rightarrow> VideoRecorderStats io" where
  "recording_stats E ps = do {
     g_mutex_lock RecorderLock;
     stats \<leftarrow> (if ps_recorder ps = None then ret zero_stats else video_recorder_get_stats E (ps_recorder ps));
     g_mutex_unlock RecorderLock;
     ret (stats\<lparr>vs_output_path := take (PATH_MAX - 1) (vs_output_path stats)\<rparr>)
   }"

text \<open>The result is the return value, with what is written through \<open>stats\<close>; \<open>dest\<close> is that it is not NULL.\<close>

definition pipeline_get_recording_stats ::
    "env \<Rightarrow> PipelineState option \<Rightarrow> bool \<Rightarrow> (int \<times> VideoRecorderStats option) io" where
  "pipeline_get_recording_stats E p dest =
     (case p of
        None \<Rightarrow> ret (-1, None)
      | Some ps \<Rightarrow> (if \<not> dest then ret (-1, None)
                    else do { stats \<leftarrow> recording_stats E ps; ret (0, Some stats) }))"

end
