(* ===== verification/Pipeline_Parts.thy ===== *)
theory Pipeline_Parts
  imports Pipeline_Run
begin

text \<open>
  \<open>pipeline\_start\<close>, \<open>pipeline\_stop\<close>, \<open>pipeline\_poll\_child\<close> and \<open>cleanup\_pipeline\<close> cut into the parts between
  which another thread may come: at every creation of a thread and before every join. \<open>main_part\<close> is one
  part, with the one that follows; the theorem is that the parts one after the other are the functions of
  \<open>Pipeline\<close> and \<open>Pipeline\_Run\<close>, down to the calls they make.
\<close>

section \<open>The functions in parts\<close>

text \<open>\<open>pipeline\_start\<close> up to the assignment of \<open>ps->udp\_receiver\<close>; the flag is that there was no jump to \<open>fail\<close>.\<close>

definition begin_start :: "env \<Rightarrow> AppCfg \<Rightarrow> PipelineState \<Rightarrow> (bool \<times> PipelineState) io" where
  "begin_start E cfg ps = do {
     ps \<leftarrow> ensure_gst_initialized ps;
     ps \<leftarrow> init_locks ps;
     let ps = reset_fields cfg ps;
     built \<leftarrow> build_pipeline E cfg;
     ret (case built of
            None \<Rightarrow> (False, ps)
          | Some (pipeline, appsink, receiver) \<Rightarrow>
              (True, ps\<lparr>ps_pipeline := pipeline, ps_appsink := appsink, ps_udp_receiver := receiver\<rparr>))
   }"

text \<open>The two thread creations at its end.\<close>

definition start_appsink_thread :: "env \<Rightarrow> PipelineState \<Rightarrow> (bool \<times> PipelineState) io" where
  "start_appsink_thread E ps = do {
     t \<leftarrow> g_thread_new E ''appsink-thread'';
     ret (t \<noteq> 0, ps\<lparr>ps_appsink_thread := t\<rparr>)
   }"

definition start_bus_thread :: "env \<Rightarrow> PipelineState \<Rightarrow> (bool \<times> PipelineState) io" where
  "start_bus_thread E ps = do {
     t \<leftarrow> g_thread_new E ''pipeline-bus'';
     ret (t \<noteq> 0, ps\<lparr>ps_bus_thread := t\<rparr>)
   }"

text \<open>\<open>pipeline\_stop\<close> up to the call of \<open>udp\_receiver\_stop\<close>.\<close>

definition stop_notice :: "env \<Rightarrow> PipelineState \<Rightarrow> (bool \<times> PipelineState) io" where
  "stop_notice E ps = do {
     g_mutex_lock PsLock;
     if ps_state ps = PIPELINE_STOPPED then do { g_mutex_unlock PsLock; ret (False, ps) }
     else do {
       let ps = ps\<lparr>ps_state := PIPELINE_STOPPING, ps_stop_requested := True\<rparr>;
       g_mutex_unlock PsLock;
       io_when (ps_pipeline ps \<noteq> 0) (do {
         gst_element_send_eos (ps_pipeline ps);
         _ \<leftarrow> gst_element_set_state E (ps_pipeline ps) GST_STATE_NULL;
         ret ()
       });
       ret (True, ps)
     }
   }"

text \<open>\<open>udp\_receiver\_stop\<close> behind its request, and \<open>udp\_receiver\_destroy\<close> behind its stop.\<close>

definition receiver_end :: "UdpReceiver \<Rightarrow> UdpReceiver io" where
  "receiver_end ur = do { ur \<leftarrow> stop_join ur; stop_finish ur }"

definition release_receiver :: "env \<Rightarrow> UdpReceiver \<Rightarrow> unit io" where
  "release_receiver E ur = do {
     io_when (ur_video_appsrc ur \<noteq> 0) (gst_object_unref (ur_video_appsrc ur));
     io_when (ur_pool ur \<noteq> 0) (do {
       io_when (ur_pool_active ur) (do {
         _ \<leftarrow> gst_buffer_pool_set_active E (ur_pool ur) False;
         ret ()
       });
       gst_object_unref (ur_pool ur)
     });
     g_mutex_clear UrLock;
     g_free UdpReceiverObj
   }"

text \<open>\<open>cleanup\_pipeline\<close> with the decoder stopped.\<close>

definition discard_decoder :: "env \<Rightarrow> PipelineState \<Rightarrow> PipelineState io" where
  "discard_decoder E ps = do {
     dec \<leftarrow> (if ps_decoder_initialized ps then video_decoder_deinit E (ps_decoder ps) else ret (ps_decoder ps));
     video_decoder_free E dec;
     ret (ps\<lparr>ps_decoder := None, ps_decoder_running := False, ps_decoder_initialized := False\<rparr>)
   }"

text \<open>The functions are their parts one after the other.\<close>

lemma start_pipeline_parts:
  "start_pipeline E cfg ms fd ps =
     (if ps_state ps \<noteq> PIPELINE_STOPPED then ret (-1, ps)
      else do {
        (ok, ps) \<leftarrow> begin_start E cfg ps;
        if \<not> ok then fail_start E ps
        else do {
          (ok, ps) \<leftarrow> run_pipeline E cfg ms fd ps;
          if ok then ret (0, ps\<lparr>ps_state := PIPELINE_RUNNING\<rparr>) else fail_start E ps
        }
      })"
  by (auto simp: start_pipeline_def begin_start_def enter_pipeline_def Let_def split_beta intro!: arg_cong2 [where f = State_Monad.bind] ext
      split: option.split)

lemma start_pipeline_threads_parts:
  "start_pipeline_threads E ps = do {
     (ok, ps) \<leftarrow> start_appsink_thread E ps;
     if \<not> ok then ret (False, ps) else start_bus_thread E ps
   }"
  unfolding start_pipeline_threads_def start_appsink_thread_def start_bus_thread_def by (simp add: Let_def)

lemma begin_stop_parts:
  "begin_stop E ps = do {
     (go, ps) \<leftarrow> stop_notice E ps;
     if \<not> go then ret (False, ps)
     else do { ur \<leftarrow> udp_receiver_stop (ps_udp_receiver ps); ret (True, ps\<lparr>ps_udp_receiver := ur\<rparr>) }
   }"
  by (simp add: begin_stop_def stop_notice_def Let_def split_beta)

lemma receiver_stop_parts:
  "receiver_stop ur = do { (go, ur) \<leftarrow> stop_request ur; if go then receiver_end ur else ret ur }"
  unfolding receiver_stop_def receiver_end_def ..

lemma udp_receiver_destroy_parts:
  "udp_receiver_destroy E (Some ur) = State_Monad.bind (receiver_stop ur) (release_receiver E)"
  by (simp add: udp_receiver_destroy_def release_receiver_def [abs_def])

lemma close_decoder_parts:
  "close_decoder E ps = do {
     dec \<leftarrow> (if ps_decoder_running ps then video_decoder_stop E (ps_decoder ps) else ret (ps_decoder ps));
     discard_decoder E (ps\<lparr>ps_decoder := dec\<rparr>)
   }"
  by (simp add: close_decoder_def discard_decoder_def Let_def)

section \<open>Where \<open>main\<close> is\<close>

text \<open>
  Between its calls, with what the last one returned; in \<open>pipeline\_start\<close>; in \<open>pipeline\_stop\<close>; and in
  \<open>cleanup\_pipeline\<close>, which a start that fails comes to as well as a stop or a poll that finishes.
\<close>

datatype reason = Undo | Finish

datatype clean_pos = CSink | CBus | CReceiver | CEndReceiver | CFreeReceiver | CGst | CDecoder | CDrain bool | CFrame
  | CDisplay | CDiscard | CRecorder

datatype main_pos = Rest int
  | StartReceiver | StartPlaying | OpenDecoder | StartFrame | StartDisplay | UndoFrame | StartSink | StartBus
  | StopReceiver | EndReceiver | SinkJoin | BusAwait | BusJoin
  | Clean reason clean_pos

text \<open>What the caller of \<open>cleanup\_pipeline\<close> does behind it.\<close>

definition leave :: "reason \<Rightarrow> PipelineState \<Rightarrow> main_pos \<times> PipelineState" where
  "leave why ps = (case why of Undo \<Rightarrow> (Rest (-1), ps) | Finish \<Rightarrow> (Rest 0, ps\<lparr>ps_state := PIPELINE_STOPPED\<rparr>))"

text \<open>One part of the cleanup, with where it leads.\<close>

fun clean_part :: "env \<Rightarrow> reason \<Rightarrow> clean_pos \<Rightarrow> PipelineState \<Rightarrow> (main_pos \<times> PipelineState) io" where
  "clean_part E why CSink ps = do { ps \<leftarrow> join_appsink ps; ret (Clean why CBus, ps) }"
| "clean_part E why CBus ps = do { ps \<leftarrow> join_bus ps; ret (Clean why CReceiver, ps) }"
| "clean_part E why CReceiver ps =
     (case ps_udp_receiver ps of
        None \<Rightarrow> ret (Clean why CGst, ps)
      | Some ur \<Rightarrow> do {
          (go, ur) \<leftarrow> stop_request ur;
          ret (Clean why (if go then CEndReceiver else CFreeReceiver), ps\<lparr>ps_udp_receiver := Some ur\<rparr>)
        })"
| "clean_part E why CEndReceiver ps =
     (case ps_udp_receiver ps of
        None \<Rightarrow> ret (Clean why CGst, ps)
      | Some ur \<Rightarrow> do { ur \<leftarrow> receiver_end ur; ret (Clean why CFreeReceiver, ps\<lparr>ps_udp_receiver := Some ur\<rparr>) })"
| "clean_part E why CFreeReceiver ps =
     (case ps_udp_receiver ps of
        None \<Rightarrow> ret (Clean why CGst, ps)
      | Some ur \<Rightarrow> do { release_receiver E ur; ret (Clean why CGst, ps\<lparr>ps_udp_receiver := None\<rparr>) })"
| "clean_part E why CGst ps = do { ps \<leftarrow> close_gst E ps; ret (Clean why CDecoder, ps) }"
| "clean_part E why CDecoder ps =
     (case (ps_decoder_running ps, ps_decoder ps) of
        (True, Some vd) \<Rightarrow> do {
          (was_running, vd) \<leftarrow> request_stop vd;
          ret (Clean why (CDrain was_running), ps\<lparr>ps_decoder := Some vd\<rparr>)
        }
      | _ \<Rightarrow> ret (Clean why CDiscard, ps))"
| "clean_part E why (CDrain was_running) ps =
     (case ps_decoder ps of
        None \<Rightarrow> ret (Clean why CDiscard, ps)
      | Some vd \<Rightarrow> do { drain E was_running vd; ret (Clean why CFrame, ps) })"
| "clean_part E why CFrame ps =
     (case ps_decoder ps of
        None \<Rightarrow> ret (Clean why CDiscard, ps)
      | Some vd \<Rightarrow> do { vd \<leftarrow> join_frame vd; ret (Clean why CDisplay, ps\<lparr>ps_decoder := Some vd\<rparr>) })"
| "clean_part E why CDisplay ps =
     (case ps_decoder ps of
        None \<Rightarrow> ret (Clean why CDiscard, ps)
      | Some vd \<Rightarrow> do { vd \<leftarrow> join_display vd; ret (Clean why CDiscard, ps\<lparr>ps_decoder := Some vd\<rparr>) })"
| "clean_part E why CDiscard ps = do { ps \<leftarrow> discard_decoder E ps; ret (Clean why CRecorder, ps) }"
| "clean_part E why CRecorder ps = do { ps \<leftarrow> drop_recorder E ps; ret (leave why ps) }"

text \<open>One part of a call. The numbers are those of \<open>await_bus\<close>.\<close>

fun main_part ::
    "env \<Rightarrow> AppCfg \<Rightarrow> ModesetResult \<Rightarrow> int \<Rightarrow> nat \<Rightarrow> int \<Rightarrow> main_pos \<Rightarrow> PipelineState \<Rightarrow> (main_pos \<times> PipelineState) io" where
  "main_part E cfg ms fd k wait_ms (Rest r) ps = ret (Rest r, ps)"
| "main_part E cfg ms fd k wait_ms StartReceiver ps = do {
     (ok, ps) \<leftarrow> start_receiver E ps;
     ret (if ok then StartPlaying else Clean Undo CSink, ps)
   }"
| "main_part E cfg ms fd k wait_ms StartPlaying ps = do {
     ok \<leftarrow> start_playing E ps;
     ret (if ok then OpenDecoder else Clean Undo CSink, ps)
   }"
| "main_part E cfg ms fd k wait_ms OpenDecoder ps = do {
     (ok, ps) \<leftarrow> open_decoder E cfg ms fd ps;
     ret (if ok then StartFrame else Clean Undo CSink, ps)
   }"
| "main_part E cfg ms fd k wait_ms StartFrame ps =
     (case ps_decoder ps of
        None \<Rightarrow> ret (Clean Undo CSink, ps)
      | Some vd \<Rightarrow>
          if \<not> vd_initialized vd then ret (Clean Undo CSink, ps)
          else if vd_running vd then ret (StartSink, ps\<lparr>ps_decoder_running := True\<rparr>)
          else do {
            (ok, vd) \<leftarrow> start_frame E vd;
            ret (if ok then StartDisplay else Clean Undo CSink, ps\<lparr>ps_decoder := Some vd\<rparr>)
          })"
| "main_part E cfg ms fd k wait_ms StartDisplay ps =
     (case ps_decoder ps of
        None \<Rightarrow> ret (Clean Undo CSink, ps)
      | Some vd \<Rightarrow> do {
          (ok, vd) \<leftarrow> start_display E vd;
          ret (if ok then (StartSink, ps\<lparr>ps_decoder := Some vd, ps_decoder_running := True\<rparr>)
               else (UndoFrame, ps\<lparr>ps_decoder := Some vd\<rparr>))
        })"
| "main_part E cfg ms fd k wait_ms UndoFrame ps =
     (case ps_decoder ps of
        None \<Rightarrow> ret (Clean Undo CSink, ps)
      | Some vd \<Rightarrow> do { vd \<leftarrow> join_frame vd; ret (Clean Undo CSink, ps\<lparr>ps_decoder := Some vd\<rparr>) })"
| "main_part E cfg ms fd k wait_ms StartSink ps = do {
     (ok, ps) \<leftarrow> start_appsink_thread E ps;
     ret (if ok then StartBus else Clean Undo CSink, ps)
   }"
| "main_part E cfg ms fd k wait_ms StartBus ps = do {
     (ok, ps) \<leftarrow> start_bus_thread E ps;
     ret (if ok then (Rest 0, ps\<lparr>ps_state := PIPELINE_RUNNING\<rparr>) else (Clean Undo CSink, ps))
   }"
| "main_part E cfg ms fd k wait_ms StopReceiver ps =
     (case ps_udp_receiver ps of
        None \<Rightarrow> ret (SinkJoin, ps)
      | Some ur \<Rightarrow> do {
          (go, ur) \<leftarrow> stop_request ur;
          ret (if go then EndReceiver else SinkJoin, ps\<lparr>ps_udp_receiver := Some ur\<rparr>)
        })"
| "main_part E cfg ms fd k wait_ms EndReceiver ps =
     (case ps_udp_receiver ps of
        None \<Rightarrow> ret (SinkJoin, ps)
      | Some ur \<Rightarrow> do { ur \<leftarrow> receiver_end ur; ret (SinkJoin, ps\<lparr>ps_udp_receiver := Some ur\<rparr>) })"
| "main_part E cfg ms fd k wait_ms SinkJoin ps = do { ps \<leftarrow> join_appsink ps; ret (BusAwait, ps) }"
| "main_part E cfg ms fd k wait_ms BusAwait ps =
     (if ps_bus_thread ps = 0 then ret (Clean Finish CSink, ps)
      else do { await_bus E k wait_ms; ret (BusJoin, ps) })"
| "main_part E cfg ms fd k wait_ms BusJoin ps = do { ps \<leftarrow> join_bus ps; ret (Clean Finish CSink, ps) }"
| "main_part E cfg ms fd k wait_ms (Clean why c) ps = clean_part E why c ps"

text \<open>The parts one after the other, at most \<open>n\<close> of them.\<close>

fun main_run ::
    "env \<Rightarrow> AppCfg \<Rightarrow> ModesetResult \<Rightarrow> int \<Rightarrow> nat \<Rightarrow> int \<Rightarrow> nat \<Rightarrow> main_pos \<Rightarrow> PipelineState \<Rightarrow> (main_pos \<times> PipelineState) io" where
  "main_run E cfg ms fd k wait_ms 0 p ps = ret (p, ps)"
| "main_run E cfg ms fd k wait_ms (Suc n) p ps = do {
     (p, ps) \<leftarrow> main_part E cfg ms fd k wait_ms p ps;
     main_run E cfg ms fd k wait_ms n p ps
   }"

section \<open>The calls are their parts\<close>

lemma bind_if: "State_Monad.bind (if b then m else n) f = (if b then State_Monad.bind m f else State_Monad.bind n f)"
  by simp

lemma bind_option:
  "State_Monad.bind (case x of None \<Rightarrow> m | Some y \<Rightarrow> g y) f
     = (case x of None \<Rightarrow> State_Monad.bind m f | Some y \<Rightarrow> State_Monad.bind (g y) f)"
  by (simp split: option.split)

lemma bind_pair:
  "State_Monad.bind (case x of (a, b) \<Rightarrow> g a b) f = (case x of (a, b) \<Rightarrow> State_Monad.bind (g a b) f)"
  by (simp split: prod.split)

lemma if_neg: "(if \<not> b then x else y) = (if b then y else x)"
  by simp

lemma bind_cong: "(\<And>x. f x = g x) \<Longrightarrow> State_Monad.bind m f = State_Monad.bind m g"
  by presburger

lemmas bind_laws = bind_if bind_option bind_pair if_neg

lemma rest_run [simp]: "main_run E cfg ms fd k wait_ms n (Rest r) ps = ret (Rest r, ps)"
  by (induction n) simp_all

lemma leave_run [simp]: "(case leave why ps of (p, ps) \<Rightarrow> main_run E cfg ms fd k wait_ms n p ps) = ret (leave why ps)"
  by (cases why) (simp_all add: leave_def)

lemma run_part:
  "0 < n \<Longrightarrow> main_run E cfg ms fd k wait_ms n p ps =
     State_Monad.bind (main_part E cfg ms fd k wait_ms p ps) (\<lambda>(p, ps). main_run E cfg ms fd k wait_ms (n - 1) p ps)"
  by (cases n) simp_all

lemma same_part:
  "ps_decoder ps = d \<Longrightarrow> ps\<lparr>ps_decoder := d\<rparr> = ps" "ps_udp_receiver ps = ur \<Longrightarrow> ps\<lparr>ps_udp_receiver := ur\<rparr> = ps"
  by auto

lemma run_discard:
  "2 \<le> n \<Longrightarrow> main_run E cfg ms fd k wait_ms n (Clean why CDiscard) ps = do {
     ps \<leftarrow> discard_decoder E ps; ps \<leftarrow> drop_recorder E ps; ret (leave why ps) }"
  by (simp add: run_part bind_laws)

lemma run_decoder:
  "6 \<le> n \<Longrightarrow> main_run E cfg ms fd k wait_ms n (Clean why CDecoder) ps = do {
     ps \<leftarrow> close_decoder E ps; ps \<leftarrow> drop_recorder E ps; ret (leave why ps) }"
proof -
  note parts = run_part [where p = "Clean why CDecoder"] run_part [where p = "Clean why (CDrain b)" for b]
    run_part [where p = "Clean why CFrame"] run_part [where p = "Clean why CDisplay"]
  assume n: "6 \<le> n"
  show ?thesis
  proof (cases "ps_decoder_running ps \<and> ps_decoder ps \<noteq> None")
    case True
    then obtain vd where "ps_decoder ps = Some vd" "ps_decoder_running ps" by auto
    then show ?thesis
      using n by (simp add: parts run_discard close_decoder_parts video_decoder_stop_def stop_threads_def bind_laws split_beta)
  next
    case False
    then show ?thesis
      using n by (cases "ps_decoder ps"; cases "ps_decoder_running ps")
        (simp_all add: parts run_discard close_decoder_parts video_decoder_stop_def same_part)
  qed
qed

lemma run_gst:
  "7 \<le> n \<Longrightarrow> main_run E cfg ms fd k wait_ms n (Clean why CGst) ps = do {
     ps \<leftarrow> close_gst E ps; ps \<leftarrow> close_decoder E ps; ps \<leftarrow> drop_recorder E ps; ret (leave why ps) }"
  by (subst run_part) (simp_all add: run_decoder)

lemma run_free_receiver:
  "8 \<le> n \<Longrightarrow> main_run E cfg ms fd k wait_ms n (Clean why CFreeReceiver) (ps\<lparr>ps_udp_receiver := Some ur\<rparr>) = do {
     release_receiver E ur; ps \<leftarrow> close_gst E (ps\<lparr>ps_udp_receiver := None\<rparr>); ps \<leftarrow> close_decoder E ps;
     ps \<leftarrow> drop_recorder E ps; ret (leave why ps) }"
  by (subst run_part) (simp_all add: run_gst)

lemma run_end_receiver:
  "9 \<le> n \<Longrightarrow> main_run E cfg ms fd k wait_ms n (Clean why CEndReceiver) (ps\<lparr>ps_udp_receiver := Some ur\<rparr>) = do {
     ur \<leftarrow> receiver_end ur; release_receiver E ur; ps \<leftarrow> close_gst E (ps\<lparr>ps_udp_receiver := None\<rparr>);
     ps \<leftarrow> close_decoder E ps; ps \<leftarrow> drop_recorder E ps; ret (leave why ps) }"
proof -
  have "main_run E cfg ms fd k wait_ms (n - 1) (Clean why CFreeReceiver) (ps\<lparr>ps_udp_receiver := Some ur'\<rparr>) = do {
     release_receiver E ur'; ps \<leftarrow> close_gst E (ps\<lparr>ps_udp_receiver := None\<rparr>); ps \<leftarrow> close_decoder E ps;
     ps \<leftarrow> drop_recorder E ps; ret (leave why ps) }" if "9 \<le> n" for ur' using that by (simp add: run_free_receiver)
  then show ?thesis if "9 \<le> n" using that by (subst run_part) simp_all
qed

lemma run_receiver:
  assumes "10 \<le> n"
  shows "main_run E cfg ms fd k wait_ms n (Clean why CReceiver) ps = do {
     ps \<leftarrow> close_receiver E ps; ps \<leftarrow> close_gst E ps; ps \<leftarrow> close_decoder E ps; ps \<leftarrow> drop_recorder E ps;
     ret (leave why ps) }"
proof (cases "ps_udp_receiver ps")
  case None
  then show ?thesis
    using assms by (subst run_part) (simp_all add: run_gst close_receiver_def udp_receiver_destroy_def same_part)
next
  case (Some ur)
  let ?rest = "\<lambda>ur. do { release_receiver E ur; ps \<leftarrow> close_gst E (ps\<lparr>ps_udp_receiver := None\<rparr>);
    ps \<leftarrow> close_decoder E ps; ps \<leftarrow> drop_recorder E ps; ret (leave why ps) }"
  have *: "main_run E cfg ms fd k wait_ms m (Clean why (if go then CEndReceiver else CFreeReceiver))
        (ps\<lparr>ps_udp_receiver := Some ur\<rparr>) = (if go then State_Monad.bind (receiver_end ur) ?rest else ?rest ur)"
    if "9 \<le> m" for m go ur
    using that by (simp add: run_end_receiver run_free_receiver)
  show ?thesis
    using assms Some
    by (subst run_part)
      (simp_all add: * close_receiver_def udp_receiver_destroy_parts receiver_stop_parts bind_laws split_beta cong: if_cong)
qed

lemma run_cleanup:
  "12 \<le> n \<Longrightarrow> main_run E cfg ms fd k wait_ms n (Clean why CSink) ps = do {
     ps \<leftarrow> cleanup_pipeline E ps; ret (leave why ps) }"
proof -
  have "main_run E cfg ms fd k wait_ms (n - 1) (Clean why CBus) ps = do {
     ps \<leftarrow> join_bus ps; ps \<leftarrow> close_receiver E ps; ps \<leftarrow> close_gst E ps; ps \<leftarrow> close_decoder E ps; ps \<leftarrow> drop_recorder E ps;
     ret (leave why ps) }" if "12 \<le> n" for ps
    using that by (subst run_part) (simp_all add: run_receiver)
  then show ?thesis if "12 \<le> n" using that by (subst run_part) (simp_all add: cleanup_pipeline_def)
qed

text \<open>The start, from its last part to the first.\<close>

definition done_start :: "env \<Rightarrow> bool \<times> PipelineState \<Rightarrow> (main_pos \<times> PipelineState) io" where
  "done_start E x = (case x of (ok, ps) \<Rightarrow>
     if ok then ret (Rest 0, ps\<lparr>ps_state := PIPELINE_RUNNING\<rparr>)
     else do { (r, ps) \<leftarrow> fail_start E ps; ret (Rest r, ps) })"

lemma run_undo:
  "12 \<le> n \<Longrightarrow> main_run E cfg ms fd k wait_ms n (Clean Undo CSink) ps = done_start E (False, ps)"
  by (simp add: run_cleanup fail_start_def leave_def done_start_def)

lemma run_or_undo:
  "12 \<le> n \<Longrightarrow> main_run E cfg ms fd k wait_ms n (if ok then p else Clean Undo CSink) ps =
     (if ok then main_run E cfg ms fd k wait_ms n p ps else done_start E (False, ps))"
  by (simp add: run_undo)

lemma run_if:
  "(case (if ok then (p, ps) else (p', ps')) of (p, ps) \<Rightarrow> main_run E cfg ms fd k wait_ms n p ps) =
     (if ok then main_run E cfg ms fd k wait_ms n p ps else main_run E cfg ms fd k wait_ms n p' ps')"
  by simp

lemma run_bus:
  "13 \<le> n \<Longrightarrow> main_run E cfg ms fd k wait_ms n StartBus ps = State_Monad.bind (start_bus_thread E ps) (done_start E)"
  by (subst run_part)
    (auto simp: run_if run_undo bind_laws done_start_def intro!: bind_cong)

lemma run_sink:
  "14 \<le> n \<Longrightarrow> main_run E cfg ms fd k wait_ms n StartSink ps = State_Monad.bind (start_pipeline_threads E ps) (done_start E)"
  by (subst run_part)
    (simp_all add: run_or_undo run_bus start_pipeline_threads_parts bind_laws split_beta cong: if_cong)

lemma run_display:
  "15 \<le> n \<Longrightarrow> ps_decoder ps = Some vd \<Longrightarrow> main_run E cfg ms fd k wait_ms n StartDisplay ps = do {
     (ok, vd) \<leftarrow> start_display E vd;
     if ok then State_Monad.bind (start_pipeline_threads E (ps\<lparr>ps_decoder := Some vd, ps_decoder_running := True\<rparr>)) (done_start E)
     else do { vd \<leftarrow> join_frame vd; done_start E (False, ps\<lparr>ps_decoder := Some vd\<rparr>) } }"
  using run_part [where p = UndoFrame and n = "n - 1"]
  by (subst run_part) (auto simp: run_if run_sink run_undo bind_laws intro!: bind_cong)

lemma start_decoder_parts:
  "start_decoder E ps =
     (case ps_decoder ps of
        None \<Rightarrow> ret (False, ps)
      | Some vd \<Rightarrow> do {
          (r, vd) \<leftarrow> start_threads E vd;
          ret (if r = 0 then (True, ps\<lparr>ps_decoder := Some vd, ps_decoder_running := True\<rparr>)
               else (False, ps\<lparr>ps_decoder := Some vd\<rparr>))
        })"
  by (auto simp: start_decoder_def video_decoder_start_def same_part bind_laws intro!: bind_cong split: option.split)

lemma run_frame:
  "16 \<le> n \<Longrightarrow> main_run E cfg ms fd k wait_ms n StartFrame ps = do {
     (ok, ps) \<leftarrow> start_decoder E ps;
     if ok then State_Monad.bind (start_pipeline_threads E ps) (done_start E) else done_start E (False, ps) }"
  by (subst run_part)
    (auto simp: start_decoder_parts start_threads_def run_or_undo run_sink run_undo run_display same_part bind_laws
      intro!: bind_cong split: option.split)

lemma run_start:
  "20 \<le> n \<Longrightarrow> main_run E cfg ms fd k wait_ms n StartReceiver ps = State_Monad.bind (run_pipeline E cfg ms fd ps) (done_start E)"
proof -
  have open_dec: "main_run E cfg ms fd k wait_ms n OpenDecoder ps = do {
      (ok, ps) \<leftarrow> open_decoder E cfg ms fd ps;
      if ok then main_run E cfg ms fd k wait_ms (n - 1) StartFrame ps else done_start E (False, ps) }" if "17 \<le> n" for n ps
    using that by (subst run_part) (auto simp: run_or_undo bind_laws intro!: bind_cong)
  have play: "main_run E cfg ms fd k wait_ms n StartPlaying ps = do {
      ok \<leftarrow> start_playing E ps;
      if ok then main_run E cfg ms fd k wait_ms (n - 1) OpenDecoder ps else done_start E (False, ps) }" if "18 \<le> n" for n ps
    using that by (subst run_part) (auto simp: run_or_undo bind_laws intro!: bind_cong)
  assume "20 \<le> n"
  then show ?thesis
    unfolding run_pipeline_def
    by (subst run_part)
      (auto simp: run_or_undo play open_dec run_frame bind_laws intro!: bind_cong)
qed

definition result :: "main_pos \<Rightarrow> int" where
  "result p = (case p of Rest r \<Rightarrow> r | _ \<Rightarrow> 0)"

lemma start_in_parts:
  "start_pipeline E cfg ms fd ps =
     (if ps_state ps \<noteq> PIPELINE_STOPPED then ret (-1, ps)
      else do {
        (ok, ps) \<leftarrow> begin_start E cfg ps;
        (p, ps) \<leftarrow> main_run E cfg ms fd k wait_ms 20 (if ok then StartReceiver else Clean Undo CSink) ps;
        ret (result p, ps)
      })"
  by (auto simp: start_pipeline_parts run_or_undo run_start done_start_def fail_start_def result_def bind_laws split_beta
      intro!: bind_cong)

lemma run_finish:
  "12 \<le> n \<Longrightarrow> main_run E cfg ms fd k wait_ms n (Clean Finish CSink) ps = do { ps \<leftarrow> finish_stop E ps; ret (Rest 0, ps) }"
  by (simp add: run_cleanup finish_stop_def leave_def)

lemma run_bus_join:
  "13 \<le> n \<Longrightarrow> main_run E cfg ms fd k wait_ms n BusJoin ps = do {
     ps \<leftarrow> join_bus ps; ps \<leftarrow> finish_stop E ps; ret (Rest 0, ps) }"
  by (subst run_part) (simp_all add: run_finish)

lemma run_await:
  "14 \<le> n \<Longrightarrow> main_run E cfg ms fd k wait_ms n BusAwait ps = do {
     ps \<leftarrow> stop_bus_thread E k wait_ms ps; ps \<leftarrow> finish_stop E ps; ret (Rest 0, ps) }"
  by (subst run_part) (simp_all add: run_finish run_bus_join stop_bus_thread_def)

lemma run_sink_join:
  "15 \<le> n \<Longrightarrow> main_run E cfg ms fd k wait_ms n SinkJoin ps = do {
     ps \<leftarrow> join_appsink ps; ps \<leftarrow> stop_bus_thread E k wait_ms ps; ps \<leftarrow> finish_stop E ps; ret (Rest 0, ps) }"
  by (subst run_part) (simp_all add: run_await)

lemma run_end:
  "16 \<le> n \<Longrightarrow> main_run E cfg ms fd k wait_ms n EndReceiver (ps\<lparr>ps_udp_receiver := Some ur\<rparr>) = do {
     ur \<leftarrow> receiver_end ur;
     main_run E cfg ms fd k wait_ms (n - 1) SinkJoin (ps\<lparr>ps_udp_receiver := Some ur\<rparr>) }"
  by (subst run_part) simp_all

lemma stop_in_parts:
  "stop_pipeline E k wait_ms ps = do {
     (go, ps) \<leftarrow> stop_notice E ps;
     (p, ps) \<leftarrow> main_run E cfg ms fd k wait_ms 20 (if go then StopReceiver else Rest 0) ps;
     ret ps
   }"
proof -
  have stop: "main_run E cfg ms fd k wait_ms 20 StopReceiver ps = do {
      ur \<leftarrow> udp_receiver_stop (ps_udp_receiver ps);
      main_run E cfg ms fd k wait_ms 15 SinkJoin (ps\<lparr>ps_udp_receiver := ur\<rparr>) }" for ps
    by (subst run_part)
      (auto simp: run_end run_sink_join udp_receiver_stop_def receiver_stop_parts bind_laws same_part
        intro!: bind_cong split: option.split)
  show ?thesis
    unfolding stop_pipeline_def begin_stop_parts
    by (auto simp: stop run_sink_join bind_laws intro!: bind_cong)
qed

lemma poll_in_parts:
  "poll_child E ps = do {
     gone \<leftarrow> poll_look E ps;
     (p, ps) \<leftarrow> main_run E cfg ms fd k wait_ms 20 (if gone then BusJoin else Rest 0) ps;
     ret ps
   }"
  by (auto simp: poll_child_def run_bus_join bind_laws intro!: bind_cong)


end
