(* ===== verification/Pipeline_Own.thy ===== *)
theory Pipeline_Own
  imports Pipeline_Run
begin

text \<open>
  What the pipeline owns, and that each of its operations keeps it. The one thing the code gives away
  without releasing it are the elements and the receiver of a start that fails before the pipeline is
  entered in the state; they are the \<open>leak\<close> of the lemmas.
\<close>

section \<open>Parts\<close>

definition locks_owned :: "PipelineState \<Rightarrow> resource multiset" where
  "locks_owned ps = (if ps_initialized ps then {#Mutex PsLock, Mutex RecorderLock, Cond PsCond#} else {#})"

definition ps_owned :: "PipelineState \<Rightarrow> resource multiset" where
  "ps_owned ps = locks_owned ps + ptr_res Thread (ps_appsink_thread ps) + ptr_res Thread (ps_bus_thread ps)
     + opt_owned (ps_udp_receiver ps) + ptr_res Ref (ps_pipeline ps) + dec_owned (ps_decoder ps)
     + rec_owned (ps_recorder ps)"

definition parts_inv :: "PipelineState \<Rightarrow> bool" where
  "parts_inv ps \<longleftrightarrow> opt_inv (ps_udp_receiver ps) \<and> dec_inv (ps_decoder ps) \<and> rec_inv (ps_recorder ps)"

text \<open>All parts gone.\<close>

definition ps_empty :: "PipelineState \<Rightarrow> bool" where
  "ps_empty ps \<longleftrightarrow> ps_appsink_thread ps = 0 \<and> ps_bus_thread ps = 0 \<and> ps_udp_receiver ps = None
     \<and> ps_pipeline ps = 0 \<and> ps_decoder ps = None \<and> ps_recorder ps = None"

lemma ps_empty_owned: "ps_empty ps \<Longrightarrow> ps_owned ps = locks_owned ps"
  by (simp add: ps_empty_def ps_owned_def opt_owned_def dec_owned_def rec_owned_def)

lemma ps_empty_inv: "ps_empty ps \<Longrightarrow> parts_inv ps"
  by (simp add: ps_empty_def parts_inv_def opt_inv_def dec_inv_def rec_inv_def)

section \<open>Cleaning up\<close>

lemma join_appsink_own:
  "wp own (join_appsink ps) (\<lambda>ps' M'. M' = M + {#} \<and> ps' = ps\<lparr>ps_appsink_thread := 0\<rparr>)
     (M + ptr_res Thread (ps_appsink_thread ps))"
  unfolding join_appsink_def by (intro wp_intros; simp add: own_simps)

lemma join_bus_own:
  "wp own (join_bus ps) (\<lambda>ps' M'. M' = M + {#} \<and> ps' = ps\<lparr>ps_bus_thread := 0\<rparr>)
     (M + ptr_res Thread (ps_bus_thread ps))"
  unfolding join_bus_def by (intro wp_intros; simp add: own_simps)

lemma close_receiver_own:
  assumes "opt_inv (ps_udp_receiver ps)"
  shows "wp own (close_receiver E ps) (\<lambda>ps' M'. M' = M + {#} \<and> ps' = ps\<lparr>ps_udp_receiver := None\<rparr>)
     (M + opt_owned (ps_udp_receiver ps))"
  unfolding close_receiver_def
  by (intro wp_intros wp_mono [OF udp_receiver_destroy_own [OF assms]]) simp

lemma close_gst_own:
  "wp own (close_gst E ps) (\<lambda>ps' M'. M' = M + {#} \<and> ps' = ps\<lparr>ps_pipeline := 0, ps_appsink := 0\<rparr>)
     (M + ptr_res Ref (ps_pipeline ps))"
  unfolding close_gst_def by (intro wp_intros; simp add: own_simps)

lemma decoder_stop_frame:
  "dec_inv p \<Longrightarrow> wp own (video_decoder_stop E p) (\<lambda>p' M'. M' = M + dec_owned p' \<and> dec_inv p') (M + dec_owned p)"
  by (rule wp_mono [OF video_decoder_stop_own]) auto

lemma decoder_deinit_frame:
  assumes "dec_inv p"
  shows "wp own (video_decoder_deinit E p) (\<lambda>p' M'. M' = M + dec_owned p' \<and> dec_inv p') (M + dec_owned p)"
  using assms unfolding video_decoder_deinit_def
  by (intro wp_intros wp_own_frame [OF deinit_own];
    clarsimp simp: dec_owned_def dec_inv_def vd_closed_def vd_settled_def)

lemma decoder_free_frame:
  "dec_inv p \<Longrightarrow> wp own (video_decoder_free E p) (\<lambda>_ M'. M' = M + {#} \<and> True) (M + dec_owned p)"
  using video_decoder_free_own by simp

lemma recorder_free_frame:
  "rec_inv r \<Longrightarrow> wp own (video_recorder_free E r) (\<lambda>_ M'. M' = M + {#} \<and> True) (M + rec_owned r)"
  using video_recorder_free_own by simp

lemma close_decoder_own:
  assumes "dec_inv (ps_decoder ps)"
  shows "wp own (close_decoder E ps)
     (\<lambda>ps' M'. M' = M + {#} \<and> ps' = ps\<lparr>ps_decoder := None, ps_decoder_running := False, ps_decoder_initialized := False\<rparr>)
     (M + dec_owned (ps_decoder ps))"
  using assms unfolding close_decoder_def
  by (intro wp_intros wp_own_frame [OF decoder_stop_frame] wp_own_frame [OF decoder_deinit_frame]
      wp_own_frame [OF decoder_free_frame]) simp_all

lemma disable_recording_own:
  assumes "rec_inv (ps_recorder ps)"
  shows "wp own (drop_recorder E ps)
     (\<lambda>ps' M'. M' = M + {#Mutex RecorderLock#} \<and> ps' = ps\<lparr>ps_recorder := None\<rparr>)
     (M + ({#Mutex RecorderLock#} + rec_owned (ps_recorder ps)))"
  using assms unfolding drop_recorder_def Let_def
  by (intro wp_intros wp_own_frame [OF recorder_free_frame]) (simp_all add: own_simps)

lemma cleanup_pipeline_own:
  assumes "parts_inv ps" and "ps_initialized ps"
  shows "wp own (cleanup_pipeline E ps)
     (\<lambda>ps' M'. M' = M + ps_owned ps' \<and> ps_empty ps' \<and> ps_initialized ps' \<and> ps_state ps' = ps_state ps) (M + ps_owned ps)"
  using assms unfolding cleanup_pipeline_def
  by (intro wp_intros wp_own_frame [OF join_appsink_own] wp_own_frame [OF join_bus_own]
      wp_own_frame [OF close_receiver_own] wp_own_frame [OF close_gst_own] wp_own_frame [OF close_decoder_own]
      wp_own_frame [OF disable_recording_own])
    (simp_all add: parts_inv_def ps_owned_def ps_empty_def locks_owned_def opt_owned_def dec_owned_def rec_owned_def)

section \<open>Building\<close>

definition leaky :: "resource multiset \<Rightarrow> bool" where
  "leaky L \<longleftrightarrow> set_mset L \<subseteq> range Ref \<union> {Heap UdpReceiverObj, Mutex UrLock, Mutex StatsLock}"

lemma leaky_simps [simp]:
  "leaky {#}" "leaky (A + B) \<longleftrightarrow> leaky A \<and> leaky B" "leaky (add_mset (Ref p) A) \<longleftrightarrow> leaky A"
  "leaky (ptr_res Ref p)"
  "leaky (add_mset (Mutex StatsLock) A) \<longleftrightarrow> leaky A"
  by (auto simp: leaky_def ptr_res_def)

lemma idle_receiver_leaky:
  "ur_inv ur \<Longrightarrow> \<not> ur_running ur \<Longrightarrow> leaky (ur_owned ur)"
  by (auto simp: ur_owned_def ur_inv_def leaky_def ptr_res_def fd_res_def)

lemma create_udp_app_source_wp:
  assumes "Q (0, None) M"
    and "\<And>p ur. 0 < p \<Longrightarrow> ur_inv ur \<Longrightarrow> \<not> ur_running ur \<Longrightarrow> Q (p, Some ur) (M + {#Ref p#} + ur_owned ur)"
  shows "wp own (create_udp_app_source E (Some cfg)) Q M"
proof -
  have create: "wp own (udp_receiver_create E port pt p) Q' (M0 + {#Ref p#})"
    if "Q' None (M0 + {#Ref p#})" and "\<And>ur. ur_inv ur \<Longrightarrow> \<not> ur_running ur \<Longrightarrow> Q' (Some ur) (M0 + {#Ref p#} + ur_owned ur)"
    for port pt p Q' M0
    by (rule wp_mono [OF udp_receiver_create_own]) (use that in \<open>auto simp: opt_owned_def opt_inv_def split: option.splits\<close>)
  show ?thesis
    unfolding create_udp_app_source_def option.case
    apply (intro wp_intros)
    using assms
    apply (simp_all add: own_simps)
    apply (intro create [of _ M, simplified] wp_intros)
    using assms
    apply (simp_all add: own_simps)
    done
qed

lemma element_make_wp:
  "(\<And>p. Q p (M + ptr_res Ref p)) \<Longrightarrow> wp own (gst_element_factory_make E kind) Q M"
  by (intro wp_intros) (simp_all add: own_simps)

lemma configure_elements_wp:
  assumes "{Ref queue, Ref parser, Ref capsfilter, Ref appsink} \<subseteq> set_mset M" and "\<And>ok. Q ok M"
  shows "wp own (configure_elements E cfg queue parser capsfilter appsink) Q M"
  using assms unfolding configure_elements_def by (intro wp_intros) (auto simp: own_simps)

lemma build_elements_wp:
  assumes "0 < pipeline" and "0 < appsrc" and "\<And>L. leaky L \<Longrightarrow> Q None (M + L)" and "\<And>s. 0 < s \<Longrightarrow> Q (Some s) (M + {#Ref pipeline#})"
  shows "wp own (build_elements E cfg pipeline appsrc) Q (M + {#Ref pipeline, Ref appsrc#})"
  unfolding build_elements_def
proof (intro wp_bind element_make_wp wp_if)
  fix q d p c a
  let ?L = "{#Ref pipeline, Ref appsrc#} + ptr_res Ref q + ptr_res Ref d + ptr_res Ref p + ptr_res Ref c + ptr_res Ref a"
  let ?M = "M + {#Ref pipeline, Ref appsrc#} + ptr_res Ref q + ptr_res Ref d + ptr_res Ref p + ptr_res Ref c + ptr_res Ref a"
  have M: "?M = M + ?L" by simp
  have none: "Q None ?M" unfolding M by (rule assms(3)) simp
  show "wp own (ret None) Q ?M" using none by (rule wp_return)
  assume ok: "\<not> (q = 0 \<or> d = 0 \<or> p = 0 \<or> c = 0 \<or> a = 0)"
  then have M2: "?M = M + {#Ref pipeline, Ref appsrc, Ref q, Ref d, Ref p, Ref c, Ref a#}" by (simp add: ptr_res_def)
  show "wp own (configure_elements E cfg q p c a)
      (\<lambda>x. wp own (if \<not> x then ret None else gst_bin_add_many pipeline [appsrc, q, d, p, c, a] \<bind>
         (\<lambda>_. gst_element_link_many E [appsrc, q, d, p, c, a] \<bind>
         (\<lambda>linked. ret (if linked then Some a else None)))) Q) ?M"
    using none assms(4) [of a] ok assms(3) [of "{#Ref pipeline#}"] unfolding M2
    by (intro configure_elements_wp wp_intros) (auto simp: own_simps)
qed

lemma build_rest_wp:
  assumes "0 < p" and "0 < a" and "ur_inv ur" and "\<not> ur_running ur" and "\<And>L. leaky L \<Longrightarrow> Q None (M + L)"
    and "\<And>s. 0 < s \<Longrightarrow> Q (Some (p, s, Some ur)) (M + ({#Ref p#} + ur_owned ur))"
  shows "wp own (build_rest E cfg p a (Some ur)) Q (M + {#Ref p#} + {#Ref a#} + ur_owned ur)"
proof -
  have M: "M + {#Ref p#} + {#Ref a#} + ur_owned ur = M + ur_owned ur + {#Ref p, Ref a#}" by simp
  show ?thesis
    unfolding build_rest_def M
  proof (rule wp_bind, rule build_elements_wp [OF assms(1,2)])
    show "wp own (ret (map_option (\<lambda>appsink. (p, appsink, Some ur)) None)) Q (M + ur_owned ur + L)" if "leaky L" for L
      using assms(5) [of "ur_owned ur + L"] that idle_receiver_leaky [OF assms(3,4)] by (simp add: wp_return add.assoc)
    show "wp own (ret (map_option (\<lambda>appsink. (p, appsink, Some ur)) (Some s))) Q (M + ur_owned ur + {#Ref p#})"
      if "0 < s" for s
      using assms(6) [OF that] by (simp add: wp_return)
  qed
qed

lemma build_pipeline_wp:
  assumes "\<And>L. leaky L \<Longrightarrow> Q None (M + L)"
    and "\<And>p s ur. 0 < p \<Longrightarrow> 0 < s \<Longrightarrow> ur_inv ur \<Longrightarrow> \<not> ur_running ur \<Longrightarrow> Q (Some (p, s, Some ur)) (M + ({#Ref p#} + ur_owned ur))"
  shows "wp own (build_pipeline E cfg) Q M"
  unfolding build_pipeline_def
proof (rule wp_bind, rule own_ext; (simp add: own_simps)?; intro conjI impI)
  fix t assume p: "0 < e_pipeline_new (elem E) t"
  let ?p = "e_pipeline_new (elem E) t"
  show "wp own (create_udp_app_source E (Some cfg) \<bind> (\<lambda>(appsrc, receiver).
      if appsrc = 0 then ret None else build_rest E cfg ?p appsrc receiver)) Q (add_mset (Ref ?p) M)"
  proof (rule wp_bind, rule create_udp_app_source_wp, goal_cases)
    case 1
    then show ?case using assms(1) [of "{#Ref ?p#}"] by (simp add: wp_return)
  next
    case (2 a ur)
    have none: "Q None (M + L)" if "leaky L" for L
      using that by (rule assms(1))
    have some: "Q (Some (?p, s, Some ur)) (M + ({#Ref ?p#} + ur_owned ur))" if "0 < s" for s
      using p that 2(2,3) by (rule assms(2))
    show ?case
      using build_rest_wp [where Q = Q and M = M, OF p 2 none some] 2(1) by simp
  qed
qed (use assms(1) [of "{#}"] in \<open>simp add: wp_return\<close>)


section \<open>Starting\<close>

definition receiver_step :: "PipelineState \<Rightarrow> PipelineState \<Rightarrow> bool" where
  "receiver_step ps ps' \<longleftrightarrow> opt_inv (ps_udp_receiver ps') \<and> ps_decoder ps' = ps_decoder ps
     \<and> ps_pipeline ps' = ps_pipeline ps \<and> ps_appsink_thread ps' = ps_appsink_thread ps
     \<and> ps_bus_thread ps' = ps_bus_thread ps \<and> ps_recorder ps' = ps_recorder ps
     \<and> ps_initialized ps' = ps_initialized ps \<and> ps_state ps' = ps_state ps"

lemma start_receiver_own:
  assumes "opt_inv (ps_udp_receiver ps)"
  shows "wp own (start_receiver E ps)
     (\<lambda>x M'. M' = M + opt_owned (ps_udp_receiver (snd x)) \<and> receiver_step ps (snd x))
     (M + opt_owned (ps_udp_receiver ps))"
  unfolding start_receiver_def
  by (intro wp_intros wp_mono [OF udp_receiver_start_own [OF assms]]) (auto intro!: wp_intros simp: receiver_step_def)

lemma start_playing_wp:
  "Ref (ps_pipeline ps) \<in># M \<Longrightarrow> (\<And>ok. Q ok M) \<Longrightarrow> wp own (start_playing E ps) Q M"
  unfolding start_playing_def by (intro wp_intros) (simp_all add: own_simps)

text \<open>What the decoder's steps leave of the other parts.\<close>

definition decoder_step :: "PipelineState \<Rightarrow> PipelineState \<Rightarrow> bool" where
  "decoder_step ps ps' \<longleftrightarrow> dec_inv (ps_decoder ps') \<and> ps_udp_receiver ps' = ps_udp_receiver ps
     \<and> ps_pipeline ps' = ps_pipeline ps \<and> ps_appsink_thread ps' = ps_appsink_thread ps
     \<and> ps_bus_thread ps' = ps_bus_thread ps \<and> ps_recorder ps' = ps_recorder ps
     \<and> ps_initialized ps' = ps_initialized ps \<and> ps_state ps' = ps_state ps"

lemma new_decoder_own:
  "wp own (video_decoder_new E)
     (\<lambda>d M'. M' = M + (if d = None then {#} else {#Heap VideoDecoderObj#}) \<and> True) (M + {#})"
  unfolding video_decoder_new_def by (intro wp_intros) (simp_all add: own_simps)

lemma decoder_init_frame:
  assumes "real_objects E"
  shows "wp own (video_decoder_init E (Some vd) (Some cfg) (Some ms) fd)
     (\<lambda>x M'. M' = M + dec_owned (snd x) \<and> dec_inv (snd x)) (M + {#Heap VideoDecoderObj#})"
  by (rule wp_mono [OF video_decoder_init_own [OF assms]])
    (auto simp: dec_owned_def split: option.splits)

lemma open_decoder_own:
  assumes "real_objects E" and "ps_decoder ps = None"
  shows "wp own (open_decoder E cfg ms fd ps)
     (\<lambda>x M'. M' = M + dec_owned (ps_decoder (snd x)) \<and> decoder_step ps (snd x)) (M + {#})"
  using assms(2) unfolding open_decoder_def Let_def
  apply (intro wp_intros wp_own_frame [OF new_decoder_own])
  apply (simp_all add: decoder_step_def dec_owned_def dec_inv_def)
  apply (clarsimp)
  apply (intro wp_intros wp_own_frame [OF decoder_init_frame [OF assms(1)]])
  apply (simp_all add: dec_owned_def dec_inv_def)
  done

lemma start_decoder_own:
  assumes "dec_inv (ps_decoder ps)"
  shows "wp own (start_decoder E ps)
     (\<lambda>x M'. M' = M + dec_owned (ps_decoder (snd x)) \<and> decoder_step ps (snd x)) (M + dec_owned (ps_decoder ps))"
  unfolding start_decoder_def Let_def
  by (intro wp_intros wp_mono [OF video_decoder_start_own [OF assms]]) (auto intro!: wp_intros simp: decoder_step_def)

definition threads_step :: "PipelineState \<Rightarrow> PipelineState \<Rightarrow> bool" where
  "threads_step ps ps' \<longleftrightarrow> ps_decoder ps' = ps_decoder ps \<and> ps_udp_receiver ps' = ps_udp_receiver ps
     \<and> ps_pipeline ps' = ps_pipeline ps \<and> ps_recorder ps' = ps_recorder ps
     \<and> ps_initialized ps' = ps_initialized ps \<and> ps_state ps' = ps_state ps"

lemma start_pipeline_threads_own:
  assumes "ps_appsink_thread ps = 0" and "ps_bus_thread ps = 0"
  shows "wp own (start_pipeline_threads E ps)
     (\<lambda>x M'. M' = M + (ptr_res Thread (ps_appsink_thread (snd x)) + ptr_res Thread (ps_bus_thread (snd x)))
        \<and> threads_step ps (snd x)) (M + {#})"
  using assms unfolding start_pipeline_threads_def Let_def
  by (intro wp_intros) (simp_all add: own_simps threads_step_def)

text \<open>A pipeline that is entered in the state, before its decoder and its threads.\<close>

definition ps_entered :: "PipelineState \<Rightarrow> bool" where
  "ps_entered ps \<longleftrightarrow> parts_inv ps \<and> ps_decoder ps = None \<and> 0 < ps_pipeline ps \<and> ps_appsink_thread ps = 0
     \<and> ps_bus_thread ps = 0"

definition ps_ran :: "PipelineState \<Rightarrow> PipelineState \<Rightarrow> bool" where
  "ps_ran ps ps' \<longleftrightarrow> parts_inv ps' \<and> ps_initialized ps' = ps_initialized ps \<and> ps_state ps' = ps_state ps"

lemma run_pipeline_own:
  assumes "real_objects E" and "ps_entered ps"
  shows "wp own (run_pipeline E cfg ms fd ps)
     (\<lambda>x M'. M' = M + ps_owned (snd x) \<and> ps_ran ps (snd x)) (M + ps_owned ps)"
  using assms(2) unfolding run_pipeline_def
  by (intro wp_intros wp_own_frame [OF start_receiver_own] start_playing_wp
      wp_own_frame [OF open_decoder_own [OF assms(1)]] wp_own_frame [OF start_decoder_own]
      wp_own_frame [OF start_pipeline_threads_own])
    (clarsimp simp: ps_owned_def ps_entered_def ps_ran_def parts_inv_def receiver_step_def
      decoder_step_def threads_step_def locks_owned_def ptr_res_def dec_owned_def dec_inv_def; fail)+

text \<open>The invariant between the client's calls.\<close>

definition ps_inv :: "PipelineState \<Rightarrow> bool" where
  "ps_inv ps \<longleftrightarrow> parts_inv ps \<and> (ps_state ps = PIPELINE_STOPPED \<longrightarrow> ps_empty ps)
     \<and> (ps_state ps \<noteq> PIPELINE_STOPPED \<longrightarrow> ps_initialized ps)"

lemma zero_empty: "ps_empty zero_pipeline" "ps_owned zero_pipeline = {#}" "ps_inv zero_pipeline"
proof -
  show "ps_empty zero_pipeline" by (simp add: ps_empty_def zero_pipeline_def)
  then show "ps_owned zero_pipeline = {#}" by (simp add: ps_empty_owned locks_owned_def zero_pipeline_def)
  show "ps_inv zero_pipeline"
    using \<open>ps_empty zero_pipeline\<close> by (simp add: ps_inv_def ps_empty_inv zero_pipeline_def)
qed

lemma fail_start_wp:
  assumes "parts_inv ps" and "ps_initialized ps" and "ps_state ps = PIPELINE_STOPPED"
    and "\<And>ps'. ps_inv ps' \<Longrightarrow> ps_initialized ps' \<Longrightarrow> ps_state ps' = PIPELINE_STOPPED \<Longrightarrow> Q (-1, ps') (M + ps_owned ps')"
  shows "wp own (fail_start E ps) Q (M + ps_owned ps)"
  unfolding fail_start_def
  by (intro wp_intros wp_mono [OF cleanup_pipeline_own [OF assms(1,2)]])
    (use assms(3,4) in \<open>auto intro!: wp_intros simp: ps_inv_def ps_empty_inv\<close>)

lemma ensure_gst_wp:
  "Q (ps\<lparr>ps_gst_ready := True\<rparr>) M \<Longrightarrow> wp own (ensure_gst_initialized ps) Q M"
  unfolding ensure_gst_initialized_def by (intro wp_intros) (simp_all add: own_simps)

lemma init_locks_wp:
  assumes "ps_empty ps" and "Q (ps\<lparr>ps_initialized := True\<rparr>) (M + ps_owned (ps\<lparr>ps_initialized := True\<rparr>))"
  shows "wp own (init_locks ps) Q (M + ps_owned ps)"
  using assms unfolding init_locks_def
  by (intro wp_intros) (simp_all add: own_simps ps_owned_def locks_owned_def ps_empty_def opt_owned_def dec_owned_def rec_owned_def add_mset_commute)

lemma enter_pipeline_wp:
  assumes "real_objects E" and "ps_empty ps" and "ps_initialized ps" and "ps_state ps = PIPELINE_STOPPED"
    and "0 < p" and "ur_inv ur"
    and "\<And>r ps'. ps_inv ps' \<Longrightarrow> ps_initialized ps' \<Longrightarrow> r = 0 \<and> ps_state ps' = PIPELINE_RUNNING
        \<or> r = -1 \<and> ps_state ps' = PIPELINE_STOPPED \<Longrightarrow> Q (r, ps') (M + ps_owned ps')"
  shows "wp own (enter_pipeline E cfg ms fd (Some (p, s, Some ur)) ps) Q (M + ps_owned ps + ({#Ref p#} + ur_owned ur))"
proof -
  let ?ps = "ps\<lparr>ps_pipeline := p, ps_appsink := s, ps_udp_receiver := Some ur\<rparr>"
  have entered: "ps_entered ?ps"
    using assms(2,5,6) by (simp add: ps_entered_def parts_inv_def ps_empty_def opt_inv_def dec_inv_def rec_inv_def)
  have owned: "M + ps_owned ps + ({#Ref p#} + ur_owned ur) = M + ps_owned ?ps"
    using assms(2,5) by (simp add: ps_owned_def ps_empty_def locks_owned_def opt_owned_def ptr_res_def)
  have running: "Q (0, ps'\<lparr>ps_state := PIPELINE_RUNNING\<rparr>) (M + ps_owned ps')" if "ps_ran ?ps ps'" for ps'
  proof -
    have "ps_owned (ps'\<lparr>ps_state := PIPELINE_RUNNING\<rparr>) = ps_owned ps'" by (simp add: ps_owned_def locks_owned_def)
    then show ?thesis
      using assms(7) [of "ps'\<lparr>ps_state := PIPELINE_RUNNING\<rparr>" 0] that assms(3)
      by (simp add: ps_inv_def ps_ran_def parts_inv_def)
  qed
  have failed: "wp own (fail_start E ps') Q (M + ps_owned ps')" if "ps_ran ?ps ps'" for ps'
    by (rule fail_start_wp) (use that assms(3,4,7) in \<open>simp_all add: ps_ran_def\<close>)
  show ?thesis
    unfolding enter_pipeline_def owned
    by (simp, intro wp_intros wp_mono [OF run_pipeline_own [OF assms(1) entered]])
      (auto intro!: wp_intros intro: running failed)
qed

lemma start_pipeline_wp:
  assumes "real_objects E" and "ps_inv ps"
    and "\<And>r ps' L. ps_inv ps' \<Longrightarrow> ps_initialized ps' \<Longrightarrow> leaky L \<Longrightarrow> r = 0 \<and> L = {#} \<and> ps_state ps' = PIPELINE_RUNNING
        \<or> r = -1 \<and> ps_state ps' = ps_state ps \<Longrightarrow> Q (r, ps') (M + ps_owned ps' + L)"
  shows "wp own (start_pipeline E cfg ms fd ps) Q (M + ps_owned ps)"
proof (cases "ps_state ps = PIPELINE_STOPPED")
  case False
  then show ?thesis
    using assms(3) [of ps "{#}" "-1"] assms(2) by (simp add: start_pipeline_def wp_return ps_inv_def)
next
  case True
  let ?ps1 = "ps\<lparr>ps_gst_ready := True\<rparr>"
  let ?ps2 = "reset_fields cfg (?ps1\<lparr>ps_initialized := True\<rparr>)"
  have empty: "ps_empty ?ps1" "ps_empty ?ps2" using assms(2) True by (auto simp: ps_inv_def ps_empty_def reset_fields_def)
  have o1: "M + ps_owned ps = M + ps_owned ?ps1" by (simp add: ps_owned_def locks_owned_def)
  have o2: "ps_owned (?ps1\<lparr>ps_initialized := True\<rparr>) = ps_owned ?ps2"
    using empty(1) by (simp add: ps_owned_def locks_owned_def ps_empty_def reset_fields_def)
  have st: "ps_initialized ?ps2" "ps_state ?ps2 = PIPELINE_STOPPED" using True by (simp_all add: reset_fields_def)
  have "wp own (build_pipeline E cfg \<bind> (\<lambda>built. enter_pipeline E cfg ms fd built ?ps2)) Q (M + ps_owned ?ps2)"
  proof (rule wp_bind, rule build_pipeline_wp)
    fix L :: "resource multiset" assume L: "leaky L"
    have "wp own (fail_start E ?ps2) Q (M + L + ps_owned ?ps2)"
      by (rule fail_start_wp) (use st empty(2) L True assms(3) [of _ L "-1"] in \<open>simp_all add: ps_empty_inv ac_simps\<close>)
    then show "wp own (enter_pipeline E cfg ms fd None ?ps2) Q (M + ps_owned ?ps2 + L)"
      by (simp add: enter_pipeline_def ac_simps)
  next
    fix p s :: ptr and ur assume "0 < p" and "ur_inv ur"
    then show "wp own (enter_pipeline E cfg ms fd (Some (p, s, Some ur)) ?ps2) Q (M + ps_owned ?ps2 + ({#Ref p#} + ur_owned ur))"
      by (intro enter_pipeline_wp assms(1) st empty(2)) (use True assms(3) [of _ "{#}"] in auto)
  qed
  then have "wp own (init_locks ?ps1 \<bind> (\<lambda>ps. let ps = reset_fields cfg ps in
      build_pipeline E cfg \<bind> (\<lambda>built. enter_pipeline E cfg ms fd built ps))) Q (M + ps_owned ?ps1)"
    by (intro wp_bind init_locks_wp empty(1)) (simp add: o2 Let_def)
  then show ?thesis
    unfolding start_pipeline_def o1 using True by (simp add: wp_bind ensure_gst_wp)
qed

end
