(* ===== verification/Transitions.thy ===== *)
theory Transitions
  imports Main
begin

text \<open>
  The interface that the thread models (\<open>Udp\_Threads\<close>, \<open>Decoder\_Threads\<close>, \<open>Pipeline\_Threads\<close>, \<open>Player\<close>) share: a
  step relation with an invariant, states in which a caller waits, and a rank that the steps of a wait
  bring down. What follows from it, that every reachable state has the invariant and that the wait ends, is
  proved here once.
\<close>

section \<open>Ending\<close>

text \<open>
  On every run from \<open>s\<close> the waiting is over within \<open>n\<close> steps, and no waiting state on the way is stuck.
\<close>

primrec ends_within :: "('s \<Rightarrow> 's \<Rightarrow> bool) \<Rightarrow> ('s \<Rightarrow> bool) \<Rightarrow> nat \<Rightarrow> 's \<Rightarrow> bool" where
  "ends_within step waiting 0 s \<longleftrightarrow> \<not> waiting s"
| "ends_within step waiting (Suc n) s \<longleftrightarrow>
     \<not> waiting s \<or> (\<exists>s'. step s s') \<and> (\<forall>s'. step s s' \<longrightarrow> ends_within step waiting n s')"

text \<open>A step while waiting, and runs of such steps.\<close>

definition wait_step :: "('s \<Rightarrow> 's \<Rightarrow> bool) \<Rightarrow> ('s \<Rightarrow> bool) \<Rightarrow> 's \<Rightarrow> 's \<Rightarrow> bool" where
  "wait_step step waiting s s' \<longleftrightarrow> waiting s \<and> step s s'"

text \<open>What \<open>ends_within\<close> says of the runs: none is longer, and there is one that reaches the end.\<close>

lemma wait_run_first:
  assumes "(wait_step step waiting ^^ Suc n) s s'"
  obtains s1 where "waiting s" "step s s1" "(wait_step step waiting ^^ n) s1 s'"
  using relpowp_Suc_D2 [OF assms] unfolding wait_step_def by blast

lemma ends_within_run:
  "ends_within step waiting n s \<Longrightarrow> (wait_step step waiting ^^ k) s s' \<Longrightarrow> k \<le> n"
proof (induction n arbitrary: s k)
  case 0
  show ?case
  proof (cases k)
    case (Suc j)
    then obtain s1 where "waiting s" using 0(2) by (metis wait_run_first)
    then show ?thesis using 0(1) by simp
  qed simp
next
  case (Suc n)
  show ?case
  proof (cases k)
    case k: (Suc j)
    then obtain s1 where s1: "waiting s" "step s s1" "(wait_step step waiting ^^ j) s1 s'"
      using Suc.prems(2) by (metis wait_run_first)
    then have "ends_within step waiting n s1" using Suc.prems(1) by simp
    then show ?thesis using Suc.IH [OF _ s1(3)] k by simp
  qed simp
qed

lemma ends_within_end:
  "ends_within step waiting n s \<Longrightarrow> \<exists>s'. (wait_step step waiting)\<^sup>*\<^sup>* s s' \<and> \<not> waiting s'"
proof (induction n arbitrary: s)
  case 0
  then have "\<not> waiting s" by simp
  then show ?case by blast
next
  case (Suc n)
  show ?case
  proof (cases "waiting s")
    case True
    then obtain s1 where s1: "step s s1" "ends_within step waiting n s1" using Suc.prems by auto
    then obtain s' where "(wait_step step waiting)\<^sup>*\<^sup>* s1 s'" "\<not> waiting s'" using Suc.IH by blast
    moreover have "wait_step step waiting s s1" using s1(1) True by (simp add: wait_step_def)
    ultimately show ?thesis using converse_rtranclp_into_rtranclp by metis
  qed blast
qed

section \<open>Interfaces\<close>

locale invariant_system =
  fixes step :: "'s \<Rightarrow> 's \<Rightarrow> bool"
    and init :: "'s \<Rightarrow> bool"
    and inv :: "'s \<Rightarrow> bool"
  assumes init_inv: "init s \<Longrightarrow> inv s"
    and step_inv: "inv s \<Longrightarrow> step s s' \<Longrightarrow> inv s'"
begin

lemma run_inv: "step\<^sup>*\<^sup>* s s' \<Longrightarrow> inv s \<Longrightarrow> inv s'"
  by (induction rule: rtranclp_induct) (auto intro: step_inv)

lemma reachable_inv: "init s0 \<Longrightarrow> step\<^sup>*\<^sup>* s0 s \<Longrightarrow> inv s"
  using run_inv init_inv by blast

end

text \<open>The steps of a run that are not held up.\<close>

fun turns :: "('s \<Rightarrow> 's \<Rightarrow> bool) \<Rightarrow> 's list \<Rightarrow> nat" where
  "turns held (a # b # ss) = (if held a b then 0 else 1) + turns held (b # ss)"
| "turns held _ = 0"

text \<open>
  A caller waits: it is never stuck, and each step of the system brings the end nearer or is one of those
  that may hold it up.
\<close>

locale waiting_system = invariant_system +
  fixes waiting :: "'a \<Rightarrow> bool"
    and rank :: "'a \<Rightarrow> nat"
    and held :: "'a \<Rightarrow> 'a \<Rightarrow> bool"
  assumes goes_on: "inv s \<Longrightarrow> waiting s \<Longrightarrow> \<exists>s'. step s s'"
    and progress: "inv s \<Longrightarrow> waiting s \<Longrightarrow> step s s' \<Longrightarrow> rank s' < rank s \<or> rank s' = rank s \<and> held s s'"
begin

lemma wait_inv: "(wait_step step waiting)\<^sup>*\<^sup>* s s' \<Longrightarrow> inv s \<Longrightarrow> inv s'"
  by (induction rule: rtranclp_induct) (auto simp: wait_step_def intro: step_inv)

lemma never_stuck: "inv s \<Longrightarrow> (wait_step step waiting)\<^sup>*\<^sup>* s s' \<Longrightarrow> waiting s' \<Longrightarrow> \<exists>s''. step s' s''"
  using wait_inv goes_on by blast

lemma turns_bound: "successively (wait_step step waiting) (s # ss) \<Longrightarrow> inv s \<Longrightarrow> turns held (s # ss) \<le> rank s"
proof (induction ss arbitrary: s)
  case (Cons s1 ss)
  then have s1: "waiting s" "step s s1" "successively (wait_step step waiting) (s1 # ss)"
    by (simp_all add: wait_step_def)
  from Cons.IH [OF s1(3) step_inv [OF Cons.prems(2) s1(2)]] progress [OF Cons.prems(2) s1(1,2)]
  show ?case by auto
qed simp

end

text \<open>A wait that nothing holds up.\<close>

locale ending_system = invariant_system +
  fixes waiting :: "'a \<Rightarrow> bool"
    and rank :: "'a \<Rightarrow> nat"
  assumes can_step: "inv s \<Longrightarrow> waiting s \<Longrightarrow> \<exists>s'. step s s'"
    and nearer: "inv s \<Longrightarrow> waiting s \<Longrightarrow> step s s' \<Longrightarrow> rank s' < rank s"
begin

lemma ends: "inv s \<Longrightarrow> rank s \<le> n \<Longrightarrow> ends_within step waiting n s"
proof (induction n arbitrary: s)
  case 0
  then show ?case using can_step [of s] nearer [of s] by auto
next
  case (Suc n)
  show ?case
  proof (cases "waiting s")
    case True
    have "ends_within step waiting n s'" if "step s s'" for s'
      using Suc.IH [OF step_inv [OF Suc.prems(1) that]] nearer [OF Suc.prems(1) True that] Suc.prems(2) by linarith
    then show ?thesis using can_step [OF Suc.prems(1) True] by simp
  qed simp
qed

lemma reachable_ends: "init s0 \<Longrightarrow> step\<^sup>*\<^sup>* s0 s \<Longrightarrow> rank s \<le> n \<Longrightarrow> ends_within step waiting n s"
  using ends reachable_inv by blast

end

sublocale ending_system \<subseteq> waiting_system step init inv waiting rank "\<lambda>_ _. False"
  by unfold_locales (auto intro: can_step nearer)

end
