(* ===== verification/Udp_Threads.thy ===== *)
theory Udp_Threads
  imports Udp_Receiver Transitions
begin

text \<open>
  The receiver's thread beside its owner, as a step relation on the shared struct: the owner is
  between its calls or inside \<open>udp_receiver_stop\<close>, waiting in \<open>g_thread_join\<close>; the thread allocates its
  packet buffer, then alternates the look at the flag with a datagram until it sees the request.
  The owner's calls other than that join do not wait for the thread, so they are single steps.
\<close>

datatype owner_pc = Outside | Joining

datatype thread_pc = NoThread | Created | AtCheck | AtRecv | Exited

record udp_sys =
  shared :: UdpReceiver
  owner :: owner_pc
  thread :: thread_pc
  calls :: trace

inductive receiver_moves :: "env \<Rightarrow> udp_sys \<Rightarrow> udp_sys \<Rightarrow> bool" for E where
  thread_alloc: "thread s = Created \<Longrightarrow>
     run_state (g_alloc E PacketBuf) (calls s) = (ok, t) \<Longrightarrow>
     receiver_moves E s (s\<lparr>calls := t, thread := (if ok then AtCheck else Exited)\<rparr>)"
| thread_go: "thread s = AtCheck \<Longrightarrow>
     run_state (receiver_check (shared s)) (calls s) = (False, t) \<Longrightarrow>
     receiver_moves E s (s\<lparr>calls := t, thread := AtRecv\<rparr>)"
| thread_recv: "thread s = AtRecv \<Longrightarrow>
     run_state (receiver_packet E (shared s)) (calls s) = (ur, t) \<Longrightarrow>
     receiver_moves E s (s\<lparr>shared := ur, calls := t, thread := AtCheck\<rparr>)"
| thread_stop: "thread s = AtCheck \<Longrightarrow>
     run_state (receiver_check (shared s)) (calls s) = (True, t) \<Longrightarrow>
     run_state (g_free PacketBuf) t = ((), t') \<Longrightarrow>
     receiver_moves E s (s\<lparr>calls := t', thread := Exited\<rparr>)"

inductive udp_step :: "env \<Rightarrow> udp_sys \<Rightarrow> udp_sys \<Rightarrow> bool" for E where
  start: "owner s = Outside \<Longrightarrow>
     run_state (udp_receiver_start E (Some (shared s))) (calls s) = ((r, Some ur), t) \<Longrightarrow>
     udp_step E s (s\<lparr>shared := ur, calls := t,
       thread := (if \<not> ur_running (shared s) \<and> ur_running ur then Created else thread s)\<rparr>)"
| stop_idle: "owner s = Outside \<Longrightarrow>
     run_state (stop_request (shared s)) (calls s) = ((False, ur), t) \<Longrightarrow>
     udp_step E s (s\<lparr>shared := ur, calls := t\<rparr>)"
| stop_begin: "owner s = Outside \<Longrightarrow>
     run_state (stop_request (shared s)) (calls s) = ((True, ur), t) \<Longrightarrow>
     udp_step E s (s\<lparr>shared := ur, calls := t, owner := Joining\<rparr>)"
| stop_end: "owner s = Joining \<Longrightarrow> thread s = Exited \<Longrightarrow>
     run_state (State_Monad.bind (stop_join (shared s)) stop_finish) (calls s) = (ur, t) \<Longrightarrow>
     udp_step E s (s\<lparr>shared := ur, calls := t, owner := Outside, thread := NoThread\<rparr>)"
| by_receiver: "receiver_moves E s s' \<Longrightarrow> udp_step E s s'"

text \<open>
  What the system owns: the receiver's resources, and the packet buffer while the thread has it. The
  states of the two sides agree with the struct.
\<close>

definition sys_owned :: "udp_sys \<Rightarrow> resource multiset" where
  "sys_owned s = ur_owned (shared s)
     + (if thread s = AtCheck \<or> thread s = AtRecv then {#Heap PacketBuf#} else {#})"

definition sys_agree :: "udp_sys \<Rightarrow> bool" where
  "sys_agree s \<longleftrightarrow>
     (ur_running (shared s) \<longleftrightarrow> 0 \<le> ur_sockfd (shared s))
   \<and> (ur_running (shared s) \<longleftrightarrow> ur_thread (shared s) \<noteq> 0)
   \<and> (ur_running (shared s) \<longleftrightarrow> thread s \<noteq> NoThread)
   \<and> ur_video_appsrc (shared s) \<noteq> 0
   \<and> (ur_stop_requested (shared s) \<longleftrightarrow> owner s = Joining)
   \<and> (owner s = Joining \<longrightarrow> ur_running (shared s))"

definition sys_inv :: "resource multiset \<Rightarrow> resource multiset \<Rightarrow> udp_sys \<Rightarrow> bool" where
  "sys_inv M0 M s \<longleftrightarrow> sys_agree s \<and> monitor own M0 (calls s) = Some (M + sys_owned s)"

lemma wp_after:
  assumes "wp own m Q M" and "run_state m t = (x, t')" and "monitor own M0 t = Some M"
  shows "\<exists>M'. monitor own M0 t' = Some M' \<and> Q x M'"
  using wp_run [OF assms] by blast

lemma start_when_running:
  assumes "run_state (udp_receiver_start E (Some ur)) t = ((r, Some ur'), t')" and "ur_running ur"
  shows "ur' = ur"
  using assms by (simp add: udp_receiver_start_def)

lemma stop_request_own:
  "wp own (stop_request ur)
     (\<lambda>x M'. M' = M + ur_owned (snd x) \<and> fst x = ur_running ur
        \<and> snd x = (if fst x then ur\<lparr>ur_stop_requested := True\<rparr> else ur)) (M + ur_owned ur)"
  unfolding stop_request_def
  by (intro wp_intros; clarsimp simp: own_simps ur_owned_def)

lemma stop_tail_own:
  assumes "ur_thread ur \<noteq> 0" and "0 \<le> ur_sockfd ur"
  shows "wp own (State_Monad.bind (stop_join ur) stop_finish)
     (\<lambda>ur' M'. M' = M + ur_owned ur' \<and> ur' = ur\<lparr>ur_thread := 0, ur_sockfd := -1, ur_running := False,
        ur_stop_requested := False\<rparr>) (M + ur_owned ur)"
  using assms unfolding stop_join_def stop_finish_def
  by (intro wp_intros; clarsimp simp: own_simps ur_owned_def)

text \<open>The thread's part of what the system owns.\<close>

lemma sys_owned_step:
  assumes "sys_agree s" and "thread s = AtRecv"
  shows "sys_owned s = step_needs (shared s) + {#Heap UdpReceiverObj, Heap PacketBuf#}
      + ptr_res Thread (ur_thread (shared s))"
  using assms unfolding sys_agree_def sys_owned_def ur_owned_def step_needs_def thread_needs_def
    ptr_res_def fd_res_def
  by (simp add: ac_simps) linarith

lemma pool_step_fields:
  "pool_step ur ur' \<Longrightarrow> ur_running ur' = ur_running ur \<and> ur_thread ur' = ur_thread ur
     \<and> ur_stop_requested ur' = ur_stop_requested ur \<and> ur_sockfd ur' = ur_sockfd ur
     \<and> ur_video_appsrc ur' = ur_video_appsrc ur"
  by (cases ur; cases ur') (simp add: pool_step_def)

definition buf_owned :: "thread_pc \<Rightarrow> resource multiset" where
  "buf_owned pc = (if pc = AtCheck \<or> pc = AtRecv then {#Heap PacketBuf#} else {#})"

lemma sys_owned_split: "M + sys_owned s = M + buf_owned (thread s) + ur_owned (shared s)"
  by (simp add: sys_owned_def buf_owned_def)

lemma start_inv:
  assumes "owner s = Outside" and "sys_inv M0 M s"
    and run: "run_state (udp_receiver_start E (Some (shared s))) (calls s) = ((r, Some ur), t)"
  shows "sys_inv M0 M (s\<lparr>shared := ur, calls := t,
       thread := (if \<not> ur_running (shared s) \<and> ur_running ur then Created else thread s)\<rparr>)"
proof -
  have agree: "sys_agree s" and mon: "monitor own M0 (calls s) = Some (M + sys_owned s)"
    using assms by (auto simp: sys_inv_def)
  have "opt_inv (Some (shared s))"
    using agree assms(1) by (auto simp: opt_inv_def ur_inv_def sys_agree_def)
  from wp_after [OF udp_receiver_start_own [OF this, of E "M + buf_owned (thread s)"] run, of M0] mon
  have t: "monitor own M0 t = Some (M + buf_owned (thread s) + ur_owned ur)" and ur: "ur_inv ur"
    by (auto simp: sys_owned_split opt_owned_def opt_inv_def)
  show ?thesis
  proof (cases "ur_running (shared s)")
    case True
    then show ?thesis
      using t agree start_when_running [OF run True] by (simp add: sys_inv_def sys_owned_split sys_agree_def)
  next
    case False
    then have "thread s = NoThread" using agree by (simp add: sys_agree_def)
    then show ?thesis
      using False t ur assms(1) by (auto simp: sys_inv_def sys_owned_split buf_owned_def sys_agree_def ur_inv_def)
  qed
qed

lemma recv_inv:
  assumes "thread s = AtRecv" and "sys_inv M0 M s"
    and run: "run_state (receiver_packet E (shared s)) (calls s) = (ur, t)"
  shows "sys_inv M0 M (s\<lparr>shared := ur, calls := t, thread := AtCheck\<rparr>)"
proof -
  let ?rest = "{#Heap UdpReceiverObj, Heap PacketBuf#} + ptr_res Thread (ur_thread (shared s))"
  have agree: "sys_agree s" and mon: "monitor own M0 (calls s) = Some (M + sys_owned s)"
    using assms by (auto simp: sys_inv_def)
  have "monitor own M0 (calls s) = Some (M + ?rest + step_needs (shared s))"
    using mon sys_owned_step [OF agree assms(1)] by (simp add: ac_simps)
  from wp_after [OF receiver_packet_own [of E "shared s" "M + ?rest"] run this]
  have t: "monitor own M0 t = Some (M + ?rest + step_needs ur)" and ps: "pool_step (shared s) ur"
    by auto
  let ?s' = "s\<lparr>shared := ur, thread := AtRecv\<rparr>"
  have agree': "sys_agree ?s'"
    using agree pool_step_fields [OF ps] assms(1) by (auto simp: sys_agree_def)
  have "M + ?rest + step_needs ur = M + sys_owned ?s'"
    using sys_owned_step [OF agree'] pool_step_fields [OF ps] by (simp add: ac_simps)
  then show ?thesis
    using t agree' by (auto simp: sys_inv_def sys_agree_def sys_owned_def)
qed

lemma check_inv:
  assumes "thread s = AtCheck" and "sys_inv M0 M s"
    and run: "run_state (receiver_check (shared s)) (calls s) = (b, t)"
  shows "b = ur_stop_requested (shared s)" and "monitor own M0 t = Some (M + sys_owned s)"
proof -
  let ?rest = "sys_owned s - {#Mutex UrLock#}"
  have "M + sys_owned s = (M + ?rest) + {#Mutex UrLock#}"
    by (simp add: sys_owned_def ur_owned_def)
  then have "monitor own M0 (calls s) = Some ((M + ?rest) + {#Mutex UrLock#})"
    using assms(2) by (simp add: sys_inv_def)
  from wp_after [OF receiver_check_own run this]
  show "b = ur_stop_requested (shared s)" and "monitor own M0 t = Some (M + sys_owned s)"
    using \<open>M + sys_owned s = _\<close> by auto
qed

lemma receiver_moves_inv:
  assumes "receiver_moves E s s'" and "sys_inv M0 M s"
  shows "sys_inv M0 M s'"
  using assms
proof (induction rule: receiver_moves.induct)
  case (thread_alloc s ok t)
  then show ?case
    by (auto simp: sys_inv_def sys_owned_def sys_agree_def own_def own_by_def own_simps)
next
  case (thread_go s t)
  then show ?case
    using check_inv [OF thread_go.hyps(1) thread_go.prems thread_go.hyps(2)]
    by (auto simp: sys_inv_def sys_owned_def sys_agree_def)
next
  case (thread_recv s ur t)
  then show ?case using recv_inv by blast
next
  case (thread_stop s t t')
  then show ?case
    using check_inv [OF thread_stop.hyps(1) thread_stop.prems thread_stop.hyps(2)]
    by (auto simp: sys_inv_def sys_owned_def sys_agree_def own_def own_by_def own_simps)
qed

lemma udp_step_inv:
  assumes "udp_step E s s'" and "sys_inv M0 M s"
  shows "sys_inv M0 M s'"
  using assms
proof (induction rule: udp_step.induct)
  case (start s r ur t)
  then show ?case using start_inv by blast
next
  case (stop_idle s ur t)
  then have mon: "monitor own M0 (calls s) = Some (M + buf_owned (thread s) + ur_owned (shared s))"
    by (simp add: sys_inv_def sys_owned_split)
  from wp_after [OF stop_request_own stop_idle.hyps(2) mon] stop_idle.prems
  show ?case by (auto simp: sys_inv_def sys_owned_split sys_agree_def)
next
  case (stop_begin s ur t)
  then have mon: "monitor own M0 (calls s) = Some (M + buf_owned (thread s) + ur_owned (shared s))"
    by (simp add: sys_inv_def sys_owned_split)
  from wp_after [OF stop_request_own stop_begin.hyps(2) mon] stop_begin.prems
  show ?case by (auto simp: sys_inv_def sys_owned_split sys_agree_def)
next
  case (stop_end s ur t)
  then have mon: "monitor own M0 (calls s) = Some (M + buf_owned (thread s) + ur_owned (shared s))"
    and agree: "sys_agree s" by (simp_all add: sys_inv_def sys_owned_split)
  have "ur_thread (shared s) \<noteq> 0" "0 \<le> ur_sockfd (shared s)"
    using agree stop_end.hyps by (auto simp: sys_agree_def)
  from wp_after [OF stop_tail_own [OF this] stop_end.hyps(3) mon] agree stop_end.hyps
  show ?case by (auto simp: sys_inv_def sys_owned_split sys_agree_def buf_owned_def)
next
  case (by_receiver s s')
  then show ?case using receiver_moves_inv by blast
qed

section \<open>Properties\<close>

text \<open>The system as \<open>udp_receiver_create\<close> leaves it.\<close>

definition udp_init :: "UdpReceiver \<Rightarrow> trace \<Rightarrow> udp_sys" where
  "udp_init ur t = \<lparr>shared = ur, owner = Outside, thread = NoThread, calls = t\<rparr>"

definition udp_created :: "env \<Rightarrow> int \<Rightarrow> int \<Rightarrow> ptr \<Rightarrow> udp_sys \<Rightarrow> bool" where
  "udp_created E port pt src s \<longleftrightarrow>
     (\<exists>ur t. run_state (udp_receiver_create E port pt src) [] = (Some ur, t) \<and> s = udp_init ur t)"

lemma udp_createdI:
  "run_state (udp_receiver_create E port pt src) [] = (Some ur, t) \<Longrightarrow> udp_created E port pt src (udp_init ur t)"
  by (auto simp: udp_created_def)

lemma udp_created_inv:
  assumes "udp_created E port pt src s"
  shows "sys_inv {#Ref src#} {#Ref src#} s"
proof -
  obtain ur t where c: "run_state (udp_receiver_create E port pt src) [] = (Some ur, t)" and s: "s = udp_init ur t"
    using assms by (auto simp: udp_created_def)
  have "monitor own {#Ref src#} [] = Some ({#} + {#Ref src#})" by simp
  from wp_after [OF udp_receiver_create_own c this] show ?thesis
    by (auto simp: s sys_inv_def udp_init_def sys_owned_def sys_agree_def opt_owned_def opt_inv_def ur_inv_def)
qed

text \<open>How far \<open>g_thread_join\<close> still has to wait.\<close>

fun pc_rank :: "thread_pc \<Rightarrow> nat" where
  "pc_rank Created = 3" | "pc_rank AtRecv = 3" | "pc_rank AtCheck = 2" | "pc_rank Exited = 1"
| "pc_rank NoThread = 0"

definition join_rank :: "udp_sys \<Rightarrow> nat" where
  "join_rank s = (if owner s = Outside then 0 else pc_rank (thread s))"

lemma join_rank_bound: "join_rank s \<le> 3"
  by (cases "thread s") (auto simp: join_rank_def)

lemma joining_requested:
  "sys_inv M0 M s \<Longrightarrow> owner s = Joining \<Longrightarrow> ur_stop_requested (shared s) \<and> thread s \<noteq> NoThread"
  by (auto simp: sys_inv_def sys_agree_def)

lemma joining_can_step:
  assumes inv: "sys_inv M0 M s" and "owner s = Joining"
  shows "\<exists>s'. udp_step E s s'"
proof (cases "thread s")
  case NoThread
  then show ?thesis using joining_requested [OF assms] by simp
next
  case Created
  then show ?thesis using by_receiver thread_alloc by (metis surj_pair)
next
  case AtCheck
  obtain b t where check: "run_state (receiver_check (shared s)) (calls s) = (b, t)" by (metis surj_pair)
  then have "b" using check_inv(1) [OF AtCheck inv check] joining_requested [OF assms] by simp
  then show ?thesis using by_receiver thread_stop [OF AtCheck, of t] check by fastforce
next
  case AtRecv
  then show ?thesis using by_receiver thread_recv by (metis surj_pair)
next
  case Exited
  then show ?thesis using stop_end [OF assms(2)] by (metis surj_pair)
qed

lemma joining_nearer:
  assumes inv: "sys_inv M0 M s" and "owner s = Joining" and "udp_step E s s'"
  shows "join_rank s' < join_rank s"
  using assms(3)
proof cases
  case by_receiver
  then show ?thesis
  proof cases
    case (thread_go t)
    then show ?thesis using check_inv(1) [OF thread_go(2) inv thread_go(3)] joining_requested [OF assms(1,2)] by simp
  qed (use assms(2) in \<open>auto simp: join_rank_def\<close>)
qed (use assms(2) in \<open>auto simp: join_rank_def\<close>)

interpretation udp_wait: ending_system "udp_step E" "udp_created E port pt src" "sys_inv {#Ref src#} {#Ref src#}"
  "\<lambda>s. owner s = Joining" join_rank for E port pt src
  by unfold_locales (blast intro: udp_created_inv udp_step_inv joining_can_step joining_nearer)+

text \<open>
  C10. In every interleaving of the receiver's thread with its owner's starts and stops: no
  descriptor is used after its close or closed twice, no lock taken twice, nothing is released that is
  not held; while the thread is at its socket the socket is open; and once there is no thread, all
  that is held is the receiver's own.
\<close>

theorem udp_threads_safe:
  assumes "run_state (udp_receiver_create E port pt src) [] = (Some ur, t)"
    and "(udp_step E)\<^sup>*\<^sup>* (udp_init ur t) s"
  shows "\<exists>M. monitor own {#Ref src#} (calls s) = Some M
     \<and> (thread s = AtRecv \<longrightarrow> Fd (ur_sockfd (shared s)) \<in># M)
     \<and> (thread s = NoThread \<longrightarrow> M = {#Ref src#} + ur_owned (shared s) \<and> ur_sockfd (shared s) < 0)"
  using udp_wait.reachable_inv [OF udp_createdI [OF assms(1)] assms(2)]
  by (auto simp: sys_inv_def sys_owned_def sys_agree_def ur_owned_def fd_res_def)

text \<open>
  C16. \<open>udp_receiver_stop\<close> returns: from any reachable state in which the owner waits for the thread, the
  system can always take a step, and on every run the wait is over within three steps (as long as
  \<open>recv\<close> itself returns, which \<open>SO_RCVTIMEO\<close> is for).
\<close>

theorem udp_stop_returns:
  assumes "run_state (udp_receiver_create E port pt src) [] = (Some ur, t)"
    and "(udp_step E)\<^sup>*\<^sup>* (udp_init ur t) s"
  shows "ends_within (udp_step E) (\<lambda>s. owner s = Joining) 3 s"
  by (rule udp_wait.reachable_ends [OF udp_createdI [OF assms(1)] assms(2) join_rank_bound])

section \<open>Witnesses\<close>

definition calm_env :: env where
  "calm_env = null_env\<lparr>sys := calm_sys, gst := calm_gst\<rparr>"

definition fresh :: UdpReceiver where
  "fresh = started\<lparr>ur_sockfd := -1, ur_thread := 0, ur_running := False\<rparr>"

lemma create_fresh:
  "run_state (udp_receiver_create calm_env 5600 97 2) [] =
     (Some fresh, [Sys (EvMutexInit UrLock), Gst (EvObjectRef 2), Sys (EvAlloc UdpReceiverObj True)])"
  by (simp add: udp_receiver_create_def calm_env_def calm_sys_def fresh_def started_def)

lemma start_fresh: "\<exists>t'. run_state (udp_receiver_start calm_env (Some fresh)) t = ((0, Some started), t')"
  by (simp add: udp_receiver_start_def calm_env_def calm_sys_def fresh_def started_def Let_def)

lemma reach_started:
  "\<exists>t'. (udp_step calm_env)\<^sup>*\<^sup>* (udp_init fresh t)
     \<lparr>shared = started, owner = Outside, thread = Created, calls = t'\<rparr>"
proof -
  obtain t' where "run_state (udp_receiver_start calm_env (Some fresh)) t = ((0, Some started), t')"
    using start_fresh by blast
  then have "udp_step calm_env (udp_init fresh t) \<lparr>shared = started, owner = Outside, thread = Created, calls = t'\<rparr>"
    using udp_step.start [of "udp_init fresh t" calm_env 0 started t']
    by (simp add: udp_init_def fresh_def started_def)
  then show ?thesis by blast
qed

lemma reach_at_recv:
  "\<exists>t'. (udp_step calm_env)\<^sup>*\<^sup>* (udp_init fresh t)
     \<lparr>shared = started, owner = Outside, thread = AtRecv, calls = t'\<rparr>"
proof -
  obtain t1 where r: "(udp_step calm_env)\<^sup>*\<^sup>* (udp_init fresh t)
      \<lparr>shared = started, owner = Outside, thread = Created, calls = t1\<rparr>" using reach_started by blast
  have 1: "udp_step calm_env \<lparr>shared = started, owner = Outside, thread = Created, calls = t1\<rparr>
      \<lparr>shared = started, owner = Outside, thread = AtCheck, calls = Sys (EvAlloc PacketBuf True) # t1\<rparr>"
    (is "udp_step _ ?s1 ?s2")
    using by_receiver [OF thread_alloc [of ?s1 calm_env True]] by (simp add: calm_env_def calm_sys_def)
  have "udp_step calm_env ?s2 (?s2\<lparr>calls := Sys (EvUnlock UrLock) # Sys (EvLock UrLock) # calls ?s2,
      thread := AtRecv\<rparr>)"
    by (rule by_receiver, rule thread_go) (simp_all add: receiver_check_def started_def)
  then show ?thesis using r 1 by (metis (no_types, lifting) rtranclp.rtrancl_into_rtrancl udp_sys.update_convs(3,4))
qed

theorem udp_threads_safe_witness:
  "\<exists>(s :: udp_sys) M. thread s = AtRecv \<and> monitor own {#Ref 2#} (calls s) = Some M \<and> Fd 3 \<in># M"
proof -
  obtain t' where "(udp_step calm_env)\<^sup>*\<^sup>*
      (udp_init fresh [Sys (EvMutexInit UrLock), Gst (EvObjectRef 2), Sys (EvAlloc UdpReceiverObj True)])
      \<lparr>shared = started, owner = Outside, thread = AtRecv, calls = t'\<rparr>"
    using reach_at_recv by blast
  from udp_threads_safe [OF create_fresh this] show ?thesis
    by (intro exI [of _ "\<lparr>shared = started, owner = Outside, thread = AtRecv, calls = t'\<rparr>"])
      (auto simp: started_def)
qed

theorem udp_stop_returns_witness:
  "\<exists>s. owner s = Joining \<and> thread s = AtRecv \<and> ends_within (udp_step calm_env) (\<lambda>s. owner s = Joining) 3 s"
proof -
  let ?t = "[Sys (EvMutexInit UrLock), Gst (EvObjectRef 2), Sys (EvAlloc UdpReceiverObj True)]"
  obtain t' where r: "(udp_step calm_env)\<^sup>*\<^sup>* (udp_init fresh ?t)
      \<lparr>shared = started, owner = Outside, thread = AtRecv, calls = t'\<rparr>"
    using reach_at_recv by blast
  let ?s = "\<lparr>shared = started, owner = Outside, thread = AtRecv, calls = t'\<rparr>"
  obtain go ur u where run: "run_state (stop_request started) t' = ((go, ur), u)"
    by (metis prod.collapse)
  then have "go" by (auto simp: stop_request_def started_def Let_def io_when_def)
  then have "udp_step calm_env ?s (?s\<lparr>shared := ur, calls := u, owner := Joining\<rparr>)"
    using run by (intro stop_begin) simp_all
  then have "(udp_step calm_env)\<^sup>*\<^sup>* (udp_init fresh ?t) (?s\<lparr>shared := ur, calls := u, owner := Joining\<rparr>)"
    using r by (rule rtranclp.rtrancl_into_rtrancl [rotated])
  from udp_stop_returns [OF create_fresh this] show ?thesis
    by (intro exI [of _ "?s\<lparr>shared := ur, calls := u, owner := Joining\<rparr>"]) simp
qed

end
