(* ===== verification/Decoder_Threads.thy ===== *)
theory Decoder_Threads
  imports Decoder_Lifecycle Udp_Threads
begin

text \<open>
  The decoder's two threads beside their owner, as a step relation on the shared struct. The owner is
  between its calls, inside \<open>video_decoder_start\<close> or inside \<open>video_decoder_stop\<close>; each of its steps is a
  part of those functions that does not wait for a thread, and a join is a step that needs the
  thread to have ended. The frame thread takes turns of its loop until one is the last; the display
  thread looks at the pending frame and, when there is none, waits until the condition is signalled
  or it wakes for no reason. The owner starts the threads only when there are none.
\<close>

section \<open>The system\<close>

datatype dec_owner = Free | Starting | StartFailed | Draining bool | JoinFrame | JoinDisplay

datatype frame_pc = FNone | FNew | FTurn | FEnding | FDone

datatype display_pc = DNone | DNew | DLook | DWaiting | DDone

record dec_sys =
  vdec :: VideoDecoder
  downer :: dec_owner
  fpc :: frame_pc
  dpc :: display_pc
  dcalls :: trace

definition signalled :: "trace \<Rightarrow> trace \<Rightarrow> bool" where
  "signalled t t' \<longleftrightarrow> Mpp (EvCondSignal VdCond) \<in> set (take (length t' - length t) t')"

definition woken :: "trace \<Rightarrow> trace \<Rightarrow> display_pc \<Rightarrow> display_pc" where
  "woken t t' d = (if d = DWaiting \<and> signalled t t' then DLook else d)"

definition display_pc_after :: "display_next \<Rightarrow> display_pc" where
  "display_pc_after n = (case n of Waiting \<Rightarrow> DWaiting | Again \<Rightarrow> DLook | Leave \<Rightarrow> DDone)"

inductive decoder_moves :: "env \<Rightarrow> dec_sys \<Rightarrow> dec_sys \<Rightarrow> bool" for E where
  frame_begin: "fpc s = FNew \<Longrightarrow>
     decoder_moves E s (s\<lparr>vdec := (vdec s)\<lparr>vd_frame_thread_running := True\<rparr>, fpc := FTurn\<rparr>)"
| frame_turn: "fpc s = FTurn \<Longrightarrow>
     run_state (frame_step E (vdec s)) (dcalls s) = ((again, vd), t) \<Longrightarrow>
     decoder_moves E s (s\<lparr>vdec := vd, dcalls := t, fpc := (if again then FTurn else FEnding),
       dpc := woken (dcalls s) t (dpc s)\<rparr>)"
| frame_end: "fpc s = FEnding \<Longrightarrow>
     run_state (frame_thread_end (vdec s)) (dcalls s) = (vd, t) \<Longrightarrow>
     decoder_moves E s (s\<lparr>vdec := vd, dcalls := t, fpc := FDone, dpc := woken (dcalls s) t (dpc s)\<rparr>)"
| display_begin: "dpc s = DNew \<Longrightarrow>
     decoder_moves E s (s\<lparr>vdec := (vdec s)\<lparr>vd_display_thread_running := True\<rparr>, dpc := DLook\<rparr>)"
| display_look: "dpc s = DLook \<Longrightarrow>
     run_state (display_step E (vdec s)) (dcalls s) = ((n, vd), t) \<Longrightarrow>
     decoder_moves E s (s\<lparr>vdec := vd, dcalls := t, dpc := display_pc_after n\<rparr>)"
| display_wake: "dpc s = DWaiting \<Longrightarrow> decoder_moves E s (s\<lparr>dpc := DLook\<rparr>)"

inductive dec_step :: "env \<Rightarrow> dec_sys \<Rightarrow> dec_sys \<Rightarrow> bool" for E where
  start_fail: "downer s = Free \<Longrightarrow> fpc s = FNone \<Longrightarrow> dpc s = DNone \<Longrightarrow> \<not> vd_running (vdec s) \<Longrightarrow>
     run_state (start_frame E (vdec s)) (dcalls s) = ((False, vd), t) \<Longrightarrow>
     dec_step E s (s\<lparr>vdec := vd, dcalls := t\<rparr>)"
| start_frame: "downer s = Free \<Longrightarrow> fpc s = FNone \<Longrightarrow> dpc s = DNone \<Longrightarrow> \<not> vd_running (vdec s) \<Longrightarrow>
     run_state (start_frame E (vdec s)) (dcalls s) = ((True, vd), t) \<Longrightarrow>
     dec_step E s (s\<lparr>vdec := vd, dcalls := t, downer := Starting, fpc := FNew\<rparr>)"
| start_display: "downer s = Starting \<Longrightarrow>
     run_state (start_display E (vdec s)) (dcalls s) = ((True, vd), t) \<Longrightarrow>
     dec_step E s (s\<lparr>vdec := vd, dcalls := t, downer := Free, dpc := DNew\<rparr>)"
| start_undo: "downer s = Starting \<Longrightarrow>
     run_state (start_display E (vdec s)) (dcalls s) = ((False, vd), t) \<Longrightarrow>
     dec_step E s (s\<lparr>vdec := vd, dcalls := t, downer := StartFailed\<rparr>)"
| start_join: "downer s = StartFailed \<Longrightarrow> fpc s = FDone \<Longrightarrow>
     run_state (join_frame (vdec s)) (dcalls s) = (vd, t) \<Longrightarrow>
     dec_step E s (s\<lparr>vdec := vd, dcalls := t, downer := Free, fpc := FNone\<rparr>)"
| feed: "downer s = Free \<Longrightarrow>
     run_state (feed E neon n (vdec s) bytes pts) (dcalls s) = ((Some r, vd), t) \<Longrightarrow>
     dec_step E s (s\<lparr>vdec := vd, dcalls := t\<rparr>)"
| stop_request: "downer s = Free \<Longrightarrow>
     run_state (request_stop (vdec s)) (dcalls s) = ((was, vd), t) \<Longrightarrow>
     dec_step E s (s\<lparr>vdec := vd, dcalls := t, downer := Draining was, dpc := woken (dcalls s) t (dpc s)\<rparr>)"
| stop_drain: "downer s = Draining was \<Longrightarrow>
     run_state (drain E was (vdec s)) (dcalls s) = ((), t) \<Longrightarrow>
     dec_step E s (s\<lparr>dcalls := t, downer := JoinFrame\<rparr>)"
| stop_join_frame: "downer s = JoinFrame \<Longrightarrow> fpc s = FDone \<or> fpc s = FNone \<Longrightarrow>
     run_state (join_frame (vdec s)) (dcalls s) = (vd, t) \<Longrightarrow>
     dec_step E s (s\<lparr>vdec := vd, dcalls := t, downer := JoinDisplay, fpc := FNone\<rparr>)"
| stop_join_display: "downer s = JoinDisplay \<Longrightarrow> dpc s = DDone \<or> dpc s = DNone \<Longrightarrow>
     run_state (join_display (vdec s)) (dcalls s) = (vd, t) \<Longrightarrow>
     dec_step E s (s\<lparr>vdec := vd, dcalls := t, downer := Free, dpc := DNone\<rparr>)"
| by_decoder: "decoder_moves E s s' \<Longrightarrow> dec_step E s s'"

section \<open>Signals\<close>

lemma returns_any: "(\<And>x. P x) \<Longrightarrow> returns m P"
  by (simp add: returns_def)

lemma returns_bind_any: "(\<And>x. returns (f x) P) \<Longrightarrow> returns (State_Monad.bind m f) P"
  by (simp add: returns_def split_beta)

lemma commit_plane_pending:
  "returns (commit_plane E vd fb w h) (\<lambda>x. vd_pending_fb (snd x) = vd_pending_fb vd)"
proof -
  obtain w' h' vd' where s: "source_size vd w h = (w', h', vd')" by (cases "source_size vd w h")
  then have "vd_pending_fb vd' = vd_pending_fb vd" using source_size_resized by blast
  then show ?thesis
    unfolding commit_plane_def by (auto simp: s intro!: returns_bind_any returns_ret returns_if)
qed

lemma release_frame_group_pending:
  "returns (release_frame_group vd) (\<lambda>vd'. vd_pending_fb vd' = vd_pending_fb vd)"
  unfolding release_frame_group_def by (auto intro!: returns_bind_any returns_ret returns_if)

lemma share_buffers_pending:
  "returns (share_buffers E vd f) (\<lambda>vd'. vd_pending_fb vd' = vd_pending_fb vd)"
  unfolding share_buffers_def reset_frame_map_def Let_def
  by (intro returns_bind_any returns_bind [OF returns_mono [OF commit_plane_pending]])
    (auto intro: returns_ret)

lemma setup_keeps_pending:
  "returns (setup_external_buffers E vd f) (\<lambda>x. vd_pending_fb (snd x) = vd_pending_fb vd)"
  unfolding setup_external_buffers_def
  by (intro returns_if returns_ret returns_bind [OF returns_mono [OF release_frame_group_pending]]
      returns_bind_any returns_case_option returns_bind [OF returns_mono [OF share_buffers_pending]]) simp_all

lemma publish_signals:
  "run_state (publish_frame E vd f) t = (vd', t') \<Longrightarrow>
     vd' = vd \<and> t' = t \<or> t' = Sys (EvUnlock VdLock) # Mpp (EvCondSignal VdCond) # Sys (EvLock VdLock) # t"
  by (auto simp: publish_frame_def split: if_splits option.splits)

lemma frame_step_signals:
  assumes "run_state (frame_step E vd) t = ((again, vd'), t')"
  shows "vd_pending_fb vd' = vd_pending_fb vd \<or> signalled t t'"
proof (cases "vd_running vd \<and> e_get_frame (mpp E) t \<noteq> None")
  case True
  then obtain f where f: "e_get_frame (mpp E) t = Some f" by auto
  let ?t = "Mpp (EvGetFrame (vd_ctx vd) (Some (frame_ptr f))) # t"
  obtain r vd1 t1 where su: "run_state (setup_external_buffers E vd f) ?t = ((r, vd1), t1)"
    by (metis surj_pair)
  obtain vd2 t2 where publish: "run_state (publish_frame E vd f) ?t = (vd2, t2)"
    by (metis surj_pair)
  have "vd_pending_fb vd1 = vd_pending_fb vd"
    using setup_keeps_pending [of E vd f, unfolded returns_def, rule_format, of ?t] su by simp
  then show ?thesis
    using assms True f su publish publish_signals [OF publish] unfolding frame_step_def finish_frame_def
    by (auto simp: signalled_def split: if_splits)
next
  case False
  then show ?thesis using assms by (auto simp: frame_step_def split: if_splits)
qed

lemma frame_end_signals: "run_state (frame_thread_end vd) t = (vd', t') \<Longrightarrow> signalled t t'"
  by (auto simp: frame_thread_end_def signalled_def)

lemma request_stop_signals:
  "run_state (request_stop vd) t = ((was, vd'), t') \<Longrightarrow> vd_cond_initialized vd \<Longrightarrow> signalled t t'"
  by (auto simp: request_stop_def io_when_def signalled_def split: if_splits)

section \<open>The invariant\<close>

definition dec_agree :: "dec_sys \<Rightarrow> bool" where
  "dec_agree s \<longleftrightarrow>
     (fpc s = FNone \<longleftrightarrow> vd_frame_thread (vdec s) = 0) \<and> (dpc s = DNone \<longleftrightarrow> vd_display_thread (vdec s) = 0)
   \<and> (dpc s = DWaiting \<longrightarrow> vd_running (vdec s) \<and> vd_pending_fb (vdec s) = 0)
   \<and> (fpc s = FNone \<or> fpc s = FDone \<longrightarrow> \<not> vd_running (vdec s))
   \<and> (case downer s of
        Free \<Rightarrow> fpc s = FNone \<longleftrightarrow> dpc s = DNone
      | Starting \<Rightarrow> fpc s \<noteq> FNone \<and> dpc s = DNone
      | StartFailed \<Rightarrow> fpc s \<noteq> FNone \<and> dpc s = DNone \<and> \<not> vd_running (vdec s)
      | Draining _ \<Rightarrow> (fpc s = FNone \<longleftrightarrow> dpc s = DNone) \<and> \<not> vd_running (vdec s)
      | JoinFrame \<Rightarrow> (fpc s = FNone \<longleftrightarrow> dpc s = DNone) \<and> \<not> vd_running (vdec s)
      | JoinDisplay \<Rightarrow> fpc s = FNone \<and> \<not> vd_running (vdec s))"

definition dec_sys_inv :: "resource multiset \<Rightarrow> resource multiset \<Rightarrow> dec_sys \<Rightarrow> bool" where
  "dec_sys_inv M0 M s \<longleftrightarrow> dec_agree s \<and> core_inv (vdec s) \<and> vd_initialized (vdec s)
     \<and> monitor own M0 (dcalls s) = Some (M + vd_owned (vdec s))"

text \<open>What the threads use, and the rest.\<close>

definition vd_rest :: "VideoDecoder \<Rightarrow> resource multiset" where
  "vd_rest vd = {#Heap DecoderBuf#} + fd_res (vd_drm_fd vd) + ptr_res MppPacket (vd_packet vd) + bg_owned vd
     + threads_owned vd"

lemma vd_owned_rest:
  "core_inv vd \<Longrightarrow> vd_initialized vd \<Longrightarrow> vd_owned vd = vd_rest vd + (sync + decoding vd)"
  by (clarsimp simp: core_inv_def vd_owned_def core_owned_def base_owned_def mpp_owned_def vd_rest_def sync_def
      decoding_def ptr_res_def)

lemma grp_step_rest:
  assumes "grp_step vd vd'"
  shows "vd_rest vd' = vd_rest vd" "core_inv vd' = core_inv vd" "vd_initialized vd' = vd_initialized vd"
    "vd_running vd' = vd_running vd" "vd_frame_thread vd' = vd_frame_thread vd"
    "vd_display_thread vd' = vd_display_thread vd"
  using assms
  by (simp_all add: grp_step_defs vd_rest_def bg_owned_def threads_owned_def core_inv_def bg_inv_def)

lemma resized_step:
  assumes "resized vd vd'"
  shows "grp_step vd vd'" "decoding vd' = decoding vd"
  using assms by (simp_all add: grp_step_defs resized_def decoding_def frames_owned_def)

lemma feed_own:
  assumes "core_inv vd" and "vd_initialized vd"
  shows "wp own (feed E neon n vd bytes pts)
     (\<lambda>x M'. M' = M + vd_owned (snd x) \<and> (\<exists>b. b \<noteq> None \<and> snd x = vd\<lparr>vd_packet_buf := b\<rparr>)) (M + vd_owned vd)"
proof (rule feed_wp)
  show "MppPacket (vd_packet vd) \<in># M + vd_owned vd \<and> MppCtx (vd_ctx vd) \<in># M + vd_owned vd"
    using assms by (simp add: core_inv_def vd_owned_def core_owned_def mpp_owned_def ptr_res_def)
next
  fix r and b :: "u8 list option" assume "(b = None) = (vd_packet_buf vd = None)"
  then have "b \<noteq> None" using assms by (auto simp: core_inv_def)
  moreover have "vd_packet_buf vd \<noteq> None" using assms by (auto simp: core_inv_def)
  ultimately have "vd_owned (vd\<lparr>vd_packet_buf := b\<rparr>) = vd_owned vd"
    by (simp add: vd_owned_def core_owned_def base_owned_def mpp_owned_def frames_owned_def bg_owned_def threads_owned_def)
  with \<open>b \<noteq> None\<close> show "M + vd_owned vd = M + vd_owned (snd (r, vd\<lparr>vd_packet_buf := b\<rparr>))
      \<and> (\<exists>b'. b' \<noteq> None \<and> snd (r, vd\<lparr>vd_packet_buf := b\<rparr>) = vd\<lparr>vd_packet_buf := b'\<rparr>)"
    by (intro conjI exI [of _ b]) simp_all
qed

lemma core_inv_packet_buf: "core_inv vd \<Longrightarrow> b \<noteq> None \<Longrightarrow> core_inv (vd\<lparr>vd_packet_buf := b\<rparr>)"
  by (auto simp: core_inv_def bg_inv_def)

lemma drain_keeps:
  "wp own (drain E b vd) (\<lambda>_ M'. M' = M + vd_owned vd) (M + vd_owned vd)"
  by (rule drain_wp) (simp_all add: vd_owned_def core_owned_def)

lemma initialized_sync: "core_inv vd \<Longrightarrow> vd_initialized vd \<Longrightarrow> vd_cond_initialized vd \<and> vd_lock_initialized vd"
  by (auto simp: core_inv_def)

lemma wokenD: "woken t t' d = DWaiting \<Longrightarrow> d = DWaiting \<and> \<not> signalled t t'"
  by (auto simp: woken_def split: if_splits)

lemma woken_none [simp]: "woken t t' d = DNone \<longleftrightarrow> d = DNone"
  by (auto simp: woken_def)

section \<open>Every step keeps the invariant\<close>

lemma inv_mon: "dec_sys_inv M0 M s \<Longrightarrow> monitor own M0 (dcalls s) = Some (M + vd_owned (vdec s))"
  by (simp add: dec_sys_inv_def)

lemma frame_turn_inv:
  assumes "real_objects E" and "dec_sys_inv M0 M s" and "fpc s = FTurn"
    and run: "run_state (frame_step E (vdec s)) (dcalls s) = ((again, vd), t)"
  shows "dec_sys_inv M0 M (s\<lparr>vdec := vd, dcalls := t, fpc := (if again then FTurn else FEnding),
       dpc := woken (dcalls s) t (dpc s)\<rparr>)"
proof -
  have inv: "dec_agree s" "core_inv (vdec s)" "vd_initialized (vdec s)"
    using assms(2) by (auto simp: dec_sys_inv_def)
  have len: "length (vd_frame_map (vdec s)) = DECODER_MAX_FRAMES" using inv(2) by (simp add: core_inv_def)
  have mon: "monitor own M0 (dcalls s) = Some (M + vd_rest (vdec s) + (sync + decoding (vdec s)))"
    using inv_mon [OF assms(2)] vd_owned_rest [OF inv(2,3)] by (simp add: ac_simps)
  from wp_after [OF frame_step_own [OF assms(1) len] run mon]
  have t: "monitor own M0 t = Some (M + vd_rest (vdec s) + (sync + decoding vd))" and g: "grp_step (vdec s) vd"
    by auto
  note r = grp_step_rest [OF g]
  have "monitor own M0 t = Some (M + vd_owned vd)"
    using t vd_owned_rest [of vd] r inv by (simp add: ac_simps)
  moreover have "vd_pending_fb vd = vd_pending_fb (vdec s) \<or> signalled (dcalls s) t"
    using frame_step_signals [OF run] .
  ultimately show ?thesis
    using inv r assms(3) by (auto simp: dec_sys_inv_def dec_agree_def dest: wokenD split: dec_owner.splits)
qed

lemma display_look_inv:
  assumes "dec_sys_inv M0 M s" and "dpc s = DLook"
    and run: "run_state (display_step E (vdec s)) (dcalls s) = ((n, vd), t)"
  shows "dec_sys_inv M0 M (s\<lparr>vdec := vd, dcalls := t, dpc := display_pc_after n\<rparr>)"
proof -
  have inv: "dec_agree s" "core_inv (vdec s)" "vd_initialized (vdec s)"
    using assms(1) by (auto simp: dec_sys_inv_def)
  have mon: "monitor own M0 (dcalls s) = Some (M + vd_rest (vdec s) + decoding (vdec s) + sync)"
    using inv_mon [OF assms(1)] vd_owned_rest [OF inv(2,3)] by (simp add: ac_simps)
  from wp_after [OF display_step_own run mon]
  have t: "monitor own M0 t = Some (M + vd_rest (vdec s) + decoding (vdec s) + sync)" and g: "resized (vdec s) vd"
    and w: "vd_pending_fb vd = 0" "n = Waiting \<longrightarrow> vd_running (vdec s)"
    by auto
  note r = grp_step_rest [OF resized_step(1) [OF g]] resized_step(2) [OF g]
  have "monitor own M0 t = Some (M + vd_owned vd)"
    using t vd_owned_rest [of vd] r inv by (simp add: ac_simps)
  then show ?thesis
    using inv r assms(2) w
    by (auto simp: dec_sys_inv_def dec_agree_def display_pc_after_def split: dec_owner.splits display_next.splits)
qed

lemma frame_end_inv:
  assumes "dec_sys_inv M0 M s" and "fpc s = FEnding"
    and run: "run_state (frame_thread_end (vdec s)) (dcalls s) = (vd, t)"
  shows "dec_sys_inv M0 M (s\<lparr>vdec := vd, dcalls := t, fpc := FDone, dpc := woken (dcalls s) t (dpc s)\<rparr>)"
proof -
  have inv: "dec_agree s" "core_inv (vdec s)" "vd_initialized (vdec s)"
    using assms(1) by (auto simp: dec_sys_inv_def)
  have mon: "monitor own M0 (dcalls s) = Some (M + vd_rest (vdec s) + decoding (vdec s) + sync)"
    using inv_mon [OF assms(1)] vd_owned_rest [OF inv(2,3)] by (simp add: ac_simps)
  from wp_after [OF frame_thread_end_own run mon]
  have t: "monitor own M0 t = Some (M + vd_rest (vdec s) + decoding (vdec s) + sync)"
    and vd: "vd = (vdec s)\<lparr>vd_running := False, vd_frame_thread_running := False\<rparr>" by auto
  have "monitor own M0 t = Some (M + vd_owned vd)"
    using t vd_owned_rest [OF inv(2,3)] by (simp add: vd ac_simps vd_owned_def threads_owned_def)
  then show ?thesis
    using inv assms(2) frame_end_signals [OF run]
    by (auto simp: vd dec_sys_inv_def dec_agree_def dest: wokenD split: dec_owner.splits)
qed

text \<open>The owner's steps change the flags and the handles only.\<close>

definition flags_step :: "VideoDecoder \<Rightarrow> VideoDecoder \<Rightarrow> bool" where
  "flags_step vd vd' \<longleftrightarrow> core_owned vd' = core_owned vd \<and> core_inv vd' = core_inv vd
     \<and> vd_initialized vd' = vd_initialized vd \<and> vd_pending_fb vd' = vd_pending_fb vd"

lemma start_frame_own:
  assumes "vd_frame_thread vd = 0"
  shows "wp own (start_frame E vd)
     (\<lambda>x M'. M' = M + vd_owned (snd x) \<and> flags_step vd (snd x) \<and> vd_running (snd x) = fst x
        \<and> (vd_frame_thread (snd x) = 0 \<longleftrightarrow> \<not> fst x) \<and> vd_display_thread (snd x) = vd_display_thread vd) (M + vd_owned vd)"
  using assms by (intro start_frame_wp) (simp_all add: flags_step_def vd_owned_def threads_owned_def ptr_res_def)

lemma start_display_own:
  assumes "vd_display_thread vd = 0"
  shows "wp own (start_display E vd)
     (\<lambda>x M'. M' = M + vd_owned (snd x) \<and> flags_step vd (snd x) \<and> vd_running (snd x) = (vd_running vd \<and> fst x)
        \<and> vd_frame_thread (snd x) = vd_frame_thread vd \<and> (vd_display_thread (snd x) = 0 \<longleftrightarrow> \<not> fst x)) (M + vd_owned vd)"
  using assms by (intro start_display_wp) (simp_all add: flags_step_def vd_owned_def threads_owned_def ptr_res_def)

lemma join_frame_step:
  "wp own (join_frame vd)
     (\<lambda>vd' M'. M' = M + vd_owned vd' \<and> flags_step vd vd' \<and> vd_running vd' = vd_running vd
        \<and> vd_frame_thread vd' = 0 \<and> vd_display_thread vd' = vd_display_thread vd) (M + vd_owned vd)"
  by (intro wp_own_frame [OF join_frame_own]) (auto simp: flags_step_def vd_owned_def threads_owned_def)

lemma join_display_step:
  "wp own (join_display vd)
     (\<lambda>vd' M'. M' = M + vd_owned vd' \<and> flags_step vd vd' \<and> vd_running vd' = vd_running vd
        \<and> vd_display_thread vd' = 0 \<and> vd_frame_thread vd' = vd_frame_thread vd) (M + vd_owned vd)"
  by (intro wp_own_frame [OF join_display_own]) (auto simp: flags_step_def vd_owned_def threads_owned_def)

text \<open>A step with such a triple keeps the invariant if the new control points agree.\<close>

lemma owner_step:
  assumes "wp own m (\<lambda>x M'. M' = M + vd_owned (f x) \<and> flags_step (vdec s) (f x) \<and> P x) (M + vd_owned (vdec s))"
    and "run_state m (dcalls s) = (x, t)" and "dec_sys_inv M0 M s" and "vdec s' = f x" and "dcalls s' = t"
    and "P x \<Longrightarrow> dec_agree s'"
  shows "dec_sys_inv M0 M s'"
  using wp_after [OF assms(1,2) inv_mon [OF assms(3)]] assms(3-)
  by (auto simp: dec_sys_inv_def flags_step_def)

lemma decoder_moves_inv:
  assumes "decoder_moves E s s'" and "real_objects E" and "dec_sys_inv M0 M s"
  shows "dec_sys_inv M0 M s'"
  using assms
proof (induction rule: decoder_moves.induct)
  case (frame_begin s)
  then show ?case
    by (auto simp: dec_sys_inv_def dec_agree_def vd_owned_def threads_owned_def split: dec_owner.splits)
next
  case (frame_turn s again vd t)
  then show ?case using frame_turn_inv by blast
next
  case (frame_end s vd t)
  then show ?case using frame_end_inv by blast
next
  case (display_begin s)
  then show ?case
    by (auto simp: dec_sys_inv_def dec_agree_def vd_owned_def threads_owned_def split: dec_owner.splits)
next
  case (display_look s n vd t)
  then show ?case using display_look_inv by blast
next
  case (display_wake s)
  then show ?case by (auto simp: dec_sys_inv_def dec_agree_def split: dec_owner.splits)
qed

lemma dec_step_inv:
  assumes "dec_step E s s'" and "real_objects E" and "dec_sys_inv M0 M s"
  shows "dec_sys_inv M0 M s'"
  using assms
proof (induction rule: dec_step.induct)
  case (start_fail s vd t)
  have agree: "dec_agree s" using start_fail.prems by (simp add: dec_sys_inv_def)
  then have "vd_frame_thread (vdec s) = 0" using start_fail.hyps by (auto simp: dec_agree_def)
  from owner_step [where f = snd, OF start_frame_own [OF this] start_fail.hyps(5) start_fail.prems(2)] agree start_fail.hyps
  show ?case by (auto simp: dec_agree_def)
next
  case (start_frame s vd t)
  have agree: "dec_agree s" using start_frame.prems by (simp add: dec_sys_inv_def)
  then have "vd_frame_thread (vdec s) = 0" using start_frame.hyps by (auto simp: dec_agree_def)
  from owner_step [where f = snd, OF start_frame_own [OF this] start_frame.hyps(5) start_frame.prems(2)] agree start_frame.hyps
  show ?case by (auto simp: dec_agree_def)
next
  case (start_display s vd t)
  have agree: "dec_agree s" using start_display.prems by (simp add: dec_sys_inv_def)
  then have "vd_display_thread (vdec s) = 0" using start_display.hyps by (auto simp: dec_agree_def)
  from owner_step [where f = snd, OF start_display_own [OF this] start_display.hyps(2) start_display.prems(2)] agree start_display.hyps
  show ?case by (auto simp: dec_agree_def)
next
  case (start_undo s vd t)
  have agree: "dec_agree s" using start_undo.prems by (simp add: dec_sys_inv_def)
  then have "vd_display_thread (vdec s) = 0" using start_undo.hyps by (auto simp: dec_agree_def)
  from owner_step [where f = snd, OF start_display_own [OF this] start_undo.hyps(2) start_undo.prems(2)] agree start_undo.hyps
  show ?case by (auto simp: dec_agree_def)
next
  case (start_join s vd t)
  have agree: "dec_agree s" using start_join.prems by (simp add: dec_sys_inv_def)
  from owner_step [where f = "\<lambda>x. x", OF join_frame_step start_join.hyps(3) start_join.prems(2)] agree start_join.hyps
  show ?case by (auto simp: dec_agree_def)
next
  case (feed s n bytes pts r vd t)
  have inv: "core_inv (vdec s)" "vd_initialized (vdec s)" using feed.prems by (auto simp: dec_sys_inv_def)
  from wp_after [OF feed_own [OF inv] feed.hyps(2) inv_mon [OF feed.prems(2)]] feed.prems
  show ?case by (auto simp: dec_sys_inv_def dec_agree_def core_inv_packet_buf split: dec_owner.splits)
next
  case (stop_request s was vd t)
  have inv: "core_inv (vdec s)" "vd_initialized (vdec s)" using stop_request.prems by (auto simp: dec_sys_inv_def)
  note sync = initialized_sync [OF inv]
  then have "vd_lock_initialized (vdec s) = vd_cond_initialized (vdec s)" by simp
  from wp_after [OF request_stop_own [OF this] stop_request.hyps(2) inv_mon [OF stop_request.prems(2)]]
    request_stop_signals [OF stop_request.hyps(2)] sync stop_request
  show ?case
    by (auto simp: dec_sys_inv_def dec_agree_def vd_owned_def threads_owned_def dest: wokenD)
next
  case (stop_drain s was t)
  from wp_after [OF drain_keeps stop_drain.hyps(2) inv_mon [OF stop_drain.prems(2)]] stop_drain
  show ?case by (auto simp: dec_sys_inv_def dec_agree_def)
next
  case (stop_join_frame s vd t)
  have agree: "dec_agree s" using stop_join_frame.prems by (simp add: dec_sys_inv_def)
  from owner_step [where f = "\<lambda>x. x", OF join_frame_step stop_join_frame.hyps(3) stop_join_frame.prems(2)] agree stop_join_frame.hyps
  show ?case by (auto simp: dec_agree_def)
next
  case (stop_join_display s vd t)
  have agree: "dec_agree s" using stop_join_display.prems by (simp add: dec_sys_inv_def)
  from owner_step [where f = "\<lambda>x. x", OF join_display_step stop_join_display.hyps(3) stop_join_display.prems(2)] agree stop_join_display.hyps
  show ?case by (auto simp: dec_agree_def)
next
  case (by_decoder s s')
  then show ?case using decoder_moves_inv by blast
qed

end
