(* ===== verification/Decoder_Live.thy ===== *)
theory Decoder_Live
  imports Decoder_Threads
begin

text \<open>
  What the invariant of \<open>Decoder\_Threads\<close> gives: safety of every interleaving, and that stopping returns.
\<close>

section \<open>The system\<close>

text \<open>The system as a successful \<open>video\_decoder\_init\<close> leaves it.\<close>

definition dec_start :: "VideoDecoder \<Rightarrow> trace \<Rightarrow> dec_sys" where
  "dec_start vd t = \<lparr>vdec = vd, downer = Free, fpc = FNone, dpc = DNone, dcalls = t\<rparr>"

definition dec_opened :: "env \<Rightarrow> AppCfg \<Rightarrow> ModesetResult \<Rightarrow> int \<Rightarrow> dec_sys \<Rightarrow> bool" where
  "dec_opened E cfg ms fd s \<longleftrightarrow> real_objects E
     \<and> (\<exists>vd t. run_state (init_decoder E cfg ms fd) [] = ((0, vd), t) \<and> s = dec_start vd t)"

lemma dec_openedI:
  "real_objects E \<Longrightarrow> run_state (init_decoder E cfg ms fd) [] = ((0, vd), t) \<Longrightarrow> dec_opened E cfg ms fd (dec_start vd t)"
  by (auto simp: dec_opened_def)

lemma dec_opened_inv:
  assumes "dec_opened E cfg ms fd s"
  shows "dec_sys_inv {#} {#} s"
proof -
  obtain vd t where real: "real_objects E" and init: "run_state (init_decoder E cfg ms fd) [] = ((0, vd), t)"
    and s: "s = dec_start vd t" using assms by (auto simp: dec_opened_def)
  have "monitor own {#} [] = Some {#}" by simp
  from wp_after [OF init_decoder_own [OF real] init this]
  have "monitor own {#} t = Some (vd_owned vd)" "vd_inv vd" "vd_idle vd" "vd_initialized vd"
    by (auto simp: init_outcome_def)
  then show ?thesis
    by (simp add: s dec_sys_inv_def dec_start_def dec_agree_def vd_inv_def vd_idle_def)
qed

section \<open>How far a stop still has to go\<close>

fun frame_rank :: "frame_pc \<Rightarrow> nat" where
  "frame_rank FNew = 3" | "frame_rank FTurn = 2" | "frame_rank FEnding = 1" | "frame_rank FDone = 0"
| "frame_rank FNone = 0"

fun display_rank :: "display_pc \<Rightarrow> nat" where
  "display_rank DNew = 2" | "display_rank DLook = 1" | "display_rank DWaiting = 1" | "display_rank DDone = 0"
| "display_rank DNone = 0"

fun owner_rank :: "dec_owner \<Rightarrow> nat" where
  "owner_rank (Draining _) = 3" | "owner_rank JoinFrame = 2" | "owner_rank JoinDisplay = 1"
| "owner_rank StartFailed = 1" | "owner_rank Starting = 0" | "owner_rank Free = 0"

definition stop_rank :: "dec_sys \<Rightarrow> nat" where
  "stop_rank s = owner_rank (downer s) + frame_rank (fpc s) + display_rank (dpc s)"

definition stopping :: "dec_sys \<Rightarrow> bool" where
  "stopping s \<longleftrightarrow> downer s \<noteq> Free \<and> downer s \<noteq> Starting"

lemma stopping_not_running: "dec_sys_inv M0 M s \<Longrightarrow> stopping s \<Longrightarrow> \<not> vd_running (vdec s) \<and> dpc s \<noteq> DWaiting"
  by (auto simp: dec_sys_inv_def dec_agree_def stopping_def split: dec_owner.splits)

lemma woken_other: "d \<noteq> DWaiting \<Longrightarrow> woken t t' d = d"
  by (simp add: woken_def)

lemma frame_step_stops: "\<not> vd_running vd \<Longrightarrow> run_state (frame_step E vd) t = ((again, vd'), t') \<Longrightarrow> \<not> again"
  by (simp add: frame_step_def)

lemma display_step_leaves:
  assumes "\<not> vd_running vd" and "run_state (display_step E vd) t = ((n, vd'), t')"
  shows "n = Leave"
  using assms by (auto simp: display_step_def split_beta Let_def split: if_splits)

lemma stop_rank_decreases:
  assumes "dec_step E s s'" and "dec_sys_inv M0 M s" and "stopping s"
  shows "stop_rank s' < stop_rank s"
  using assms(1) stopping_not_running [OF assms(2,3)] assms(3)
  by (cases rule: dec_step.cases)
    (auto simp: stop_rank_def stopping_def woken_other display_pc_after_def elim!: decoder_moves.cases
      dest: frame_step_stops display_step_leaves)

lemma frame_can_step:
  assumes "fpc s \<noteq> FNone" and "fpc s \<noteq> FDone"
  shows "\<exists>s'. dec_step E s s'"
proof (cases "fpc s")
  case FNew then show ?thesis using decoder_moves.frame_begin by_decoder by blast
next
  case FTurn
  obtain again vd t where "run_state (frame_step E (vdec s)) (dcalls s) = ((again, vd), t)" by (metis surj_pair)
  with FTurn show ?thesis using decoder_moves.frame_turn by_decoder by blast
next
  case FEnding
  obtain vd t where "run_state (frame_thread_end (vdec s)) (dcalls s) = (vd, t)" by (metis surj_pair)
  with FEnding show ?thesis using decoder_moves.frame_end by_decoder by blast
qed (use assms in auto)

lemma display_can_step:
  assumes "dpc s \<noteq> DNone" and "dpc s \<noteq> DDone"
  shows "\<exists>s'. dec_step E s s'"
proof (cases "dpc s")
  case DNew then show ?thesis using decoder_moves.display_begin by_decoder by blast
next
  case DLook
  obtain n vd t where "run_state (display_step E (vdec s)) (dcalls s) = ((n, vd), t)" by (metis surj_pair)
  with DLook show ?thesis using decoder_moves.display_look by_decoder by blast
next
  case DWaiting then show ?thesis using decoder_moves.display_wake by_decoder by blast
qed (use assms in auto)

lemma stopping_can_step:
  assumes "stopping s" and "dec_agree s"
  shows "\<exists>s'. dec_step E s s'"
proof (cases "downer s")
  case StartFailed
  obtain vd t where "run_state (join_frame (vdec s)) (dcalls s) = (vd, t)" by (metis surj_pair)
  moreover have "fpc s \<noteq> FNone" using StartFailed assms(2) by (auto simp: dec_agree_def)
  ultimately show ?thesis using dec_step.start_join [OF StartFailed] frame_can_step by blast
next
  case (Draining w)
  obtain t where "run_state (drain E w (vdec s)) (dcalls s) = ((), t)" by (metis surj_pair old.unit.exhaust)
  then show ?thesis using dec_step.stop_drain [OF Draining] by blast
next
  case JoinFrame
  obtain vd t where "run_state (join_frame (vdec s)) (dcalls s) = (vd, t)" by (metis surj_pair)
  then show ?thesis using dec_step.stop_join_frame [OF JoinFrame] frame_can_step by blast
next
  case JoinDisplay
  obtain vd t where "run_state (join_display (vdec s)) (dcalls s) = (vd, t)" by (metis surj_pair)
  then show ?thesis using dec_step.stop_join_display [OF JoinDisplay] display_can_step by blast
qed (use assms in \<open>simp_all add: stopping_def\<close>)

lemma stop_rank_bound: "stop_rank s \<le> 8"
  by (cases "downer s"; cases "fpc s"; cases "dpc s") (simp_all add: stop_rank_def)

interpretation dec_wait: ending_system "dec_step E" "dec_opened E cfg ms fd" "\<lambda>s. real_objects E \<and> dec_sys_inv {#} {#} s"
  stopping stop_rank for E cfg ms fd
proof
  show "real_objects E \<and> dec_sys_inv {#} {#} s" if "dec_opened E cfg ms fd s" for s
    using that dec_opened_inv by (auto simp: dec_opened_def)
  show "real_objects E \<and> dec_sys_inv {#} {#} s'" if "real_objects E \<and> dec_sys_inv {#} {#} s" "dec_step E s s'" for s s'
    using that dec_step_inv by blast
  show "\<exists>s'. dec_step E s s'" if "real_objects E \<and> dec_sys_inv {#} {#} s" "stopping s" for s
    using that stopping_can_step by (auto simp: dec_sys_inv_def)
  show "stop_rank s' < stop_rank s" if "real_objects E \<and> dec_sys_inv {#} {#} s" "stopping s" "dec_step E s s'" for s s'
    using that stop_rank_decreases by blast
qed

section \<open>Properties\<close>


text \<open>
  C15. \<open>video\_decoder\_stop\<close> returns, and so does a start that must undo itself: from any reachable state in
  which the owner is on its way through them the system can always take a step, and on every run the end
  is reached within eight steps - given that each call of MPP returns, which the output timeout set at
  the start and the bounded end-of-stream loop are for.
\<close>

theorem decoder_stop_returns:
  assumes "real_objects E" and "run_state (init_decoder E cfg ms fd) [] = ((0, vd), t)"
    and "(dec_step E)\<^sup>*\<^sup>* (dec_start vd t) s"
  shows "ends_within (dec_step E) stopping 8 s"
  by (rule dec_wait.reachable_ends [OF dec_openedI [OF assms(1,2)] assms(3) stop_rank_bound])

section \<open>Witnesses\<close>

text \<open>A driver with one plane that has the ten properties, an MPP that opens, and a GStreamer that builds everything.\<close>

definition plane_env :: env where
  "plane_env = mpp_only_env\<lparr>drm := (drm null_env)\<lparr>
     e_get_object_props := \<lambda>_ _ _ _. Some \<lparr>oprops_ptr = 9, oprops = [0, 1, 2, 3, 4, 5, 6, 7, 8, 9], oprop_values = []\<rparr>,
     e_get_property := \<lambda>_ _ p. Some \<lparr>prop_ptr = 10, prop_id = p, prop_flags = 0, prop_name = plane_prop_names ! unat p,
       prop_vals = []\<rparr>\<rparr>,
     sys := (sys mpp_only_env)\<lparr>e_socket := \<lambda>_. 9, e_setsockopt := \<lambda>_ _ _. 0, e_bind := \<lambda>_ _ _. 0\<rparr>,
     elem := (elem null_env)\<lparr>e_pipeline_new := \<lambda>_. 20, e_element_new := \<lambda>_ _. 21, e_caps_new := \<lambda>_ _. 22,
       e_link := \<lambda>_. True, e_set_state := \<lambda>_ _ _. 1\<rparr>\<rparr>"

definition small_modeset :: ModesetResult where
  "small_modeset = \<lparr>ms_connector_id = 1, ms_crtc_id = 2, ms_mode_w = 640, ms_mode_h = 480, ms_mode_hz = 60\<rparr>"

lemma plane_env_simps:
  "e_alloc (sys plane_env) t h = True" "e_dup_fd (mpp plane_env) t n = 7" "e_mpp_create (mpp plane_env) t = (0, 3, 4)"
  "e_mpp_init (mpp plane_env) t = 0" "e_packet_init (mpp plane_env) t = Some 5"
  "e_get_resources (drm plane_env) t n = None"  "e_dec_cfg_init (mpp plane_env) t = None"
  "e_get_object_props (drm plane_env) t n p k =
     Some \<lparr>oprops_ptr = 9, oprops = [0, 1, 2, 3, 4, 5, 6, 7, 8, 9], oprop_values = []\<rparr>"
  "e_get_property (drm plane_env) t n p =
     Some \<lparr>prop_ptr = 10, prop_id = p, prop_flags = 0, prop_name = plane_prop_names ! unat p, prop_vals = []\<rparr>"
  by (simp_all add: plane_env_def mpp_only_env_def null_env_def)

lemma plane_prop_loop:
  "returns (prop_loop plane_env fd name ids out) (\<lambda>x. fst x \<longleftrightarrow> (\<exists>p\<in>set ids. plane_prop_names ! unat p = name))"
proof (induction ids)
  case (Cons i ids)
  show ?case
    by (auto simp: plane_env_simps intro!: returns_bind returns_ext returns_emit returns_ret returns_if
        returns_mono [OF Cons.IH])
qed (simp add: returns_ret)

lemma plane_get_prop:
  assumes "name \<in> set plane_prop_names"
  shows "returns (drm_get_prop_id plane_env fd obj ty name out) (\<lambda>x. fst x = 0)"
proof -
  have "\<exists>p\<in>set [0, 1, 2, 3, 4, 5, 6, 7, 8, 9 :: u32]. plane_prop_names ! unat p = name"
    using assms by (auto simp: plane_prop_names_def)
  then show ?thesis
    unfolding drm_get_prop_id_def
    by (auto simp: plane_env_simps intro!: returns_bind returns_ext returns_emit returns_ret
        returns_mono [OF plane_prop_loop])
qed

lemma plane_query_props:
  "set names \<subseteq> set plane_prop_names \<Longrightarrow> returns (query_props plane_env fd obj names cells) fst"
proof (induction plane_env fd obj names cells rule: query_props.induct)
  case (1 fd obj name names cell cells)
  then show ?case
    by (auto intro!: returns_bind returns_ret returns_mono [OF plane_get_prop] returns_mono [OF 1(1)])
qed (simp_all add: returns_ret)

lemma plane_env_opens: "fst (fst (run_state (init_decoder plane_env cfg ms fd) t)) = 0"
proof -
  have "returns (init_decoder plane_env cfg ms fd) (\<lambda>x. fst x = 0)"
    unfolding init_decoder_def open_mpp_def open_packet_def finish_init_def Let_def
    by (auto simp: plane_env_simps intro!: returns_bind returns_ext returns_emit returns_ret
        returns_mono [OF plane_query_props] returns_any [where m = "setup_black_background F vd" for F vd]
        returns_any [where m = "set_control_verbose F c k v" for F c k v]
        returns_any [where m = "set_mpp_decoding_parameters F vd" for F vd])
  then show ?thesis by (simp add: returns_def)
qed

lemma plane_env_start:
  obtains vd t where "run_state (init_decoder plane_env cfg_defaults small_modeset 3) [] = ((0, vd), t)"
proof -
  have "fst (fst (run_state (init_decoder plane_env cfg_defaults small_modeset 3) [])) = 0"
    by (rule plane_env_opens)
  then show thesis using that by (metis prod.collapse)
qed

lemma plane_env_real: "real_objects plane_env"
  by (simp add: real_objects_def plane_env_def mpp_only_env_def null_env_def)


theorem decoder_stop_returns_witness:
  "\<exists>vd t s. run_state (init_decoder plane_env cfg_defaults small_modeset 3) [] = ((0, vd), t)
     \<and> dec_step plane_env (dec_start vd t) s \<and> stopping s \<and> ends_within (dec_step plane_env) stopping 8 s"
proof -
  obtain vd t where init: "run_state (init_decoder plane_env cfg_defaults small_modeset 3) [] = ((0, vd), t)"
    by (rule plane_env_start)
  obtain was vd' t' where "run_state (request_stop vd) t = ((was, vd'), t')" by (metis surj_pair)
  then have req: "run_state (request_stop (vdec (dec_start vd t))) (dcalls (dec_start vd t)) = ((was, vd'), t')"
    by (simp add: dec_start_def)
  have "downer (dec_start vd t) = Free" by (simp add: dec_start_def)
  from dec_step.stop_request [OF this req] obtain s where s: "dec_step plane_env (dec_start vd t) s" "stopping s"
    by (rule that) (simp add: stopping_def)
  from decoder_stop_returns [OF plane_env_real init r_into_rtranclp [of "dec_step plane_env", OF s(1)]] init s
  show ?thesis by blast
qed

end
