(* ===== verification/Pipeline_Life.thy ===== *)
theory Pipeline_Life
  imports Pipeline_Own Decoder_Live Recorder_Properties
begin

text \<open>
  The pipeline from its first start to its last stop: what stopping, polling, the recording calls and
  the turns of the appsink thread keep, and the whole life.
\<close>

section \<open>Stopping and polling\<close>

lemma receiver_stop_frame:
  "opt_inv p \<Longrightarrow> wp own (udp_receiver_stop p) (\<lambda>p' M'. M' = M + opt_owned p' \<and> opt_inv p') (M + opt_owned p)"
  by (rule wp_mono [OF udp_receiver_stop_own]) auto

lemma wait_bus_wp:
  assumes "Cond PsCond \<in># M" and "Locked PsLock \<in># M" and "Q () M"
  shows "wp own (wait_bus E k deadline) Q M"
  using assms by (induction k) (auto intro!: wp_intros simp: own_simps)

lemma await_bus_own:
  "wp own (await_bus E k ms) (\<lambda>_ M'. M' = M + {#Mutex PsLock, Cond PsCond#} \<and> True) (M + {#Mutex PsLock, Cond PsCond#})"
  unfolding await_bus_def by (intro wp_intros wait_bus_wp) (simp_all add: own_simps)

lemma stop_bus_thread_own:
  assumes "ps_initialized ps"
  shows "wp own (stop_bus_thread E k ms ps)
     (\<lambda>ps' M'. M' = M + locks_owned ps \<and> ps' = ps\<lparr>ps_bus_thread := 0\<rparr>)
     (M + (locks_owned ps + ptr_res Thread (ps_bus_thread ps)))"
proof (cases "ps_bus_thread ps = 0")
  case True
  then have "ps\<lparr>ps_bus_thread := 0\<rparr> = ps" by simp
  then show ?thesis using True unfolding stop_bus_thread_def by (simp add: wp_return ptr_res_def)
next
  case False
  then show ?thesis
    using assms unfolding stop_bus_thread_def locks_owned_def
    by (intro wp_intros wp_own_frame [OF await_bus_own] wp_own_frame [OF join_bus_own]) simp_all
qed

definition all_stopped :: "PipelineState \<Rightarrow> bool" where
  "all_stopped ps \<longleftrightarrow> ps_empty ps \<and> ps_initialized ps \<and> ps_state ps = PIPELINE_STOPPED"

lemma all_stopped_inv: "all_stopped ps \<Longrightarrow> ps_inv ps"
  by (simp add: all_stopped_def ps_inv_def ps_empty_inv)

lemma finish_stop_own:
  assumes "parts_inv ps" and "ps_initialized ps"
  shows "wp own (finish_stop E ps) (\<lambda>ps' M'. M' = M + ps_owned ps' \<and> all_stopped ps') (M + ps_owned ps)"
  unfolding finish_stop_def
  by (intro wp_intros wp_mono [OF cleanup_pipeline_own [OF assms]])
    (simp add: all_stopped_def ps_empty_def ps_owned_def locks_owned_def)

text \<open>The first part of a stop, which waits for nobody; a pipeline that is stopped stays as it is.\<close>

definition stop_begun :: "PipelineState \<Rightarrow> bool \<times> PipelineState \<Rightarrow> bool" where
  "stop_begun ps x \<longleftrightarrow>
     (if ps_state ps = PIPELINE_STOPPED then x = (False, ps)
      else fst x \<and> (\<exists>ur. opt_inv ur \<and> snd x = ps\<lparr>ps_state := PIPELINE_STOPPING, ps_stop_requested := True,
             ps_udp_receiver := ur\<rparr>))"

lemma begin_stop_own:
  assumes "parts_inv ps" and "ps_initialized ps"
  shows "wp own (begin_stop E ps) (\<lambda>x M'. M' = M + ps_owned (snd x) \<and> stop_begun ps x) (M + ps_owned ps)"
  using assms unfolding begin_stop_def Let_def
  by (intro wp_intros wp_own_frame [OF receiver_stop_frame])
    (auto simp: own_simps parts_inv_def ps_owned_def locks_owned_def stop_begun_def)

lemma stop_pipeline_own:
  assumes "ps_inv ps" and "ps_initialized ps"
  shows "wp own (stop_pipeline E k ms ps) (\<lambda>ps' M'. M' = M + ps_owned ps' \<and> all_stopped ps') (M + ps_owned ps)"
  unfolding stop_pipeline_def
proof (intro wp_bind wp_mono [OF begin_stop_own])
  fix x M'
  assume x: "M' = M + ps_owned (snd x) \<and> stop_begun ps x"
  then show "wp own (case x of (go, ps) \<Rightarrow> if \<not> go then ret ps
      else join_appsink ps \<bind> (\<lambda>ps. stop_bus_thread E k ms ps \<bind> finish_stop E))
      (\<lambda>ps' M'. M' = M + ps_owned ps' \<and> all_stopped ps') M'"
    using assms
    by (intro wp_intros wp_own_frame [OF join_appsink_own] wp_own_frame [OF stop_bus_thread_own] wp_own_frame [OF finish_stop_own];
      clarsimp simp: stop_begun_def ps_inv_def parts_inv_def all_stopped_def ps_owned_def locks_owned_def split: if_splits)
qed (use assms in \<open>simp_all add: ps_inv_def\<close>)

lemma poll_look_own:
  assumes "ps_initialized ps"
  shows "wp own (poll_look E ps) (\<lambda>_ M'. M' = M + ps_owned ps \<and> True) (M + ps_owned ps)"
  using assms unfolding poll_look_def by (intro wp_intros) (auto simp: own_simps ps_owned_def locks_owned_def)

lemma poll_child_own:
  assumes "ps_inv ps" and "ps_initialized ps"
  shows "wp own (poll_child E ps)
     (\<lambda>ps' M'. M' = M + ps_owned ps' \<and> ps_inv ps' \<and> ps_initialized ps') (M + ps_owned ps)"
  using assms unfolding poll_child_def
  by (intro wp_intros wp_own_frame [OF poll_look_own] wp_own_frame [OF join_bus_own] wp_own_frame [OF finish_stop_own];
    clarsimp simp: ps_inv_def parts_inv_def all_stopped_def ps_owned_def locks_owned_def ps_empty_def
      opt_inv_def dec_inv_def rec_inv_def)

section \<open>Recording\<close>

text \<open>The lock of a recorder whose file cannot be opened stays behind.\<close>

lemma recorder_new_wp:
  assumes "Q None M" and "Q None (M + {#Mutex StatsLock#})" and "\<And>rec. rec_inv (Some rec) \<Longrightarrow> Q (Some rec) (M + rec_owned (Some rec))"
  shows "wp own (video_recorder_new E cfg) Q M"
  by (rule wp_mono [OF video_recorder_new_own])
    (use assms in \<open>auto simp: rec_owned_def split: option.splits\<close>)

lemma enable_recording_rec:
  assumes "rec_inv (ps_recorder ps)" and "ps_initialized ps"
    and "\<And>r rec L. rec_inv rec \<Longrightarrow> leaky L \<Longrightarrow> r = 0 \<and> L = {#} \<or> r = -1 \<Longrightarrow>
      Q (r, ps\<lparr>ps_recorder := rec\<rparr>) (M + ps_owned (ps\<lparr>ps_recorder := rec\<rparr>) + L)"
  shows "wp own (enable_recording E cfg ps) Q (M + ps_owned ps)"
proof -
  have same: "ps\<lparr>ps_recorder := ps_recorder ps\<rparr> = ps" by simp
  have kept: "Q (-1, ps) (M + ps_owned ps)" "Q (-1, ps) (M + ps_owned ps + {#Mutex StatsLock#})" "Q (0, ps) (M + ps_owned ps)"
    using assms(3) [OF assms(1), of "{#}" "-1"] assms(3) [OF assms(1), of "{#Mutex StatsLock#}" "-1"]
      assms(3) [OF assms(1), of "{#}" 0] unfolding same by simp_all
  have new: "Q (0, ps\<lparr>ps_recorder := Some rec\<rparr>) (M + ps_owned ps + rec_owned (Some rec))"
    if "ps_recorder ps = None" and "rec_inv (Some rec)" for rec
  proof -
    have eq: "M + ps_owned ps + rec_owned (Some rec) = M + ps_owned (ps\<lparr>ps_recorder := Some rec\<rparr>) + {#}"
      using that by (simp add: ps_owned_def locks_owned_def rec_owned_def)
    show ?thesis unfolding eq by (rule assms(3) [OF that(2)]) simp_all
  qed
  have "\<exists>N. ps_owned ps = N + {#Mutex RecorderLock#}"
    using assms(2) by (auto simp: ps_owned_def locks_owned_def)
  then obtain N where N: "ps_owned ps = N + {#Mutex RecorderLock#}" by blast
  show ?thesis
    unfolding enable_recording_def Let_def
    apply (intro wp_intros recorder_new_wp wp_own_frame [OF recorder_free_frame])
    using kept new
    apply (simp_all add: own_simps N)
    done
qed

lemma enable_recording_wp:
  assumes "ps_inv ps" and "ps_state ps = PIPELINE_RUNNING"
    and "\<And>r ps' L. ps_inv ps' \<Longrightarrow> ps_initialized ps' \<Longrightarrow> leaky L \<Longrightarrow> r = 0 \<and> L = {#} \<or> r = -1 \<Longrightarrow>
      Q (r, ps') (M + ps_owned ps' + L)"
  shows "wp own (enable_recording E cfg ps) Q (M + ps_owned ps)"
  using assms(1,2) by (intro enable_recording_rec assms(3)) (simp_all add: ps_inv_def parts_inv_def)

lemma disable_recording_keeps:
  assumes "ps_inv ps" and "ps_initialized ps"
  shows "wp own (drop_recorder E ps)
     (\<lambda>ps' M'. M' = M + ps_owned ps' \<and> ps_inv ps' \<and> ps_initialized ps') (M + ps_owned ps)"
  using assms
  by (intro wp_own_frame [OF disable_recording_own])
    (auto simp: ps_inv_def parts_inv_def ps_owned_def locks_owned_def rec_owned_def rec_inv_def ps_empty_def)

lemma recording_stats_own:
  "wp own (recording_stats E ps) (\<lambda>_ M'. M' = M + ({#Mutex RecorderLock#} + rec_owned (ps_recorder ps)) \<and> True)
     (M + ({#Mutex RecorderLock#} + rec_owned (ps_recorder ps)))"
  unfolding recording_stats_def video_recorder_get_stats_def Let_def
  by (intro wp_intros; simp add: own_simps rec_owned_def vr_owned_def)

section \<open>The threads\<close>

text \<open>What the appsink thread holds while it is inside the decoder's call.\<close>

definition dec_safe :: "VideoDecoder option \<Rightarrow> bool" where
  "dec_safe p \<longleftrightarrow> (case p of None \<Rightarrow> True | Some vd \<Rightarrow> vd_inv vd)"

lemma dec_inv_safe: "dec_inv p \<Longrightarrow> dec_safe p"
  by (simp add: dec_inv_def dec_safe_def split: option.splits)

text \<open>What feeding changes of the decoder: the packet buffer.\<close>

definition fed_dec :: "VideoDecoder option \<Rightarrow> VideoDecoder option \<Rightarrow> bool" where
  "fed_dec p p' \<longleftrightarrow> p' = p \<or> (\<exists>vd b. p = Some vd \<and> b \<noteq> None \<and> p' = Some (vd\<lparr>vd_packet_buf := b\<rparr>))"

lemma fed_dec_keeps:
  assumes "fed_dec p p'"
  shows "dec_safe p \<Longrightarrow> dec_safe p'" "dec_inv p \<Longrightarrow> dec_inv p'"
  using assms
  by (auto simp: fed_dec_def dec_safe_def dec_inv_def vd_inv_def vd_settled_def vd_idle_def core_inv_packet_buf)

lemma feed_frame:
  assumes "dec_safe p"
  shows "wp own (video_decoder_feed E neon n p bytes pts)
     (\<lambda>x M'. M' = M + dec_owned (snd x) \<and> fed_dec p (snd x)) (M + dec_owned p)"
proof (cases p)
  case (Some vd)
  show ?thesis
  proof (cases "vd_running vd")
    case True
    then show ?thesis
      using assms Some unfolding video_decoder_feed_def
      by (simp, intro wp_intros wp_own_frame [OF feed_own])
        (auto simp: dec_safe_def dec_owned_def vd_inv_def fed_dec_def)
  qed (use assms Some in \<open>simp add: video_decoder_feed_def feed_def wp_return wp_bind fed_dec_def\<close>)
qed (simp add: video_decoder_feed_def wp_return dec_owned_def fed_dec_def)

lemma handle_sample_frame:
  assumes "rec_inv r" and "buffer \<noteq> 0"
  shows "wp own (video_recorder_handle_sample E r sample buffer bytes)
     (\<lambda>r' M'. M' = M + ({#Buf buffer#} + rec_owned r') \<and> rec_inv r') (M + ({#Buf buffer#} + rec_owned r))"
proof -
  have "wp own (video_recorder_handle_sample E r sample buffer bytes)
     (\<lambda>r' M'. M' = M + {#Buf buffer#} + rec_owned r' \<and> rec_inv r' \<and> (r' = None \<longleftrightarrow> r = None))
     (M + {#Buf buffer#} + rec_owned r)"
    by (rule video_recorder_handle_sample_own [OF assms(1)]) simp
  then show ?thesis unfolding add.assoc by (rule wp_mono) simp
qed

text \<open>
  What a turn of the appsink thread needs and what it changes. It does not matter to it what the other
  threads make of the receiver and of the rest of the decoder.
\<close>

definition can_feed :: "PipelineState \<Rightarrow> bool" where
  "can_feed ps \<longleftrightarrow> rec_inv (ps_recorder ps) \<and> dec_safe (ps_decoder ps) \<and> ps_initialized ps"

definition ps_fed :: "PipelineState \<Rightarrow> PipelineState \<Rightarrow> bool" where
  "ps_fed ps ps' \<longleftrightarrow> (\<exists>r d. ps' = ps\<lparr>ps_recorder := r, ps_decoder := d\<rparr> \<and> rec_inv r \<and> fed_dec (ps_decoder ps) d)"

lemma ps_fedI: "rec_inv r \<Longrightarrow> fed_dec (ps_decoder ps) d \<Longrightarrow> ps_fed ps (ps\<lparr>ps_recorder := r, ps_decoder := d\<rparr>)"
  by (auto simp: ps_fed_def)

lemma ps_fed_refl: "can_feed ps \<Longrightarrow> ps_fed ps ps"
  unfolding ps_fed_def by (intro exI [of _ "ps_recorder ps"] exI [of _ "ps_decoder ps"]) (simp add: can_feed_def fed_dec_def)

lemma feed_bytes_own:
  assumes "can_feed ps" and "buffer \<noteq> 0"
  shows "wp own (feed_bytes E neon n sample buffer bytes pts ps)
     (\<lambda>x M'. M' = M + ({#Buf buffer#} + ps_owned (snd x)) \<and> ps_fed ps (snd x))
     (M + ({#Buf buffer#} + ps_owned ps))"
  using assms unfolding feed_bytes_def Let_def
  by (intro wp_intros wp_own_frame [OF handle_sample_frame] wp_own_frame [OF feed_frame];
    clarsimp simp: own_simps can_feed_def ps_fedI ps_owned_def locks_owned_def)

lemma buffer_time_wp: "(\<And>x. Q x M) \<Longrightarrow> wp \<delta> (buffer_time E buffer) Q M"
  unfolding buffer_time_def by (intro wp_intros)

text \<open>A turn that is back has given its sample back; one that is not back holds it.\<close>

lemma handle_buffer_wp:
  assumes "can_feed ps" and "buffer \<noteq> 0"
    and "\<And>ps'. ps_fed ps ps' \<Longrightarrow> Q (True, ps') (M + ({#Buf buffer#} + ps_owned ps'))"
    and "\<And>ps'. ps_fed ps ps' \<Longrightarrow> Q (False, ps') (M + {#Mapped buffer#} + ({#Buf buffer#} + ps_owned ps'))"
  shows "wp own (handle_buffer E neon n max_packet sample buffer ps) Q (M + ({#Buf buffer#} + ps_owned ps))"
  using assms ps_fed_refl [OF assms(1)] unfolding handle_buffer_def
  by (intro wp_intros buffer_time_wp wp_own_frame [OF feed_bytes_own]) (auto simp: own_simps)

lemma appsink_turn_fed:
  assumes "can_feed ps"
    and "\<And>turn ps'. ps_fed ps ps' \<Longrightarrow> turn \<noteq> TurnBusy \<Longrightarrow> Q (turn, ps') (M + ps_owned ps')"
    and "\<And>ps' M'. ps_fed ps ps' \<Longrightarrow> Q (TurnBusy, ps') M'"
  shows "wp own (appsink_turn E neon n max_packet ps) Q (M + ps_owned ps)"
proof -
  note kept = ps_fed_refl [OF assms(1)]
  have lock: "Mutex PsLock \<in># M + ps_owned ps"
    using assms(1) by (simp add: can_feed_def ps_owned_def locks_owned_def)
  have pulled: "wp own (handle_pulled E neon n max_packet s ps)
      (\<lambda>x. wp own (case x of (back, ps) \<Rightarrow> ret (if back then TurnAgain else TurnBusy, ps)) Q) N"
    if "fst s \<noteq> 0" and N: "N = M + sample_res s + ps_owned ps" for s N
  proof (cases "snd s = 0")
    case True
    then show ?thesis
      using that assms(2) [OF kept, of TurnAgain] unfolding handle_pulled_def N
      by (intro wp_intros) (auto simp: own_simps)
  next
    case False
    have "M + sample_res s + ps_owned ps = M + {#Sample (fst s)#} + ({#Buf (snd s)#} + ps_owned ps)"
      using that False by (simp add: sample_res_def ptr_res_def)
    then show ?thesis
      using False that assms(2,3) unfolding handle_pulled_def N
      by (simp only: if_True simp_thms not_False_eq_True)
        (intro wp_intros handle_buffer_wp assms(1); auto simp: own_simps)
  qed
  show ?thesis
    unfolding appsink_turn_def
    using assms(2) [OF kept] lock
    by (intro wp_intros pulled) (auto simp: own_simps)
qed

definition turn_kept :: "PipelineState \<Rightarrow> PipelineState \<Rightarrow> bool" where
  "turn_kept ps ps' \<longleftrightarrow> ps_inv ps' \<and> ps_state ps' = ps_state ps \<and> ps_initialized ps'"

lemma ps_fed_kept:
  assumes "ps_fed ps ps'" and "ps_inv ps" and "ps_state ps \<noteq> PIPELINE_STOPPED"
  shows "turn_kept ps ps'"
proof -
  obtain r d where "ps' = ps\<lparr>ps_recorder := r, ps_decoder := d\<rparr>" "rec_inv r" "fed_dec (ps_decoder ps) d"
    using assms(1) unfolding ps_fed_def by blast
  then show ?thesis
    using assms(2,3) fed_dec_keeps(2) by (auto simp: turn_kept_def ps_inv_def parts_inv_def)
qed

lemma appsink_turn_wp:
  assumes "ps_inv ps" and "ps_state ps \<noteq> PIPELINE_STOPPED"
    and "\<And>turn ps'. turn_kept ps ps' \<Longrightarrow> turn \<noteq> TurnBusy \<Longrightarrow> Q (turn, ps') (M + ps_owned ps')"
    and "\<And>ps' M'. turn_kept ps ps' \<Longrightarrow> Q (TurnBusy, ps') M'"
  shows "wp own (appsink_turn E neon n max_packet ps) Q (M + ps_owned ps)"
proof (rule appsink_turn_fed)
  show "can_feed ps" using assms(1,2) dec_inv_safe by (simp add: can_feed_def ps_inv_def parts_inv_def)
qed (use assms(3,4) ps_fed_kept [OF _ assms(1,2)] in blast)+

section \<open>The whole life\<close>

text \<open>
  What \<open>main\<close> does between the first start and the last stop, with the appsink thread's turns in
  between: the recording calls only on a running pipeline, the turns only while the thread exists. The
  first component of the result tells whether a call has failed, the second whether the appsink thread is
  still inside a turn, which ends the sequence.
\<close>

datatype pipe_op = PStart | PStop | PPoll | PRecord RecordCfg | PUnrecord | PStats | PTurn bool nat nat

definition pipe_op_run ::
    "env \<Rightarrow> AppCfg \<Rightarrow> ModesetResult \<Rightarrow> int \<Rightarrow> nat \<Rightarrow> pipe_op \<Rightarrow> PipelineState \<Rightarrow> (bool \<times> bool \<times> PipelineState) io" where
  "pipe_op_run E cfg ms fd k oper ps =
     (case oper of
        PStart \<Rightarrow> do { (r, ps) \<leftarrow> start_pipeline E cfg ms fd ps; ret (r \<noteq> 0, False, ps) }
      | PStop \<Rightarrow> do { ps \<leftarrow> stop_pipeline E k 700 ps; ret (False, False, ps) }
      | PPoll \<Rightarrow> do { ps \<leftarrow> poll_child E ps; ret (False, False, ps) }
      | PRecord c \<Rightarrow>
          (if ps_state ps = PIPELINE_RUNNING then do { (r, ps) \<leftarrow> enable_recording E c ps; ret (r \<noteq> 0, False, ps) }
           else ret (False, False, ps))
      | PUnrecord \<Rightarrow> do { ps \<leftarrow> drop_recorder E ps; ret (False, False, ps) }
      | PStats \<Rightarrow> do { _ \<leftarrow> recording_stats E ps; ret (False, False, ps) }
      | PTurn neon n max_packet \<Rightarrow>
          (if ps_state ps \<noteq> PIPELINE_STOPPED \<and> ps_appsink_thread ps \<noteq> 0
           then do { (turn, ps) \<leftarrow> appsink_turn E neon n max_packet ps; ret (False, turn = TurnBusy, ps) }
           else ret (False, False, ps)))"

fun pipe_ops ::
    "env \<Rightarrow> AppCfg \<Rightarrow> ModesetResult \<Rightarrow> int \<Rightarrow> nat \<Rightarrow> pipe_op list \<Rightarrow> PipelineState \<Rightarrow> (bool \<times> bool \<times> PipelineState) io" where
  "pipe_ops E cfg ms fd k [] ps = do { ps \<leftarrow> stop_pipeline E k 700 ps; ret (False, False, ps) }"
| "pipe_ops E cfg ms fd k (oper # ops) ps = do {
     (failed, busy, ps) \<leftarrow> pipe_op_run E cfg ms fd k oper ps;
     if busy then ret (failed, True, ps)
     else do {
       (failed', busy, ps) \<leftarrow> pipe_ops E cfg ms fd k ops ps;
       ret (failed \<or> failed', busy, ps)
     }
   }"

text \<open>A start makes the locks, and keeps them.\<close>

lemma pipe_op_run_wp:
  assumes "real_objects E" and "ps_inv ps" and "ps_initialized ps"
    and "\<And>failed ps' L. ps_inv ps' \<Longrightarrow> ps_initialized ps' \<Longrightarrow> leaky L \<Longrightarrow> failed \<or> L = {#} \<Longrightarrow>
      Q (failed, False, ps') (M + ps_owned ps' + L)"
    and "\<And>failed ps' M'. Q (failed, True, ps') M'"
  shows "wp own (pipe_op_run E cfg ms fd k oper ps) Q (M + ps_owned ps)"
proof -
  have fine: "Q (False, False, ps') (M + ps_owned ps')" if "ps_inv ps'" "ps_initialized ps'" for ps'
    using assms(4) [OF that, of "{#}" False] by simp
  have parts: "{#Mutex RecorderLock#} + rec_owned (ps_recorder ps) \<subseteq># M + ps_owned ps"
    using assms(3) by (simp add: ps_owned_def locks_owned_def)
  then have lock: "Mutex RecorderLock \<in># M + ps_owned ps"
    by (rule mset_subset_eqD) simp
  show ?thesis
  proof (cases oper)
    case PStart
    show ?thesis
      unfolding PStart pipe_op_run_def pipe_op.case
      by (intro wp_bind start_pipeline_wp assms(1,2,3)) (auto intro!: wp_intros assms(4))
  next
    case PStop
    show ?thesis
      unfolding PStop pipe_op_run_def pipe_op.case
      by (intro wp_bind wp_mono [OF stop_pipeline_own [OF assms(2,3)]])
        (auto intro!: wp_intros fine intro: all_stopped_inv simp: all_stopped_def)
  next
    case PPoll
    show ?thesis
      unfolding PPoll pipe_op_run_def pipe_op.case
      by (intro wp_bind wp_mono [OF poll_child_own [OF assms(2,3)]]) (auto intro!: wp_intros fine)
  next
    case (PRecord c)
    show ?thesis
      unfolding PRecord pipe_op_run_def pipe_op.case
      by (intro wp_if wp_bind enable_recording_wp assms(2)) (auto intro!: wp_intros fine assms(2-4))
  next
    case PUnrecord
    show ?thesis
      unfolding PUnrecord pipe_op_run_def pipe_op.case
      by (intro wp_bind wp_mono [OF disable_recording_keeps [OF assms(2,3)]]) (auto intro!: wp_intros fine)
  next
    case PStats
    show ?thesis
      unfolding PStats pipe_op_run_def pipe_op.case
      by (intro wp_bind wp_own_frame [OF recording_stats_own])
        (use parts lock fine assms(2,3) in \<open>auto intro!: wp_intros simp: subset_mset.diff_add\<close>)
  next
    case (PTurn neon n max_packet)
    show ?thesis
      unfolding PTurn pipe_op_run_def pipe_op.case
      by (intro wp_if wp_bind appsink_turn_wp assms(2)) (auto intro!: wp_intros fine assms(2,3,5) simp: turn_kept_def)
  qed
qed

lemma pipe_ops_wp:
  assumes "real_objects E" and "ps_inv ps" and "ps_initialized ps"
    and "\<And>failed ps' L. all_stopped ps' \<Longrightarrow> leaky L \<Longrightarrow> failed \<or> L = {#} \<Longrightarrow>
      Q (failed, False, ps') (M + ps_owned ps' + L)"
    and "\<And>failed ps' M'. Q (failed, True, ps') M'"
  shows "wp own (pipe_ops E cfg ms fd k ops ps) Q (M + ps_owned ps)"
  using assms(2-)
proof (induction ops arbitrary: ps M Q)
  case Nil
  then show ?case
    using Nil(3) [of _ "{#}" False]
    by (auto intro!: wp_intros wp_mono [OF stop_pipeline_own])
next
  case (Cons oper ops)
  show ?case
    unfolding pipe_ops.simps
  proof (intro wp_bind pipe_op_run_wp assms(1) Cons.prems(1,2))
    fix failed ps' L
    assume step: "ps_inv ps'" "ps_initialized ps'" "leaky L" "failed \<or> L = {#}"
    have "wp own (pipe_ops E cfg ms fd k ops ps' \<bind> (\<lambda>(failed', busy, ps). ret (failed \<or> failed', busy, ps))) Q
        (M + L + ps_owned ps')"
    proof (intro wp_bind Cons.IH step(1,2))
      fix failed' ps'' L'
      assume "all_stopped ps''" "leaky L'" "failed' \<or> L' = {#}"
      with step Cons.prems(3) [of ps'' "L + L'" "failed \<or> failed'"]
      show "wp own (case (failed', False, ps'') of (failed', busy, ps) \<Rightarrow> ret (failed \<or> failed', busy, ps)) Q
          (M + L + ps_owned ps'' + L')" by (auto intro!: wp_return simp: ac_simps)
    qed (auto intro!: wp_return Cons.prems(4))
    then show "wp own (case (failed, False, ps') of (failed, busy, ps) \<Rightarrow> if busy then ret (failed, True, ps)
        else pipe_ops E cfg ms fd k ops ps \<bind> (\<lambda>(failed', busy, ps). ret (failed \<or> failed', busy, ps))) Q
        (M + ps_owned ps' + L)" by (simp add: ac_simps)
  qed (auto intro!: wp_return Cons.prems(4))
qed

definition pipe_session ::
    "env \<Rightarrow> AppCfg \<Rightarrow> ModesetResult \<Rightarrow> int \<Rightarrow> nat \<Rightarrow> pipe_op list \<Rightarrow> (bool \<times> bool \<times> PipelineState) io" where
  "pipe_session E cfg ms fd k ops = do {
     (r, ps) \<leftarrow> start_pipeline E cfg ms fd zero_pipeline;
     (failed, busy, ps) \<leftarrow> pipe_ops E cfg ms fd k ops ps;
     ret (r \<noteq> 0 \<or> failed, busy, ps)
   }"

text \<open>
  C6. The life of a pipeline: started, then stopped, started again, polled, recorded, and with turns of
  its appsink thread in any order, then stopped, it never releases anything twice, never uses what it
  has not got, and at the end keeps nothing but its two locks and the condition. The receiver, its
  buffers and elements of a start that fails, and the lock of a recorder that cannot open its file,
  are all that can be left behind, and only when a call has failed. The one way not to get to the end is an
  appsink thread that is inside the decoder's call.
\<close>

theorem pipeline_lifecycle:
  assumes "real_objects E"
  shows "wp own (pipe_session E cfg ms fd k ops)
     (\<lambda>(failed, busy, ps) M'. busy \<or> (ps_empty ps \<and> ps_state ps = PIPELINE_STOPPED
        \<and> (\<exists>L. leaky L \<and> (failed \<or> L = {#}) \<and> M' = M + {#Mutex PsLock, Mutex RecorderLock, Cond PsCond#} + L))) M"
    (is "wp own _ ?Q M")
proof -
  have "wp own (pipe_session E cfg ms fd k ops) ?Q (M + ps_owned zero_pipeline)"
    unfolding pipe_session_def
  proof (intro wp_bind start_pipeline_wp assms zero_empty)
    fix r :: int and ps' L
    assume start: "ps_inv ps'" "ps_initialized ps'" "leaky L"
      "r = 0 \<and> L = {#} \<and> ps_state ps' = PIPELINE_RUNNING \<or> r = -1 \<and> ps_state ps' = ps_state zero_pipeline"
    have "wp own (pipe_ops E cfg ms fd k ops ps' \<bind> (\<lambda>(failed, busy, ps). ret (r \<noteq> 0 \<or> failed, busy, ps))) ?Q
        (M + L + ps_owned ps')"
    proof (intro wp_bind pipe_ops_wp assms start(1,2))
      fix failed ps'' L'
      assume "all_stopped ps''" "leaky L'" "failed \<or> L' = {#}"
      with start(3,4) show "wp own (case (failed, False, ps'') of (failed, busy, ps) \<Rightarrow> ret (r \<noteq> 0 \<or> failed, busy, ps)) ?Q
          (M + L + ps_owned ps'' + L')"
        by (auto intro!: wp_return exI [of _ "L + L'"] simp: all_stopped_def ps_empty_owned locks_owned_def)
    qed (auto intro!: wp_return)
    then show "wp own (case (r, ps') of (r, ps) \<Rightarrow>
        pipe_ops E cfg ms fd k ops ps \<bind> (\<lambda>(failed, busy, ps). ret (r \<noteq> 0 \<or> failed, busy, ps))) ?Q
        (M + ps_owned ps' + L)" by (simp add: ac_simps)
  qed
  then show ?thesis by (simp add: zero_empty(2))
qed

section \<open>A start that succeeds\<close>

lemma wp_returns: "wp \<delta> m (\<lambda>x _. P x) s \<Longrightarrow> returns m P"
  by (auto simp: wp_def returns_def)

lemma plane_env_sys [simp]:
  "e_alloc (sys plane_env) t h = True" "e_thread_new (sys plane_env) t n = 8" "e_socket (sys plane_env) t = 9"
  "e_bind (sys plane_env) t fd port = 0"
  "e_pipeline_new (elem plane_env) t = 20" "e_element_new (elem plane_env) t k = 21" "e_caps_new (elem plane_env) t k = 22"
  "e_link (elem plane_env) t = True" "e_set_state (elem plane_env) t p st = 1"
  by (simp_all add: plane_env_def mpp_only_env_def null_env_def)

lemma plane_builds:
  "returns (build_pipeline plane_env cfg) (\<lambda>x. \<exists>p s ur. x = Some (p, s, Some ur) \<and> \<not> ur_running ur)"
  unfolding build_pipeline_def create_udp_app_source_def udp_receiver_create_def build_rest_def build_elements_def
    configure_elements_def
  by (auto intro!: returns_intros)

lemma plane_receives:
  "\<exists>ur. ps_udp_receiver ps = Some ur \<and> \<not> ur_running ur \<Longrightarrow>
   returns (start_receiver plane_env ps) (\<lambda>x. fst x \<and> ps_decoder (snd x) = ps_decoder ps)"
  unfolding start_receiver_def udp_receiver_start_def Let_def
  by (auto intro!: returns_intros)

lemma plane_plays: "returns (start_playing plane_env ps) (\<lambda>ok. ok)"
  unfolding start_playing_def by (auto intro!: returns_intros simp: GST_STATE_CHANGE_FAILURE_def GST_STATE_CHANGE_ASYNC_def)

lemma plane_opens:
  "returns (init_decoder plane_env cfg ms fd) (\<lambda>x. fst x = 0 \<and> vd_initialized (snd x) \<and> \<not> vd_running (snd x))"
proof -
  have "returns (init_decoder plane_env cfg ms fd) init_outcome"
    by (rule wp_returns [OF wp_mono [OF init_decoder_own [OF plane_env_real, of _ _ _ "{#}"]]]) simp
  then show ?thesis
    using plane_env_opens [of cfg ms fd] by (auto simp: returns_def init_outcome_def vd_idle_def)
qed

lemma plane_decodes:
  "ps_decoder ps = None \<Longrightarrow> returns (open_decoder plane_env cfg ms fd ps)
     (\<lambda>x. fst x \<and> (\<exists>vd. ps_decoder (snd x) = Some vd \<and> vd_initialized vd \<and> \<not> vd_running vd))"
  unfolding open_decoder_def video_decoder_new_def video_decoder_init_def Let_def
  by (auto intro!: returns_intros returns_mono [OF plane_opens])

lemma plane_starts_decoder:
  "\<exists>vd. ps_decoder ps = Some vd \<and> vd_initialized vd \<and> \<not> vd_running vd \<Longrightarrow> returns (start_decoder plane_env ps) fst"
  unfolding start_decoder_def video_decoder_start_def start_threads_def start_frame_def start_display_def Let_def
  by (auto intro!: returns_intros)

lemma plane_starts_threads: "returns (start_pipeline_threads plane_env ps) fst"
  unfolding start_pipeline_threads_def Let_def by (auto intro!: returns_intros)

lemma plane_runs:
  assumes "\<exists>ur. ps_udp_receiver ps = Some ur \<and> \<not> ur_running ur" and "ps_decoder ps = None"
  shows "returns (run_pipeline plane_env cfg ms fd ps) fst"
  unfolding run_pipeline_def
  by (intro returns_bind returns_mono [OF plane_receives [OF assms(1)]])
    (use assms(2) in \<open>auto intro!: returns_bind returns_ret returns_mono [OF plane_plays] returns_mono [OF plane_decodes]
       returns_mono [OF plane_starts_decoder] plane_starts_threads\<close>)

lemma plane_starts:
  assumes "ps_state ps = PIPELINE_STOPPED" and "ps_decoder ps = None"
  shows "returns (start_pipeline plane_env cfg ms fd ps) (\<lambda>x. fst x = 0)"
proof -
  have build: "returns (build_pipeline plane_env cfg \<bind> (\<lambda>b. enter_pipeline plane_env cfg ms fd b ps')) (\<lambda>x. fst x = 0)"
    if "ps_decoder ps' = None" for ps'
    using that by (intro returns_bind returns_mono [OF plane_builds])
      (auto simp: enter_pipeline_def intro!: returns_bind returns_mono [OF plane_runs] returns_ret)
  show ?thesis
    unfolding start_pipeline_def ensure_gst_initialized_def init_locks_def Let_def
    using assms by (auto intro!: returns_bind returns_ret build returns_any [where m = "io_when b m" for b m]
        simp: reset_fields_def)
qed

theorem pipeline_lifecycle_witness:
  "monitor own {#} (trace_of (pipe_session plane_env cfg_defaults small_modeset 3 5 []))
     = Some {#Mutex PsLock, Mutex RecorderLock, Cond PsCond#}"
proof -
  have "returns (pipe_session plane_env cfg_defaults small_modeset 3 5 []) (\<lambda>(failed, busy, ps). \<not> failed \<and> \<not> busy)"
    unfolding pipe_session_def
    by (auto simp: zero_pipeline_def intro!: returns_bind returns_ret returns_mono [OF plane_starts]
        returns_any [where m = "stop_pipeline E k ms ps" for E k ms ps])
  with wp_trace_of [OF pipeline_lifecycle [OF plane_env_real, of cfg_defaults small_modeset 3 5 "[]" "{#}"]]
  show ?thesis by (auto simp: returns_def split_beta)
qed
end
