(* ===== verification/Decoder_Properties.thy ===== *)
theory Decoder_Properties
  imports Decoder_Lifecycle
begin

text \<open>
  What the decoder computes: the packet copy against \<open>memcpy\<close>, the rectangle of a frame, the packets it
  hands to MPP, and the bound of the end-of-stream loop.
\<close>

section \<open>The packet copy\<close>

lemma vmove16_memcpy:
  assumes "off + 16 \<le> length src" and "off + 16 \<le> length dst"
  shows "vmove16 src off (memcpy dst src off) = memcpy dst src (off + 16)"
proof -
  have "take (off + 16) src = take off src @ take 16 (drop off src)" by (rule take_add)
  then show ?thesis using assms by (simp add: vmove16_def memcpy_def add.commute)
qed

lemma burst64_memcpy:
  "off \<le> n \<Longrightarrow> n \<le> length src \<Longrightarrow> n \<le> length dst \<Longrightarrow>
   \<exists>off'. burst64 src n off (memcpy dst src off) = (off', memcpy dst src off') \<and> off' \<le> n"
proof (induction "n - off" arbitrary: off rule: less_induct)
  case less
  show ?case
  proof (cases "off + 64 \<le> n")
    case True
    then have "burst64 src n off (memcpy dst src off) = burst64 src n (off + 64) (memcpy dst src (off + 64))"
      using less.prems vmove16_memcpy [of off] vmove16_memcpy [of "off + 16"] vmove16_memcpy [of "off + 32"]
        vmove16_memcpy [of "off + 48"]
      by (subst burst64.simps) (simp add: add.assoc)
    then show ?thesis using less.hyps [of "off + 64"] True less.prems by auto
  next
    case False
    then show ?thesis using less.prems by (subst burst64.simps) auto
  qed
qed

lemma burst16_memcpy:
  "off \<le> n \<Longrightarrow> n \<le> length src \<Longrightarrow> n \<le> length dst \<Longrightarrow>
   \<exists>off'. burst16 src n off (memcpy dst src off) = (off', memcpy dst src off') \<and> off' \<le> n"
proof (induction "n - off" arbitrary: off rule: less_induct)
  case less
  show ?case
  proof (cases "off + 16 \<le> n")
    case True
    then have "burst16 src n off (memcpy dst src off) = burst16 src n (off + 16) (memcpy dst src (off + 16))"
      using less.prems vmove16_memcpy [of off] by (subst burst16.simps) simp
    then show ?thesis using less.hyps [of "off + 16"] True less.prems by auto
  next
    case False
    then show ?thesis using less.prems by (subst burst16.simps) auto
  qed
qed

lemma memcpy_tail:
  assumes "off \<le> n" and "n \<le> length src" and "n \<le> length dst"
  shows "take off (memcpy dst src off) @ memcpy (drop off (memcpy dst src off)) (drop off src) (n - off) = memcpy dst src n"
proof -
  have "take n src = take off src @ take (n - off) (drop off src)"
    using assms(1) take_add [of off "n - off" src] by simp
  then show ?thesis using assms by (simp add: memcpy_def)
qed

lemma packet_copy_memcpy:
  assumes "n \<le> length src" and "n \<le> length dst"
  shows "copy_packet_data neon dst src n = memcpy dst src n"
proof (cases "neon \<and> 0 < n")
  case True
  have "burst64 src n 0 dst = burst64 src n 0 (memcpy dst src 0)" by (simp add: memcpy_def)
  then obtain a where a: "burst64 src n 0 dst = (a, memcpy dst src a)" "a \<le> n"
    using burst64_memcpy [of 0 n src dst] assms by auto
  obtain b where b: "burst16 src n a (memcpy dst src a) = (b, memcpy dst src b)" "b \<le> n"
    using burst16_memcpy [of a n src dst] a assms by auto
  show ?thesis
    using True a b memcpy_tail [OF b(2) assms] by (auto simp: copy_packet_data_def)
next
  case False
  then show ?thesis by (auto simp: copy_packet_data_def memcpy_def)
qed

text \<open>
  C27. The packet copy is \<open>memcpy\<close> in both builds: the NEON bursts of 64 and 16 bytes with the tail copy
  give the same buffer, for every length that fits.
\<close>

theorem copy_packet_data_memcpy:
  assumes "n \<le> length src" and "n \<le> length dst"
  shows "copy_packet_data neon dst src n = memcpy dst src n"
  using packet_copy_memcpy [OF assms] .

theorem copy_packet_data_memcpy_witness:
  "copy_packet_data True (replicate 90 0) (map of_nat [0..<85]) 85 = memcpy (replicate 90 0) (map of_nat [0..<85]) 85"
  by (rule copy_packet_data_memcpy) simp_all

section \<open>The rectangle\<close>

lemma fit_frame_bounds:
  assumes "fit_frame mw mh sw sh = (w, h)"
  shows "w \<le> word_of_int mw \<and> h \<le> word_of_int mh \<and> (w = word_of_int mw \<or> h = word_of_int mh)"
  using assms by (auto simp: fit_frame_def Let_def split: if_splits)

lemma centre_uint:
  assumes "0 < m" and "m < 2 ^ 31" and "w \<le> word_of_int m"
  shows "uint (centre m w) = (m - uint w) div 2"
proof -
  have m: "uint (word_of_int m :: u32) = m" using assms(1,2) by (simp add: uint_word_of_int_eq take_bit_int_eq_self)
  have "uint w \<le> m" using assms(3) m by (simp add: word_le_def)
  then show ?thesis
    unfolding centre_def using m assms(3) by (auto simp: word_less_def uint_div uint_sub_if' )
qed

text \<open>
  C26. For any screen of a positive size and any source size, the rectangle a frame is shown in is not
  empty, lies inside the screen, touches two opposite sides of it, and is centred.
\<close>

theorem frame_rect_inside:
  assumes "0 < mw" and "mw < 2 ^ 31" and "0 < mh" and "mh < 2 ^ 31"
    and "frame_rect mw mh sw sh = (x, y, w, h)"
  shows "1 \<le> uint w \<and> uint w \<le> mw \<and> 1 \<le> uint h \<and> uint h \<le> mh \<and> (uint w = mw \<or> uint h = mh)
     \<and> uint x = (mw - uint w) div 2 \<and> uint y = (mh - uint h) div 2"
proof -
  obtain w0 h0 where fit: "fit_frame mw mh sw sh = (w0, h0)" by (cases "fit_frame mw mh sw sh")
  have ms: "uint (word_of_int mw :: u32) = mw" "uint (word_of_int mh :: u32) = mh"
    using assms(1-4) by (simp_all add: uint_word_of_int_eq take_bit_int_eq_self)
  have w: "w = (if w0 = 0 then 1 else w0)" and h: "h = (if h0 = 0 then 1 else h0)"
    and xy: "x = centre mw w" "y = centre mh h"
    using assms(5) fit by (auto simp: frame_rect_def Let_def)
  have pos: "1 \<le> uint v" if "v \<noteq> 0" for v :: u32
    using that uint_nonnegative [of v] by (metis int_one_le_iff_zero_less order_less_le unsigned_0 word_uint_eqI)
  have one: "(1 :: u32) \<le> word_of_int mw" "(1 :: u32) \<le> word_of_int mh"
    using assms(1,3) by (simp_all add: word_le_def ms)
  have le: "w \<le> word_of_int mw" "h \<le> word_of_int mh" and side: "w = word_of_int mw \<or> h = word_of_int mh"
    using fit_frame_bounds [OF fit] one w h by (auto split: if_splits)
  have "1 \<le> uint w" "1 \<le> uint h" using w h by (auto intro: pos)
  then show ?thesis
    using le side ms xy centre_uint [OF assms(1,2) le(1)] centre_uint [OF assms(3,4) le(2)] by (auto simp: word_le_def)
qed

theorem frame_rect_inside_witness:
  "\<exists>x y w h. frame_rect 1920 1080 640 480 = (x, y, w, h) \<and> uint w \<le> 1920 \<and> uint x = (1920 - uint w) div 2"
proof -
  obtain x y w h where r: "frame_rect 1920 1080 640 480 = (x, y, w, h)" by (metis surj_pair)
  from frame_rect_inside [OF _ _ _ _ this] have "uint w \<le> 1920 \<and> uint x = (1920 - uint w) div 2" by simp
  with r show ?thesis by blast
qed

section \<open>Feeding\<close>

text \<open>
  What a packet holds after a trace of calls, from its latest setters: the data up to the length, and
  the timestamp. \<open>accepted\<close> lists, newest first, what MPP took.
\<close>

fun packet_length :: "ptr \<Rightarrow> trace \<Rightarrow> nat" where
  "packet_length p [] = 0"
| "packet_length p (e # t) = (case e of Mpp (EvPacketSet q (PkLength n)) \<Rightarrow> if q = p then n else packet_length p t
     | _ \<Rightarrow> packet_length p t)"

fun packet_data :: "ptr \<Rightarrow> trace \<Rightarrow> u8 list" where
  "packet_data p [] = []"
| "packet_data p (e # t) = (case e of Mpp (EvPacketSet q (PkData b)) \<Rightarrow> if q = p then b else packet_data p t
     | _ \<Rightarrow> packet_data p t)"

fun packet_pts :: "ptr \<Rightarrow> trace \<Rightarrow> u64" where
  "packet_pts p [] = 0"
| "packet_pts p (e # t) = (case e of Mpp (EvPacketSet q (PkPts v)) \<Rightarrow> if q = p then v else packet_pts p t
     | _ \<Rightarrow> packet_pts p t)"

definition packet_view :: "ptr \<Rightarrow> trace \<Rightarrow> u8 list \<times> u64" where
  "packet_view p t = (take (packet_length p t) (packet_data p t), packet_pts p t)"

fun accepted :: "ptr \<Rightarrow> trace \<Rightarrow> (u8 list \<times> u64) list" where
  "accepted p [] = []"
| "accepted p (e # t) = (case e of Mpp (EvPutPacket c q r) \<Rightarrow> if q = p \<and> r = 0 then packet_view p t # accepted p t
     else accepted p t | _ \<Rightarrow> accepted p t)"

lemma packet_view_other [simp]:
  "packet_view p (Mpp (EvSleep us) # t) = packet_view p t" "packet_view p (Mpp (EvPutPacket c q r) # t) = packet_view p t"
  by (simp_all add: packet_view_def)

lemma feed_loop_accepted:
  assumes "run_state (feed_loop E n vd) t = (r, t')"
  shows "accepted (vd_packet vd) t' = (if r = Some 0 then [packet_view (vd_packet vd) t] else []) @ accepted (vd_packet vd) t"
    and "r \<in> {None, Some 0, Some (-1)}"
  using assms by (induction n arbitrary: t) (auto split: if_splits)

lemma take_copied:
  assumes "length bytes \<le> length dst"
  shows "take (length bytes) (copy_packet_data neon dst bytes (length bytes)) = bytes"
  using assms packet_copy_memcpy [of "length bytes" bytes dst neon] by simp

lemma pts_run:
  "\<exists>ts. run_state (gst_pts_to_mpp_timestamp E pts) t = (ts, t)
     \<and> (pts \<noteq> GST_CLOCK_TIME_NONE \<longrightarrow> ts = gst_util_uint64_scale E pts 1 GST_MSECOND)"
  by (cases "pts = GST_CLOCK_TIME_NONE") (simp_all add: gst_pts_to_mpp_timestamp_def get_time_ms_def split_beta)

lemma feed_outcome:
  assumes "run_state (feed E neon n vd bytes pts) t = ((r, vd'), t')"
    and "vd_packet_buf vd = Some dst" and "length dst = vd_packet_buf_size vd"
  shows "\<exists>ts. (pts \<noteq> GST_CLOCK_TIME_NONE \<longrightarrow> ts = gst_util_uint64_scale E pts 1 GST_MSECOND)
      \<and> accepted (vd_packet vd) t' = (if r = Some 0 then [(bytes, ts)] else []) @ accepted (vd_packet vd) t
      \<and> (r = Some 0 \<longrightarrow> vd_running vd \<and> bytes \<noteq> [] \<and> length bytes \<le> vd_packet_buf_size vd)
      \<and> (\<not> vd_running vd \<or> bytes = [] \<or> vd_packet_buf_size vd < length bytes \<longrightarrow> r = Some (-1) \<and> t' = t)"
proof (cases "vd_running vd \<and> bytes \<noteq> [] \<and> length bytes \<le> vd_packet_buf_size vd")
  case False
  then show ?thesis using assms(1) by (auto simp: feed_def split: if_splits)
next
  case True
  define buf where "buf = copy_packet_data neon dst bytes (length bytes)"
  let ?vd = "vd\<lparr>vd_packet_buf := Some buf\<rparr>"
  obtain t0 where load: "run_state (load_packet ?vd) t = ((), t0)" "packet_data (vd_packet vd) t0 = buf"
    "accepted (vd_packet vd) t0 = accepted (vd_packet vd) t"
    by (simp add: load_packet_def)
  let ?t1 = "Mpp (EvPacketSet (vd_packet vd) (PkLength (length bytes))) # t0"
  obtain ts where ts: "run_state (gst_pts_to_mpp_timestamp E pts) ?t1 = (ts, ?t1)"
    "pts \<noteq> GST_CLOCK_TIME_NONE \<longrightarrow> ts = gst_util_uint64_scale E pts 1 GST_MSECOND"
    using pts_run by blast
  let ?t2 = "Mpp (EvPacketSet (vd_packet vd) (PkDts ts)) # Mpp (EvPacketSet (vd_packet vd) (PkPts ts)) # ?t1"
  have cond: "\<not> (\<not> vd_running vd)" "\<not> (bytes = [] \<or> vd_packet_buf_size vd < length bytes)" using True by auto
  obtain r' t'' where loop: "run_state (feed_loop E n ?vd) ?t2 = (r', t'')" by (metis surj_pair)
  have "((r, vd'), t') = ((r', ?vd), t'')"
    using assms(1) unfolding feed_def if_not_P [OF cond(1)] if_not_P [OF cond(2)] Let_def assms(2) option.map
    by (simp add: buf_def [symmetric] load(1) ts(1) loop)
  moreover have "packet_view (vd_packet vd) ?t2 = (bytes, ts)"
    using take_copied [of bytes dst neon] True assms(3) load(2) by (simp add: packet_view_def buf_def)
  moreover have "accepted (vd_packet vd) ?t2 = accepted (vd_packet vd) t"
    using load(3) by simp
  ultimately show ?thesis
    using feed_loop_accepted(1) [OF loop] True ts(2) by auto
qed

lemma feed_taken:
  assumes "run_state (feed E neon n vd bytes pts) t = ((Some r, vd'), t')" and "\<forall>t. e_vd_running (mpp E) t"
    and "vd_running vd" and "bytes \<noteq> []" and "length bytes \<le> vd_packet_buf_size vd"
  shows "r = 0"
proof -
  have loop: "returns (feed_loop E n v) (\<lambda>r. r = None \<or> r = Some 0)" if "vd_running v" for v
    using that assms(2) by (induction n) (auto intro!: returns_intros)
  have "returns (feed E neon n vd bytes pts) (\<lambda>x. fst x = None \<or> fst x = Some 0)"
    unfolding feed_def load_packet_def gst_pts_to_mpp_timestamp_def get_time_ms_def Let_def
    using assms(3-5) by (auto intro!: returns_intros returns_mono [OF loop])
  then have "fst (fst (run_state (feed E neon n vd bytes pts) t)) \<in> {None, Some 0}" by (auto simp: returns_def)
  then show ?thesis using assms(1) by simp
qed

text \<open>
  C21. \<open>video\_decoder\_feed\<close> hands the bytes over exactly once or not at all: when it returns 0, MPP has
  accepted one more packet, which holds exactly the given bytes with their timestamp in milliseconds;
  in every other case it has accepted nothing; and a stopped decoder, an empty packet or one that is
  too large is refused with -1.
\<close>

theorem feed_hands_over:
  assumes "run_state (feed E neon n vd bytes pts) t = ((r, vd'), t')"
    and "vd_packet_buf vd = Some dst" and "length dst = vd_packet_buf_size vd"
  shows "\<exists>ts. (pts \<noteq> GST_CLOCK_TIME_NONE \<longrightarrow> ts = gst_util_uint64_scale E pts 1 GST_MSECOND)
      \<and> accepted (vd_packet vd) t' = (if r = Some 0 then [(bytes, ts)] else []) @ accepted (vd_packet vd) t
      \<and> (r = Some 0 \<longrightarrow> vd_running vd \<and> bytes \<noteq> [] \<and> length bytes \<le> vd_packet_buf_size vd)
      \<and> (\<not> vd_running vd \<or> bytes = [] \<or> vd_packet_buf_size vd < length bytes \<longrightarrow> r = Some (-1) \<and> t' = t)"
  using feed_outcome [OF assms] .

text \<open>An MPP that takes every packet, and a decoder with eight bytes of packet buffer.\<close>

definition taking_env :: env where
  "taking_env = null_env\<lparr>mpp := (mpp null_env)\<lparr>e_put_packet := \<lambda>_. 0, e_vd_running := \<lambda>_. True\<rparr>\<rparr>"

definition small_decoder :: VideoDecoder where
  "small_decoder = zero_decoder\<lparr>vd_running := True, vd_packet := 5, vd_packet_buf := Some (replicate 8 0),
     vd_packet_buf_size := 8\<rparr>"

theorem feed_hands_over_witness:
  "\<exists>ts. accepted 5 (trace_of (feed taking_env True 1 small_decoder [1, 2, 3] 7)) = [([1, 2, 3], ts)]"
proof -
  obtain r vd' t' where run: "run_state (feed taking_env True 1 small_decoder [1, 2, 3] 7) [] = ((r, vd'), t')"
    by (metis surj_pair)
  then have "r = Some 0"
    by (auto simp: feed_def small_decoder_def zero_decoder_def taking_env_def null_env_def load_packet_def
        gst_pts_to_mpp_timestamp_def GST_CLOCK_TIME_NONE_def Let_def)
  with feed_hands_over [OF run, of "replicate 8 0"] run show ?thesis
    by (auto simp: small_decoder_def trace_of_def)
qed

section \<open>The end of the stream\<close>

definition is_put :: "event \<Rightarrow> bool" where
  "is_put e = (case e of Mpp (EvPutPacket _ _ _) \<Rightarrow> True | _ \<Rightarrow> False)"

definition puts :: "trace \<Rightarrow> nat" where
  "puts t = length (filter is_put t)"

lemma eos_loop_bounded:
  assumes "run_state (eos_loop E vd n) t = ((), t')" and "n \<le> 50"
  shows "puts t' \<le> puts t + (51 - n)
     \<and> (vd_mpi vd \<noteq> 0 \<and> vd_ctx vd \<noteq> 0 \<and> puts t' < puts t + (51 - n) \<longrightarrow>
          length (accepted (vd_packet vd) t') = Suc (length (accepted (vd_packet vd) t)))"
  using assms
proof (induction E vd n arbitrary: t rule: eos_loop.induct)
  case (1 E vd n)
  let ?t = "Mpp (EvSleep 2000) # Mpp (EvPutPacket (vd_ctx vd) (vd_packet vd) (e_put_packet (mpp E) t)) # t"
  show ?case
  proof (cases "vd_mpi vd \<noteq> 0 \<and> vd_ctx vd \<noteq> 0 \<and> e_put_packet (mpp E) t \<noteq> 0 \<and> Suc n \<le> 50")
    case True
    then have "run_state (eos_loop E vd (Suc n)) ?t = ((), t')"
      using 1(2) by (subst (asm) eos_loop.simps) (simp add: split_beta)
    from 1(1) [of "e_put_packet (mpp E) t", OF _ _ _ this] True
    have "puts t' \<le> puts ?t + (51 - Suc n) \<and> (puts t' < puts ?t + (51 - Suc n) \<longrightarrow>
        length (accepted (vd_packet vd) t') = Suc (length (accepted (vd_packet vd) ?t)))" by simp
    moreover have "puts ?t + (51 - Suc n) = puts t + (51 - n)" using True
      by (simp add: puts_def is_put_def del: diff_Suc_Suc) linarith
    ultimately show ?thesis using True by simp
  next
    case False
    then show ?thesis
      using 1(2,3) by (subst (asm) eos_loop.simps) (auto simp: puts_def is_put_def split_beta split: if_splits)
  qed
qed

text \<open>
  C32. Sending the end of the stream ends: the packet is offered to MPP at most 51 times, and with
  fewer attempts than that it has been accepted.
\<close>

theorem send_eos_bounded:
  assumes "run_state (send_eos E vd) t = ((), t')"
  shows "puts t' \<le> puts t + 51
     \<and> (vd_packet vd \<noteq> 0 \<and> vd_mpi vd \<noteq> 0 \<and> vd_ctx vd \<noteq> 0 \<and> puts t' < puts t + 51 \<longrightarrow>
          length (accepted (vd_packet vd) t') = Suc (length (accepted (vd_packet vd) t)))"
proof (cases "vd_packet vd = 0")
  case False
  let ?t = "Mpp (EvPacketSet (vd_packet vd) PkEos) # snd (run_state (load_packet vd) t)"
  have "run_state (eos_loop E vd 0) ?t = ((), t')"
    using assms False by (simp add: send_eos_def split_beta)
  from eos_loop_bounded [OF this] show ?thesis
    by (simp add: load_packet_def puts_def is_put_def)
qed (use assms in \<open>simp add: send_eos_def\<close>)

theorem send_eos_bounded_witness:
  "puts (trace_of (send_eos null_env (small_decoder\<lparr>vd_mpi := 3, vd_ctx := 4\<rparr>))) \<le> 51"
proof -
  have "run_state (send_eos null_env (small_decoder\<lparr>vd_mpi := 3, vd_ctx := 4\<rparr>)) []
      = ((), trace_of (send_eos null_env (small_decoder\<lparr>vd_mpi := 3, vd_ctx := 4\<rparr>)))"
    by (simp add: trace_of_def prod_eq_iff)
  from send_eos_bounded [OF this] show ?thesis by (simp add: puts_def)
qed

section \<open>Showing a frame\<close>

lemma add_props_run:
  "run_state (add_props req obj ps) t = ((), rev (map (\<lambda>(p, v). Drm (EvAtomicAdd req obj p v)) ps) @ t)"
  by (induction ps arbitrary: t) (auto simp: split_beta)

lemma commit_or_retry_commits:
  "\<exists>a es. snd (run_state (commit_or_retry E fd req flags again) t) = es @ Drm (EvAtomicCommit fd req flags a) # t"
  by (auto simp: commit_or_retry_def split_beta)

lemma source_size_keeps:
  "source_size vd w h = (w', h', vd') \<Longrightarrow> vd_props vd' = vd_props vd \<and> vd_plane_id vd' = vd_plane_id vd
     \<and> vd_crtc_id vd' = vd_crtc_id vd \<and> vd_drm_fd vd' = vd_drm_fd vd \<and> vd_pending_fb vd' = vd_pending_fb vd"
  by (auto simp: source_size_def Let_def split: if_splits)

lemma commit_plane_run:
  assumes "vd_props vd = fb_prop # crtc_prop # props" and "run_state (commit_plane E vd fb w h) t = ((r, vd'), t')"
  shows "vd_pending_fb vd' = vd_pending_fb vd \<and> set t \<subseteq> set t'
     \<and> (\<exists>req. Drm (EvAtomicAlloc req) \<in> set t' \<and> (req \<noteq> 0 \<longrightarrow>
          Drm (EvAtomicAdd req (vd_plane_id vd) fb_prop (ucast fb)) \<in> set t'
        \<and> Drm (EvAtomicAdd req (vd_plane_id vd) crtc_prop (ucast (vd_crtc_id vd))) \<in> set t'
        \<and> (\<exists>a. Drm (EvAtomicCommit (vd_drm_fd vd) req DRM_MODE_ATOMIC_NONBLOCK a) \<in> set t')))"
proof (cases "e_atomic_alloc (drm E) t = 0")
  case True
  then show ?thesis using assms(2) by (auto simp: commit_plane_def intro: exI [of _ 0])
next
  case False
  let ?req = "e_atomic_alloc (drm E) t"
  obtain w' h' vd1 where size: "source_size vd w h = (w', h', vd1)" by (cases "source_size vd w h")
  note keeps = source_size_keeps [OF size]
  obtain x y cw ch where rect: "frame_rect (vd_mode_w vd1) (vd_mode_h vd1) w' h' = (x, y, cw, ch)" by (metis surj_pair)
  let ?ps = "zip (vd_props vd1) (plane_values fb (vd_crtc_id vd1) (x, y, cw, ch) w' h')"
  let ?t = "rev (map (\<lambda>(p, v). Drm (EvAtomicAdd ?req (vd_plane_id vd1) p v)) ?ps) @ Drm (EvAtomicAlloc ?req) # t"
  obtain r1 t1 where commit: "run_state (commit_or_retry E (vd_drm_fd vd1) ?req DRM_MODE_ATOMIC_NONBLOCK 0) ?t = (r1, t1)"
    by (metis surj_pair)
  obtain a es where es: "t1 = es @ Drm (EvAtomicCommit (vd_drm_fd vd1) ?req DRM_MODE_ATOMIC_NONBLOCK a) # ?t"
    using commit_or_retry_commits [of E "vd_drm_fd vd1" ?req DRM_MODE_ATOMIC_NONBLOCK 0 ?t] commit by auto
  have "vd' = vd1 \<and> t' = Drm (EvAtomicFree ?req) # t1"
    using assms(2) False size rect commit by (simp add: commit_plane_def add_props_run)
  then show ?thesis
    using es keeps assms(1) False
    by (intro conjI exI [of _ ?req] impI exI [of _ a]) (auto simp: plane_values_def)
qed

text \<open>
  C31. A pending frame is shown at the display thread's next look: it does not wait, takes the frame,
  and - unless there is no memory for a request - commits a request that puts the frame's buffer and
  the CRTC on the plane.
\<close>

theorem display_shows_pending:
  assumes "run_state (display_step E vd) t = ((n, vd'), t')" and "vd_pending_fb vd \<noteq> 0"
    and "vd_props vd = fb_prop # crtc_prop # props"
  shows "n \<noteq> Waiting \<and> vd_pending_fb vd' = 0
     \<and> (\<exists>req. Drm (EvAtomicAlloc req) \<in> set t' \<and> (req \<noteq> 0 \<longrightarrow>
          Drm (EvAtomicAdd req (vd_plane_id vd) fb_prop (ucast (vd_pending_fb vd))) \<in> set t'
        \<and> Drm (EvAtomicAdd req (vd_plane_id vd) crtc_prop (ucast (vd_crtc_id vd))) \<in> set t'
        \<and> (\<exists>a. Drm (EvAtomicCommit (vd_drm_fd vd) req DRM_MODE_ATOMIC_NONBLOCK a) \<in> set t')))"
proof -
  let ?t = "Sys (EvUnlock VdLock) # Sys (EvLock VdLock) # t"
  obtain r vd1 t1 where c: "run_state (commit_plane E (vd\<lparr>vd_pending_fb := 0\<rparr>) (vd_pending_fb vd) 0 0) ?t = ((r, vd1), t1)"
    by (metis surj_pair)
  have "vd_props (vd\<lparr>vd_pending_fb := 0\<rparr>) = fb_prop # crtc_prop # props" using assms(3) by simp
  note run = commit_plane_run [OF this c]
  have "n \<noteq> Waiting \<and> t' = t1 \<and> vd_pending_fb vd' = vd_pending_fb vd1"
    using assms(1,2) c by (auto simp: display_step_def Let_def split: if_splits)
  then show ?thesis using run by auto
qed

definition lit_decoder :: VideoDecoder where
  "lit_decoder = small_decoder\<lparr>vd_pending_fb := 42, vd_props := [1, 2, 3, 4, 5, 6, 7, 8, 9, 10], vd_plane_id := 31\<rparr>"

theorem display_shows_pending_witness:
  "\<exists>n vd' t'. run_state (display_step null_env lit_decoder) [] = ((n, vd'), t') \<and> n \<noteq> Waiting \<and> vd_pending_fb vd' = 0"
proof -
  obtain n vd' t' where run: "run_state (display_step null_env lit_decoder) [] = ((n, vd'), t')" by (metis surj_pair)
  from display_shows_pending [OF run] run show ?thesis by (simp add: lit_decoder_def)
qed

end
