(* ===== verification/Pipeline_Feed.thy ===== *)
theory Pipeline_Feed
  imports Pipeline_Own Decoder_Properties
begin

text \<open>
  What the appsink thread does with a sample, and what the bus thread makes of its messages.
\<close>

section \<open>The recorder gives MPP nothing\<close>

definition silent :: "ptr \<Rightarrow> 'a io \<Rightarrow> bool" where
  "silent p m \<longleftrightarrow> (\<forall>t. accepted p (snd (run_state m t)) = accepted p t)"

lemma silentD: "silent p m \<Longrightarrow> run_state m t = (x, t') \<Longrightarrow> accepted p t' = accepted p t"
  by (metis silent_def snd_conv)

named_theorems silent_intros \<open>the constructs and functions that give MPP nothing\<close>

lemma silent_ret [silent_intros]: "silent p (ret x)"
  by (simp add: silent_def)

lemma silent_ask [silent_intros]: "silent p (ask a)"
  by (simp add: silent_def)

lemma silent_bind [silent_intros]: "silent p m \<Longrightarrow> (\<And>x. silent p (f x)) \<Longrightarrow> silent p (m \<bind> f)"
  by (simp add: silent_def split_beta)

lemma silent_if [silent_intros]:
  "(b \<Longrightarrow> silent p m) \<Longrightarrow> (\<not> b \<Longrightarrow> silent p n) \<Longrightarrow> silent p (if b then m else n)"
  by simp

lemma silent_when [silent_intros]: "silent p m \<Longrightarrow> silent p (io_when b m)"
  by (simp add: silent_def io_when_def)

lemma silent_case_option [silent_intros]:
  "silent p m \<Longrightarrow> (\<And>y. silent p (f y)) \<Longrightarrow> silent p (case opt of None \<Rightarrow> m | Some y \<Rightarrow> f y)"
  by (cases opt) auto

lemma silent_case_prod [silent_intros]: "(\<And>a b. silent p (f a b)) \<Longrightarrow> silent p (case xy of (a, b) \<Rightarrow> f a b)"
  by (cases xy) auto

lemma silent_ext [silent_intros]: "(\<And>x. \<not> (\<exists>e. ev x = Mpp e)) \<Longrightarrow> silent p (ext answer ev)"
  by (auto simp: silent_def split: event.split)

lemma silent_emit [silent_intros]: "\<not> (\<exists>e'. e = Mpp e') \<Longrightarrow> silent p (emit e)"
  by (auto simp: silent_def split: event.split)

lemma silent_mux [silent_intros]: "silent p (run_mux E run rec)"
proof (induction run arbitrary: rec)
  case (MuxWrite off buffer k)
  then show ?case
    unfolding mux_calls.simps recorder_write_callback_def Let_def by (intro silent_intros) auto
qed (simp add: silent_intros)

lemma silent_handle_sample [silent_intros]: "silent p (video_recorder_handle_sample E r sample buffer bytes)"
  unfolding video_recorder_handle_sample_def handle_sample_def ensure_writer_initialized_def queue_sample_def
    sample_times_def emit_pending_def pending_reset_def pending_buffer_def Let_def
  by (intro silent_intros) auto

section \<open>One turn of the appsink thread\<close>

text \<open>The bytes that the turn's sample shows, when there is a sample with a buffer that can be mapped.\<close>

definition turn_bytes :: "env \<Rightarrow> PipelineState \<Rightarrow> trace \<Rightarrow> u8 list option" where
  "turn_bytes E ps t =
     (let t1 = Sys (EvUnlock PsLock) # Sys (EvLock PsLock) # t;
          s = e_pull_sample (elem E) t1
      in if fst s = 0 \<or> snd s = 0 then None
         else e_buffer_map (gst E) (Elem (EvPullSample (ps_appsink ps) (100 * GST_MSECOND) s) # t1) (snd s))"

definition turn_time :: "env \<Rightarrow> PipelineState \<Rightarrow> trace \<Rightarrow> u64" where
  "turn_time E ps t =
     (let t1 = Sys (EvUnlock PsLock) # Sys (EvLock PsLock) # t;
          s = e_pull_sample (elem E) t1;
          t2 = Elem (EvPullSample (ps_appsink ps) (100 * GST_MSECOND) s) # t1;
          pts = e_buffer_pts (elem E) t2 (snd s)
      in if pts = GST_CLOCK_TIME_NONE then e_buffer_dts (elem E) t2 (snd s) else pts)"

text \<open>What a turn may hand to MPP, and when it must.\<close>

definition handed :: "env \<Rightarrow> VideoDecoder \<Rightarrow> u8 list \<Rightarrow> u64 \<Rightarrow> bool \<Rightarrow> trace \<Rightarrow> trace \<Rightarrow> bool" where
  "handed E vd bytes time back t t' \<longleftrightarrow>
     (\<exists>ts. accepted (vd_packet vd) t' = (bytes, ts) # accepted (vd_packet vd) t \<and> back \<and> vd_running vd
        \<and> (time \<noteq> GST_CLOCK_TIME_NONE \<longrightarrow> ts = gst_util_uint64_scale E time 1 GST_MSECOND))"

definition must_take :: "env \<Rightarrow> VideoDecoder \<Rightarrow> u8 list \<Rightarrow> bool" where
  "must_take E vd bytes \<longleftrightarrow> (\<forall>t. e_vd_running (mpp E) t) \<and> vd_running vd \<and> length bytes \<le> vd_packet_buf_size vd"

definition fed :: "env \<Rightarrow> VideoDecoder \<Rightarrow> u8 list option \<Rightarrow> u64 \<Rightarrow> nat \<Rightarrow> bool \<Rightarrow> trace \<Rightarrow> trace \<Rightarrow> bool" where
  "fed E vd shown time max_packet back t t' \<longleftrightarrow>
     (case shown of
        None \<Rightarrow> back \<and> accepted (vd_packet vd) t' = accepted (vd_packet vd) t
      | Some bytes \<Rightarrow>
          (if 0 < length bytes \<and> length bytes \<le> max_packet
           then handed E vd bytes time back t t'
             \<or> accepted (vd_packet vd) t' = accepted (vd_packet vd) t \<and> \<not> (back \<and> must_take E vd bytes)
           else back \<and> accepted (vd_packet vd) t' = accepted (vd_packet vd) t))"

lemma fed_accepted:
  assumes "accepted (vd_packet vd) t = accepted (vd_packet vd) u" and "accepted (vd_packet vd) t' = accepted (vd_packet vd) u'"
  shows "fed E vd shown time max_packet back t t' = fed E vd shown time max_packet back u u'"
  using assms by (simp add: fed_def handed_def split: option.split)

lemma feed_bytes_fed:
  assumes "run_state (feed_bytes E neon n sample buffer bytes time ps) t = ((back, ps'), t')"
    and "ps_decoder ps = Some vd" and "vd_packet_buf vd = Some dst" and "length dst = vd_packet_buf_size vd"
    and "bytes \<noteq> []"
  shows "handed E vd bytes time back t t'
    \<or> accepted (vd_packet vd) t' = accepted (vd_packet vd) t \<and> \<not> (back \<and> must_take E vd bytes)"
proof -
  let ?t1 = "Sys (EvLock RecorderLock) # t"
  obtain rec t2 where rec: "run_state (video_recorder_handle_sample E (ps_recorder ps) sample buffer (Some bytes)) ?t1 = (rec, t2)"
    by (metis surj_pair)
  let ?t3 = "Sys (EvUnlock RecorderLock) # t2"
  obtain r vd' t4 where feed: "run_state (feed E neon n vd bytes time) ?t3 = ((r, vd'), t4)"
    by (metis surj_pair)
  have run: "back = (r \<noteq> None)" "t' = t4"
    using assms(1,2) rec feed unfolding feed_bytes_def Let_def video_decoder_feed_def by auto
  have same: "accepted (vd_packet vd) ?t3 = accepted (vd_packet vd) t"
    using silentD [OF silent_handle_sample rec] by simp
  from feed_outcome [OF feed assms(3,4)] obtain ts where
    ts: "time \<noteq> GST_CLOCK_TIME_NONE \<longrightarrow> ts = gst_util_uint64_scale E time 1 GST_MSECOND"
    "accepted (vd_packet vd) t4 = (if r = Some 0 then [(bytes, ts)] else []) @ accepted (vd_packet vd) ?t3"
    "r = Some 0 \<longrightarrow> vd_running vd" by blast
  show ?thesis
  proof (cases "r = Some 0")
    case True
    then show ?thesis using ts run same by (auto simp: handed_def)
  next
    case False
    have "\<not> (back \<and> must_take E vd bytes)"
    proof
      assume "back \<and> must_take E vd bytes"
      then show False
        using run(1) feed False feed_taken [of E neon n vd bytes time ?t3] assms(5) by (auto simp: must_take_def)
    qed
    then show ?thesis using False ts run same by auto
  qed
qed

lemma handle_buffer_fed:
  assumes "run_state (handle_buffer E neon n max_packet sample buffer ps) t = ((back, ps'), t')"
    and "ps_decoder ps = Some vd" and "vd_packet_buf vd = Some dst" and "length dst = vd_packet_buf_size vd"
  shows "fed E vd (e_buffer_map (gst E) t buffer)
      (let pts = e_buffer_pts (elem E) t buffer in if pts = GST_CLOCK_TIME_NONE then e_buffer_dts (elem E) t buffer else pts)
      max_packet back t t'"
    (is "fed E vd _ ?time max_packet back t t'")
proof -
  have time: "run_state (buffer_time E buffer) t = (?time, t)" by (simp add: buffer_time_def Let_def)
  show ?thesis
  proof (cases "e_buffer_map (gst E) t buffer")
    case None
    then show ?thesis using assms(1) time unfolding handle_buffer_def by (auto simp: fed_def)
  next
    case (Some bytes)
    let ?t1 = "Gst (EvBufferMap buffer (Some bytes)) # t"
    show ?thesis
    proof (cases "0 < length bytes \<and> length bytes \<le> max_packet")
      case True
      obtain b ps1 t2 where fb: "run_state (feed_bytes E neon n sample buffer bytes ?time ps) ?t1 = ((b, ps1), t2)"
        by (metis surj_pair)
      have "back = b" "accepted (vd_packet vd) t' = accepted (vd_packet vd) t2"
        using assms(1) True Some fb time unfolding handle_buffer_def by (cases b; simp add: io_when_def; auto)+
      then show ?thesis
        using feed_bytes_fed [OF fb assms(2-4)] True Some by (auto simp: fed_def handed_def)
    next
      case False
      then show ?thesis
        using assms(1) Some time unfolding handle_buffer_def by (auto simp: fed_def io_when_def)
    qed
  qed
qed


text \<open>A sample of three bytes for the decoder with eight bytes of packet buffer.\<close>

definition sample_env :: env where
  "sample_env = taking_env\<lparr>elem := (elem taking_env)\<lparr>e_pull_sample := \<lambda>_. (31, 32)\<rparr>,
     gst := (gst taking_env)\<lparr>e_buffer_map := \<lambda>_ _. Some [1, 2, 3]\<rparr>\<rparr>"

definition decoding_pipeline :: PipelineState where
  "decoding_pipeline = zero_pipeline\<lparr>ps_decoder := Some small_decoder, ps_decoder_running := True\<rparr>"


section \<open>The bus thread\<close>

text \<open>The types of the messages taken from a bus, in the order they were taken.\<close>

fun popped :: "trace \<Rightarrow> int list" where
  "popped [] = []"
| "popped (e # t) = popped t @ (case e of Elem (EvBusPop b _ msg ty) \<Rightarrow> if msg = 0 then [] else [ty] | _ \<Rightarrow> [])"

definition ends_bus :: "int \<Rightarrow> bool" where
  "ends_bus ty \<longleftrightarrow> ty = GST_MESSAGE_ERROR \<or> ty = GST_MESSAGE_EOS"

definition after_messages :: "int list \<Rightarrow> PipelineState \<Rightarrow> PipelineState" where
  "after_messages tys ps = ps\<lparr>ps_encountered_error := ps_encountered_error ps \<or> GST_MESSAGE_ERROR \<in> set tys,
     ps_stop_requested := ps_stop_requested ps \<or> (\<exists>ty\<in>set tys. ends_bus ty)\<rparr>"

lemma after_messages_simps:
  "after_messages [] ps = ps"
  "\<not> ends_bus ty \<Longrightarrow> after_messages (ty # tys) ps = after_messages tys ps"
  by (auto simp: after_messages_def ends_bus_def)

lemma bus_turn_messages:
  assumes "run_state (bus_turn E bus ps) t = ((running, ps'), t')"
  shows "\<exists>new. popped t' = popped t @ new \<and> ps' = after_messages new ps \<and> length new \<le> 1
    \<and> (running \<longrightarrow> \<not> (\<exists>ty\<in>set new. ends_bus ty)) \<and> (\<not> running \<longrightarrow> new = [] \<or> (\<exists>ty\<in>set new. ends_bus ty))"
proof -
  obtain msg ty where pop: "e_bus_pop (elem E) t = (msg, ty)" by (metis surj_pair)
  show ?thesis
    using assms unfolding bus_turn_def handle_message_def Let_def
    by (intro exI [of _ "if msg = 0 then [] else [ty]"])
      (auto simp: pop after_messages_def ends_bus_def GST_MESSAGE_ERROR_def GST_MESSAGE_EOS_def split: if_splits)
qed

lemma bus_loop_messages:
  assumes "run_state (bus_loop E bus k ps) t = ((ended, ps'), t')"
  shows "\<exists>new. popped t' = popped t @ new \<and> ps' = after_messages new ps \<and> (\<forall>ty\<in>set (butlast new). \<not> ends_bus ty)"
  using assms
proof (induction k arbitrary: ps t)
  case 0
  then show ?case by (auto intro: exI [of _ "[]"] simp: after_messages_simps)
next
  case (Suc k)
  obtain running ps1 t1 where turn: "run_state (bus_turn E bus ps) t = ((running, ps1), t1)" by (metis surj_pair)
  from bus_turn_messages [OF turn] obtain new where new: "popped t1 = popped t @ new" "ps1 = after_messages new ps"
    "length new \<le> 1" "running \<longrightarrow> \<not> (\<exists>ty\<in>set new. ends_bus ty)" by blast
  show ?case
  proof (cases running)
    case True
    then have "run_state (bus_loop E bus k ps1) t1 = ((ended, ps'), t')" using Suc.prems turn by simp
    from Suc.IH [OF this] obtain rest where rest: "popped t' = popped t1 @ rest" "ps' = after_messages rest ps1"
      "\<forall>ty\<in>set (butlast rest). \<not> ends_bus ty" by blast
    have "new = [] \<or> (\<exists>ty. new = [ty] \<and> \<not> ends_bus ty)"
      using new(3,4) True by (cases new) auto
    then have "ps' = after_messages (new @ rest) ps" "\<forall>ty\<in>set (butlast (new @ rest)). \<not> ends_bus ty"
      using new(2) rest(2,3) by (auto simp: after_messages_simps split: if_splits)
    then show ?thesis using new(1) rest(1) by (intro exI [of _ "new @ rest"]) simp
  next
    case False
    then have "ps' = ps1" "t' = t1" using Suc.prems turn by auto
    moreover have "butlast new = []" using new(3) by (cases new) auto
    ultimately show ?thesis using new(1,2) by (intro exI [of _ new]) simp
  qed
qed

text \<open>
  C18. What the bus thread makes of the pipeline's messages: an error is recorded exactly when an error
  message came, or when there is no bus, and a stop is requested exactly when an error or the end
  of the stream came; nothing is read behind the message that ends the thread; and when it has ended,
  it has cleared its flag and signalled the condition under the lock, and changed nothing else.
\<close>

theorem bus_thread_outcome:
  assumes "run_state (bus_thread_func E k ps) t = ((True, ps'), t')"
  shows "\<exists>new rest. popped t' = popped t @ new \<and> (\<forall>ty\<in>set (butlast new). \<not> ends_bus ty)
    \<and> t' = Sys (EvUnlock PsLock) # Mpp (EvCondSignal PsCond) # Sys (EvLock PsLock) # rest
    \<and> (if e_get_bus (elem E) t (ps_pipeline ps) = 0
       then new = [] \<and> ps' = ps\<lparr>ps_encountered_error := True, ps_bus_thread_running := False\<rparr>
       else ps' = ps\<lparr>ps_encountered_error := ps_encountered_error ps \<or> GST_MESSAGE_ERROR \<in> set new,
              ps_stop_requested := ps_stop_requested ps \<or> (\<exists>ty\<in>set new. ends_bus ty),
              ps_bus_thread_running := False\<rparr>)"
proof (cases "e_get_bus (elem E) t (ps_pipeline ps) = 0")
  case True
  then show ?thesis
    using assms unfolding bus_thread_func_def bus_begin_def Let_def by auto
next
  case False
  let ?bus = "e_get_bus (elem E) t (ps_pipeline ps)"
  let ?t1 = "Sys (EvUnlock PsLock) # Sys (EvLock PsLock) # Elem (EvGetBus (ps_pipeline ps) ?bus) # t"
  obtain ended ps1 t1 where loop: "run_state (bus_loop E ?bus k (ps\<lparr>ps_bus_thread_running := True\<rparr>)) ?t1 = ((ended, ps1), t1)"
    by (metis surj_pair)
  from bus_loop_messages [OF loop] obtain new where new: "popped t1 = popped ?t1 @ new"
    "ps1 = after_messages new (ps\<lparr>ps_bus_thread_running := True\<rparr>)" "\<forall>ty\<in>set (butlast new). \<not> ends_bus ty" by blast
  have "ps' = ps1\<lparr>ps_bus_thread_running := False\<rparr>"
    "t' = Sys (EvUnlock PsLock) # Mpp (EvCondSignal PsCond) # Sys (EvLock PsLock) # Elem (EvElemUnref ?bus) # t1"
    using assms False loop unfolding bus_thread_func_def bus_begin_def bus_end_def Let_def by (auto split: if_splits)
  then show ?thesis
    using new False by (intro exI [of _ new]) (auto simp: after_messages_def)
qed

text \<open>A bus with an end-of-stream message.\<close>

definition eos_env :: env where
  "eos_env = null_env\<lparr>elem := (elem null_env)\<lparr>e_get_bus := \<lambda>_ _. 39, e_bus_pop := \<lambda>_. (40, GST_MESSAGE_EOS)\<rparr>\<rparr>"

theorem bus_thread_outcome_witness:
  "\<exists>new rest. popped (trace_of (bus_thread_func eos_env 1 zero_pipeline)) = new \<and> new = [GST_MESSAGE_EOS]
     \<and> trace_of (bus_thread_func eos_env 1 zero_pipeline)
         = Sys (EvUnlock PsLock) # Mpp (EvCondSignal PsCond) # Sys (EvLock PsLock) # rest
     \<and> ps_stop_requested (snd (fst (run_state (bus_thread_func eos_env 1 zero_pipeline) [])))"
proof -
  obtain ended ps' t' where run: "run_state (bus_thread_func eos_env 1 zero_pipeline) [] = ((ended, ps'), t')"
    by (metis surj_pair)
  then have "ended" "popped t' = [GST_MESSAGE_EOS]"
    by (auto simp: bus_thread_func_def bus_begin_def bus_end_def bus_turn_def handle_message_def eos_env_def null_env_def Let_def
        GST_MESSAGE_EOS_def GST_MESSAGE_ERROR_def)
  then have run': "run_state (bus_thread_func eos_env 1 zero_pipeline) [] = ((True, ps'), t')" using run by simp
  from bus_thread_outcome [OF run'] obtain new rest where
    "popped t' = popped [] @ new" "t' = Sys (EvUnlock PsLock) # Mpp (EvCondSignal PsCond) # Sys (EvLock PsLock) # rest"
    "ps_stop_requested ps' \<longleftrightarrow> ps_stop_requested zero_pipeline \<or> (\<exists>ty\<in>set new. ends_bus ty)"
    by (auto simp: eos_env_def split: if_splits)
  then show ?thesis
    using \<open>popped t' = [GST_MESSAGE_EOS]\<close> run' by (auto simp: trace_of_def ends_bus_def)
qed

end
