(* ===== verification/Pipeline_Threads.thy ===== *)
theory Pipeline_Threads
  imports Pipeline_Life Pipeline_Feed
begin

text \<open>
  The pipeline's two threads beside \<open>main\<close>, as a step relation on the shared struct. \<open>main\<close> is between its
  calls, or inside \<open>pipeline_stop\<close> or \<open>pipeline_poll_child\<close>; each of its steps is a part of those functions
  that waits for no thread, and a join is a step that needs the thread to have ended. A thread takes turns
  of its loop until one is the last. What a thread reads of a flag is what the struct holds then.

  A start is one step: it makes the threads at its end, and one that fails has made none, because
  \<open>g_thread_new\<close> does not return NULL. A turn of the appsink thread is one step when the decoder's call
  comes back.
\<close>

section \<open>The system\<close>

datatype main_pc = MFree | MJoinSink | MAwaitBus | MJoinBus | MClean

datatype sink_pc = SNone | SNew | STurn nat | SEnding | SDone

datatype bus_pc = BNone | BNew | BTurn ptr | BEnding ptr | BDone

record pipe_sys =
  pipe :: PipelineState
  mpc :: main_pc
  spc :: sink_pc
  bpc :: bus_pc
  pcalls :: trace

text \<open>The environment in which the flags read are those of the struct.\<close>

definition seeing :: "env \<Rightarrow> PipelineState \<Rightarrow> env" where
  "seeing E ps = E\<lparr>proc := (proc E)\<lparr>e_shared := \<lambda>_. \<lparr>sh_bus_running = ps_bus_thread_running ps,
     sh_appsink_running = ps_appsink_thread_running ps, sh_stop_requested = ps_stop_requested ps,
     sh_error = ps_encountered_error ps\<rparr>\<rparr>\<rparr>"

inductive pipe_moves :: "env \<Rightarrow> pipe_sys \<Rightarrow> pipe_sys \<Rightarrow> bool" for E where
  sink_begin: "spc s = SNew \<Longrightarrow>
     run_state (set_appsink_running (ps_appsink (pipe s) \<noteq> 0) (pipe s)) (pcalls s) = (ps, t) \<Longrightarrow>
     pipe_moves E s (s\<lparr>pipe := ps, pcalls := t,
       spc := (if ps_appsink ps = 0 then SDone else STurn (appsink_max_packet ps))\<rparr>)"
| sink_turn: "spc s = STurn max_packet \<Longrightarrow>
     run_state (appsink_turn (seeing E (pipe s)) neon n max_packet (pipe s)) (pcalls s) = ((turn, ps), t) \<Longrightarrow>
     turn \<noteq> TurnBusy \<Longrightarrow>
     pipe_moves E s (s\<lparr>pipe := ps, pcalls := t, spc := (if turn = TurnStop then SEnding else spc s)\<rparr>)"
| sink_end: "spc s = SEnding \<Longrightarrow>
     run_state (appsink_end E (pipe s)) (pcalls s) = (ps, t) \<Longrightarrow>
     pipe_moves E s (s\<lparr>pipe := ps, pcalls := t, spc := SDone\<rparr>)"
| bus_begin: "bpc s = BNew \<Longrightarrow>
     run_state (bus_begin E (pipe s)) (pcalls s) = ((b, ps), t) \<Longrightarrow>
     pipe_moves E s (s\<lparr>pipe := ps, pcalls := t, bpc := (if b = 0 then BDone else BTurn b)\<rparr>)"
| bus_turn: "bpc s = BTurn b \<Longrightarrow>
     run_state (bus_turn (seeing E (pipe s)) b (pipe s)) (pcalls s) = ((running, ps), t) \<Longrightarrow>
     pipe_moves E s (s\<lparr>pipe := ps, pcalls := t, bpc := (if running then bpc s else BEnding b)\<rparr>)"
| bus_end: "bpc s = BEnding b \<Longrightarrow>
     run_state (bus_end b (pipe s)) (pcalls s) = (ps, t) \<Longrightarrow>
     pipe_moves E s (s\<lparr>pipe := ps, pcalls := t, bpc := BDone\<rparr>)"

inductive pipe_step :: "env \<Rightarrow> AppCfg \<Rightarrow> ModesetResult \<Rightarrow> int \<Rightarrow> pipe_sys \<Rightarrow> pipe_sys \<Rightarrow> bool" for E cfg ms fd where
  start: "mpc s = MFree \<Longrightarrow>
     run_state (start_pipeline E cfg ms fd (pipe s)) (pcalls s) = ((r, ps), t) \<Longrightarrow>
     pipe_step E cfg ms fd s (s\<lparr>pipe := ps, pcalls := t, spc := (if r = 0 then SNew else spc s),
       bpc := (if r = 0 then BNew else bpc s)\<rparr>)"
| stop_idle: "mpc s = MFree \<Longrightarrow> ps_initialized (pipe s) \<Longrightarrow>
     run_state (begin_stop E (pipe s)) (pcalls s) = ((False, ps), t) \<Longrightarrow>
     pipe_step E cfg ms fd s (s\<lparr>pipe := ps, pcalls := t\<rparr>)"
| stop_begin: "mpc s = MFree \<Longrightarrow> ps_initialized (pipe s) \<Longrightarrow>
     run_state (begin_stop E (pipe s)) (pcalls s) = ((True, ps), t) \<Longrightarrow>
     pipe_step E cfg ms fd s (s\<lparr>pipe := ps, pcalls := t, mpc := MJoinSink\<rparr>)"
| stop_join_sink: "mpc s = MJoinSink \<Longrightarrow> spc s = SDone \<or> spc s = SNone \<Longrightarrow>
     run_state (join_appsink (pipe s)) (pcalls s) = (ps, t) \<Longrightarrow>
     pipe_step E cfg ms fd s (s\<lparr>pipe := ps, pcalls := t, mpc := MAwaitBus, spc := SNone\<rparr>)"
| stop_await_bus: "mpc s = MAwaitBus \<Longrightarrow> ps_bus_thread (pipe s) \<noteq> 0 \<Longrightarrow>
     run_state (await_bus (seeing E (pipe s)) k wait_ms) (pcalls s) = ((), t) \<Longrightarrow>
     pipe_step E cfg ms fd s (s\<lparr>pcalls := t, mpc := MJoinBus\<rparr>)"
| stop_no_bus: "mpc s = MAwaitBus \<Longrightarrow> ps_bus_thread (pipe s) = 0 \<Longrightarrow>
     pipe_step E cfg ms fd s (s\<lparr>mpc := MClean\<rparr>)"
| join_bus: "mpc s = MJoinBus \<Longrightarrow> bpc s = BDone \<or> bpc s = BNone \<Longrightarrow>
     run_state (join_bus (pipe s)) (pcalls s) = (ps, t) \<Longrightarrow>
     pipe_step E cfg ms fd s (s\<lparr>pipe := ps, pcalls := t, mpc := MClean, bpc := BNone\<rparr>)"
| clean: "mpc s = MClean \<Longrightarrow> spc s = SDone \<or> spc s = SNone \<Longrightarrow>
     run_state (finish_stop E (pipe s)) (pcalls s) = (ps, t) \<Longrightarrow>
     pipe_step E cfg ms fd s (s\<lparr>pipe := ps, pcalls := t, mpc := MFree, spc := SNone\<rparr>)"
| poll_stay: "mpc s = MFree \<Longrightarrow> ps_initialized (pipe s) \<Longrightarrow>
     run_state (poll_look (seeing E (pipe s)) (pipe s)) (pcalls s) = (False, t) \<Longrightarrow>
     pipe_step E cfg ms fd s (s\<lparr>pcalls := t\<rparr>)"
| poll_gone: "mpc s = MFree \<Longrightarrow> ps_initialized (pipe s) \<Longrightarrow>
     run_state (poll_look (seeing E (pipe s)) (pipe s)) (pcalls s) = (True, t) \<Longrightarrow>
     pipe_step E cfg ms fd s (s\<lparr>pcalls := t, mpc := MJoinBus\<rparr>)"
| recording: "mpc s = MFree \<Longrightarrow> ps_state (pipe s) = PIPELINE_RUNNING \<Longrightarrow>
     run_state (enable_recording E c (pipe s)) (pcalls s) = ((r, ps), t) \<Longrightarrow>
     pipe_step E cfg ms fd s (s\<lparr>pipe := ps, pcalls := t\<rparr>)"
| no_recording: "mpc s = MFree \<Longrightarrow> ps_state (pipe s) = PIPELINE_RUNNING \<Longrightarrow>
     run_state (drop_recorder E (pipe s)) (pcalls s) = (ps, t) \<Longrightarrow>
     pipe_step E cfg ms fd s (s\<lparr>pipe := ps, pcalls := t\<rparr>)"
| by_pipe: "pipe_moves E s s' \<Longrightarrow> pipe_step E cfg ms fd s s'"

section \<open>What the steps change\<close>

lemma returnsD: "returns m P \<Longrightarrow> run_state m t = (x, t') \<Longrightarrow> P x"
  by (metis returns_def fst_conv)

text \<open>A turn of the appsink thread changes nothing but the parts it feeds.\<close>

definition fed_parts :: "PipelineState \<Rightarrow> PipelineState \<Rightarrow> bool" where
  "fed_parts ps ps' \<longleftrightarrow> ps' = ps\<lparr>ps_recorder := ps_recorder ps', ps_decoder := ps_decoder ps'\<rparr>
     \<and> (ps_decoder ps' = None \<longleftrightarrow> ps_decoder ps = None)"

lemma fed_parts_refl: "fed_parts ps ps"
  by (simp add: fed_parts_def)

lemma fed_parts_fields:
  assumes "fed_parts ps ps'"
  shows "ps_pipeline ps' = ps_pipeline ps" "ps_decoder ps' = None \<longleftrightarrow> ps_decoder ps = None"
    "ps_appsink_thread ps' = ps_appsink_thread ps" "ps_bus_thread ps' = ps_bus_thread ps"
    "ps_stop_requested ps' = ps_stop_requested ps" "ps_decoder_running ps' = ps_decoder_running ps"
    "ps_appsink ps' = ps_appsink ps" "ps_state ps' = ps_state ps"
proof -
  obtain r d where "ps' = ps\<lparr>ps_recorder := r, ps_decoder := d\<rparr>"
    using assms unfolding fed_parts_def by blast
  then show "ps_pipeline ps' = ps_pipeline ps" "ps_decoder ps' = None \<longleftrightarrow> ps_decoder ps = None"
    "ps_appsink_thread ps' = ps_appsink_thread ps" "ps_bus_thread ps' = ps_bus_thread ps"
    "ps_stop_requested ps' = ps_stop_requested ps" "ps_decoder_running ps' = ps_decoder_running ps"
    "ps_appsink ps' = ps_appsink ps" "ps_state ps' = ps_state ps"
    using assms by (simp_all add: fed_parts_def)
qed

lemma feed_some: "returns (video_decoder_feed E neon n p bytes pts) (\<lambda>x. snd x = None \<longleftrightarrow> p = None)"
  unfolding video_decoder_feed_def by (auto intro!: returns_intros returns_bind_any split: option.split)

lemma feed_bytes_parts: "returns (feed_bytes E neon n sample buffer bytes pts ps) (\<lambda>x. fed_parts ps (snd x))"
  unfolding feed_bytes_def Let_def
  by (rule returns_bind_any, rule returns_bind_any, rule returns_bind_any, rule returns_bind, rule returns_mono [OF feed_some])
    (auto intro!: returns_intros simp: fed_parts_def)

lemma handle_buffer_parts: "returns (handle_buffer E neon n mp sample buffer ps) (\<lambda>x. fed_parts ps (snd x))"
  unfolding handle_buffer_def
  by (intro returns_bind_any returns_case_option returns_bind [OF returns_if [OF returns_mono [OF feed_bytes_parts]]])
    (auto intro!: returns_intros returns_bind_any simp: fed_parts_refl)

lemma handle_pulled_parts: "returns (handle_pulled E neon n mp sample ps) (\<lambda>x. fed_parts ps (snd x))"
  unfolding handle_pulled_def
  by (intro returns_bind [OF returns_if [OF returns_mono [OF handle_buffer_parts]]])
    (auto intro!: returns_intros returns_bind_any simp: fed_parts_refl)

lemma appsink_turn_parts: "returns (appsink_turn E neon n mp ps) (\<lambda>x. fed_parts ps (snd x))"
  unfolding appsink_turn_def
  by (intro returns_bind_any returns_if returns_bind [OF returns_mono [OF handle_pulled_parts]])
    (auto intro!: returns_intros simp: fed_parts_refl)

lemma turn_stops:
  "ps_stop_requested ps \<Longrightarrow> returns (appsink_turn (seeing E ps) neon n mp ps) (\<lambda>x. fst x = TurnStop)"
  unfolding appsink_turn_def seeing_def by (auto intro!: returns_intros)

text \<open>A start that succeeds.\<close>

definition launched :: "PipelineState \<Rightarrow> bool" where
  "launched ps \<longleftrightarrow> ps_pipeline ps \<noteq> 0 \<and> ps_appsink ps \<noteq> 0 \<and> ps_decoder ps \<noteq> None \<and> ps_decoder_running ps
     \<and> ps_appsink_thread ps \<noteq> 0 \<and> ps_bus_thread ps \<noteq> 0 \<and> \<not> ps_stop_requested ps \<and> \<not> ps_bus_thread_running ps"

definition before_threads :: "PipelineState \<Rightarrow> bool" where
  "before_threads ps \<longleftrightarrow> ps_pipeline ps \<noteq> 0 \<and> ps_appsink ps \<noteq> 0 \<and> \<not> ps_stop_requested ps \<and> \<not> ps_bus_thread_running ps"

lemma built_pointers:
  "returns (build_pipeline E cfg) (\<lambda>b. case b of None \<Rightarrow> True | Some (p, s, _) \<Rightarrow> p \<noteq> 0 \<and> s \<noteq> 0)"
proof -
  have elements: "returns (build_elements E cfg p a) (\<lambda>x. x \<noteq> Some 0)" for p a
    unfolding build_elements_def by (intro returns_bind_any returns_if returns_ret) auto
  have "returns (build_rest E cfg p a r) (\<lambda>b. case b of None \<Rightarrow> True | Some (p, s, _) \<Rightarrow> p \<noteq> 0 \<and> s \<noteq> 0)" if "p \<noteq> 0" for p a r
    unfolding build_rest_def
    by (rule returns_bind, rule returns_mono [OF elements]) (use that in \<open>auto intro!: returns_ret split: option.split\<close>)
  then show ?thesis
    unfolding build_pipeline_def
    by (intro returns_bind returns_ext) (auto intro!: returns_if returns_ret returns_bind_any simp: split_beta)
qed

lemma receiver_before:
  "before_threads ps \<Longrightarrow> returns (start_receiver E ps) (\<lambda>x. before_threads (snd x))"
  unfolding start_receiver_def by (intro returns_bind_any) (auto intro!: returns_intros simp: before_threads_def)

lemma open_before:
  assumes "before_threads ps"
  shows "returns (open_decoder E cfg ms fd ps) (\<lambda>x. fst x \<longrightarrow> before_threads (snd x) \<and> ps_decoder (snd x) \<noteq> None)"
proof -
  have made: "returns (video_decoder_init E (Some vd) (Some cfg) (Some ms) fd) (\<lambda>x. snd x \<noteq> None)" for vd
    unfolding video_decoder_init_def by (simp, intro returns_bind_any) (auto intro!: returns_intros)
  show ?thesis
    using assms unfolding open_decoder_def Let_def
    by (rule_tac returns_bind_any) (auto intro!: returns_if returns_ret returns_bind returns_mono [OF made] simp: before_threads_def)
qed

lemma start_decoder_before:
  assumes "before_threads ps"
  shows "returns (start_decoder E ps)
     (\<lambda>x. fst x \<longrightarrow> before_threads (snd x) \<and> ps_decoder (snd x) \<noteq> None \<and> ps_decoder_running (snd x))"
proof -
  have made: "returns (video_decoder_start E p) (\<lambda>x. fst x = 0 \<longrightarrow> snd x \<noteq> None)" for p
    unfolding video_decoder_start_def by (intro returns_case_option returns_ret returns_bind_any) (auto intro!: returns_intros)
  show ?thesis
    using assms unfolding start_decoder_def Let_def
    by (rule_tac returns_bind, rule_tac returns_mono [OF made]) (auto intro!: returns_ret simp: before_threads_def split: if_splits)
qed

lemma threads_launched:
  assumes "before_threads ps" and "ps_decoder ps \<noteq> None" and "ps_decoder_running ps"
  shows "returns (start_pipeline_threads E ps) (\<lambda>x. fst x \<longrightarrow> launched (snd x))"
  using assms unfolding start_pipeline_threads_def Let_def
  by (intro returns_bind_any) (auto intro!: returns_intros returns_bind_any simp: before_threads_def launched_def)

lemma run_launches:
  assumes "before_threads ps"
  shows "returns (run_pipeline E cfg ms fd ps) (\<lambda>x. fst x \<longrightarrow> launched (snd x))"
  unfolding run_pipeline_def
  by (rule returns_bind, rule returns_mono [OF receiver_before [OF assms]])
    (auto intro!: returns_if returns_ret returns_bind returns_mono [OF open_before]
      returns_mono [OF start_decoder_before] threads_launched returns_any [where m = "start_playing E ps" for ps])

lemma start_launches:
  "returns (start_pipeline E cfg ms fd ps) (\<lambda>x. fst x = 0 \<longrightarrow> launched (snd x))"
proof -
  have failed: "returns (fail_start E ps') (\<lambda>x. fst x \<noteq> 0)" for ps'
    unfolding fail_start_def by (intro returns_bind_any returns_ret) simp
  have "returns (enter_pipeline E cfg ms fd b (reset_fields cfg ps')) (\<lambda>x. fst x = 0 \<longrightarrow> launched (snd x))"
    if "case b of None \<Rightarrow> True | Some (p, s, _) \<Rightarrow> p \<noteq> 0 \<and> s \<noteq> 0" for b ps'
    using that unfolding enter_pipeline_def
    by (auto split: option.splits prod.splits intro!: returns_mono [OF failed] returns_bind returns_mono [OF run_launches] returns_ret
        simp: before_threads_def reset_fields_def launched_def)
  then show ?thesis
    unfolding start_pipeline_def Let_def
    by (intro returns_if returns_ret returns_bind_any returns_bind [OF returns_mono [OF built_pointers]]) simp_all
qed

section \<open>What the threads own\<close>

lemma ps_owned_flags [simp]:
  "ps_owned (ps\<lparr>ps_appsink_thread_running := b\<rparr>) = ps_owned ps" "ps_owned (ps\<lparr>ps_bus_thread_running := b\<rparr>) = ps_owned ps"
  "ps_owned (ps\<lparr>ps_encountered_error := b\<rparr>) = ps_owned ps" "ps_owned (ps\<lparr>ps_stop_requested := b\<rparr>) = ps_owned ps"
  "ps_owned (ps\<lparr>ps_state := st\<rparr>) = ps_owned ps"
  by (simp_all add: ps_owned_def locks_owned_def)

lemma locks_split:
  assumes "ps_initialized ps"
  obtains N where "ps_owned ps = N + {#Mutex PsLock, Cond PsCond#}"
proof
  show "ps_owned ps = (ps_owned ps - {#Mutex PsLock, Cond PsCond#}) + {#Mutex PsLock, Cond PsCond#}"
    using assms by (simp add: ps_owned_def locks_owned_def)
qed

lemma set_running_own:
  assumes "ps_initialized ps"
  shows "wp own (set_appsink_running b ps)
     (\<lambda>ps' M'. M' = M + ps_owned ps' \<and> ps' = ps\<lparr>ps_appsink_thread_running := b\<rparr>) (M + ps_owned ps)"
  by (rule locks_split [OF assms]) (use assms in \<open>auto intro!: wp_intros simp: set_appsink_running_def own_simps\<close>)

lemma send_eos_frame:
  assumes "dec_safe p"
  shows "wp own (video_decoder_send_eos E p) (\<lambda>_ M'. M' = M + dec_owned p \<and> True) (M + dec_owned p)"
  using assms unfolding video_decoder_send_eos_def
  by (intro wp_intros send_eos_wp)
    (auto simp: dec_owned_def dec_safe_def vd_inv_def core_inv_def vd_owned_def core_owned_def mpp_owned_def ptr_res_def)

lemma appsink_end_own:
  assumes "can_feed ps"
  shows "wp own (appsink_end E ps)
     (\<lambda>ps' M'. M' = M + ps_owned ps' \<and> ps' = ps\<lparr>ps_appsink_thread_running := False\<rparr>) (M + ps_owned ps)"
proof -
  obtain N where N: "ps_owned ps = N + dec_owned (ps_decoder ps)"
    by (metis ps_owned_def add.assoc add.commute)
  have "wp own (video_decoder_send_eos E (ps_decoder ps)) (\<lambda>_ M'. M' = M + ps_owned ps) (M + ps_owned ps)"
    using send_eos_frame [of "ps_decoder ps" E "M + N"] assms unfolding N
    by (auto simp: can_feed_def add.assoc elim: wp_mono)
  then show ?thesis
    unfolding appsink_end_def
    by (intro wp_bind) (use assms in \<open>auto elim!: wp_mono intro: set_running_own simp: can_feed_def\<close>)
qed

text \<open>The bus thread changes its flags only, and never takes a request to stop back.\<close>

definition bus_flags :: "PipelineState \<Rightarrow> PipelineState \<Rightarrow> bool" where
  "bus_flags ps ps' \<longleftrightarrow> ps' = ps\<lparr>ps_encountered_error := ps_encountered_error ps', ps_stop_requested := ps_stop_requested ps',
       ps_bus_thread_running := ps_bus_thread_running ps'\<rparr>
     \<and> (ps_stop_requested ps \<longrightarrow> ps_stop_requested ps')"

lemma bus_begin_own:
  assumes "ps_initialized ps" and "ps_pipeline ps \<noteq> 0"
  shows "wp own (bus_begin E ps)
     (\<lambda>x M'. M' = M + ptr_res Ref (fst x) + ps_owned (snd x) \<and> bus_flags ps (snd x)) (M + ps_owned ps)"
proof -
  have "Ref (ps_pipeline ps) \<in># M + ps_owned ps" using assms(2) by (simp add: ps_owned_def ptr_res_def)
  moreover obtain N where "ps_owned ps = N + {#Mutex PsLock, Cond PsCond#}" using locks_split [OF assms(1)] .
  ultimately show ?thesis
    unfolding bus_begin_def Let_def by (intro wp_intros) (auto simp: own_simps bus_flags_def)
qed

lemma bus_turn_own:
  assumes "ps_initialized ps" and "b \<noteq> 0"
  shows "wp own (bus_turn E b ps)
     (\<lambda>x M'. M' = M + ptr_res Ref b + ps_owned (snd x) \<and> bus_flags ps (snd x)) (M + ptr_res Ref b + ps_owned ps)"
proof -
  obtain N where "ps_owned ps = N + {#Mutex PsLock, Cond PsCond#}" using locks_split [OF assms(1)] .
  then show ?thesis
    using assms(2) unfolding bus_turn_def handle_message_def Let_def
    by (intro wp_intros) (auto simp: own_simps bus_flags_def)
qed

lemma bus_end_own:
  assumes "ps_initialized ps" and "b \<noteq> 0"
  shows "wp own (bus_end b ps)
     (\<lambda>ps' M'. M' = M + ps_owned ps' \<and> bus_flags ps ps') (M + ptr_res Ref b + ps_owned ps)"
proof -
  obtain N where "ps_owned ps = N + {#Mutex PsLock, Cond PsCond#}" using locks_split [OF assms(1)] .
  then show ?thesis
    using assms(2) unfolding bus_end_def Let_def by (intro wp_intros) (auto simp: own_simps bus_flags_def)
qed

section \<open>The invariant\<close>

fun bus_held :: "bus_pc \<Rightarrow> resource multiset" where
  "bus_held (BTurn b) = {#Ref b#}"
| "bus_held (BEnding b) = {#Ref b#}"
| "bus_held _ = {#}"

text \<open>
  What the threads' moves need, and what they change: the recorder, the packet buffer of the decoder and
  their flags.
\<close>

definition can_move :: "pipe_sys \<Rightarrow> bool" where
  "can_move s \<longleftrightarrow> can_feed (pipe s) \<and> (bpc s \<noteq> BNone \<longrightarrow> ps_pipeline (pipe s) \<noteq> 0) \<and> bpc s \<noteq> BTurn 0 \<and> bpc s \<noteq> BEnding 0"

definition moved :: "PipelineState \<Rightarrow> PipelineState \<Rightarrow> bool" where
  "moved ps ps' \<longleftrightarrow> (\<exists>r d. rec_inv r \<and> fed_dec (ps_decoder ps) d
       \<and> ps' = ps\<lparr>ps_recorder := r, ps_decoder := d, ps_appsink_thread_running := ps_appsink_thread_running ps',
           ps_bus_thread_running := ps_bus_thread_running ps', ps_encountered_error := ps_encountered_error ps',
           ps_stop_requested := ps_stop_requested ps'\<rparr>)
     \<and> (ps_stop_requested ps \<longrightarrow> ps_stop_requested ps')"

lemma ps_fed_moved: "ps_fed ps ps' \<Longrightarrow> moved ps ps'"
  unfolding ps_fed_def moved_def by (elim exE conjE, intro conjI exI) simp_all

lemma running_moved: "can_feed ps \<Longrightarrow> moved ps (ps\<lparr>ps_appsink_thread_running := b\<rparr>)"
  unfolding moved_def by (intro conjI exI [of _ "ps_recorder ps"] exI [of _ "ps_decoder ps"]) (simp_all add: can_feed_def fed_dec_def)

lemma bus_flags_moved:
  assumes "bus_flags ps ps'" and "can_feed ps"
  shows "moved ps ps'"
proof -
  obtain e r b where ps': "ps' = ps\<lparr>ps_encountered_error := e, ps_stop_requested := r, ps_bus_thread_running := b\<rparr>"
    and "ps_stop_requested ps \<longrightarrow> r"
    using assms(1) unfolding bus_flags_def by (metis PipelineState.select_convs(9) PipelineState.surjective PipelineState.update_convs(8-10))
  then show ?thesis
    unfolding moved_def using assms(2)
    by (intro conjI exI [of _ "ps_recorder ps"] exI [of _ "ps_decoder ps"]) (simp_all add: can_feed_def fed_dec_def)
qed

lemma moved_fields:
  assumes "moved ps ps'"
  shows "ps_pipeline ps' = ps_pipeline ps" "ps_decoder ps' = None \<longleftrightarrow> ps_decoder ps = None"
    "ps_appsink_thread ps' = ps_appsink_thread ps" "ps_bus_thread ps' = ps_bus_thread ps"
    "ps_stop_requested ps \<Longrightarrow> ps_stop_requested ps'" "ps_decoder_running ps' = ps_decoder_running ps"
    "ps_appsink ps' = ps_appsink ps" "ps_state ps' = ps_state ps" "ps_initialized ps' = ps_initialized ps"
    "ps_udp_receiver ps' = ps_udp_receiver ps" "fed_dec (ps_decoder ps) (ps_decoder ps')" "rec_inv (ps_recorder ps')"
proof -
  obtain r d a b e q where "ps' = ps\<lparr>ps_recorder := r, ps_decoder := d, ps_appsink_thread_running := a,
      ps_bus_thread_running := b, ps_encountered_error := e, ps_stop_requested := q\<rparr>" "rec_inv r"
      "fed_dec (ps_decoder ps) d" "ps_stop_requested ps \<longrightarrow> q"
    using assms unfolding moved_def by blast
  then show "ps_pipeline ps' = ps_pipeline ps" "ps_decoder ps' = None \<longleftrightarrow> ps_decoder ps = None"
    "ps_appsink_thread ps' = ps_appsink_thread ps" "ps_bus_thread ps' = ps_bus_thread ps"
    "ps_stop_requested ps \<Longrightarrow> ps_stop_requested ps'" "ps_decoder_running ps' = ps_decoder_running ps"
    "ps_appsink ps' = ps_appsink ps" "ps_state ps' = ps_state ps" "ps_initialized ps' = ps_initialized ps"
    "ps_udp_receiver ps' = ps_udp_receiver ps" "fed_dec (ps_decoder ps) (ps_decoder ps')" "rec_inv (ps_recorder ps')"
    by (auto simp: fed_dec_def)
qed

lemma moves_by:
  assumes run: "run_state m (pcalls s) = (x, t)" and "pipe s' = g x" and "pcalls s' = t"
    and own: "wp own m (\<lambda>x M'. P x \<longrightarrow> M' = M + bus_held (f x) + ps_owned (g x) \<and> moved (pipe s) (g x))
      (M + bus_held (bpc s) + ps_owned (pipe s))"
    and mon: "monitor own M0 (pcalls s) = Some (M + bus_held (bpc s) + ps_owned (pipe s))" and "bpc s' = f x" and "P x"
  shows "monitor own M0 (pcalls s') = Some (M + bus_held (bpc s') + ps_owned (pipe s'))" "moved (pipe s) (pipe s')"
  using wp_after [OF own run mon] assms(2,3,6,7) by auto

lemma pipe_moves_own:
  assumes "pipe_moves E s s'" and "can_move s"
    and mon: "monitor own M0 (pcalls s) = Some (M + bus_held (bpc s) + ps_owned (pipe s))"
  shows "monitor own M0 (pcalls s') = Some (M + bus_held (bpc s') + ps_owned (pipe s')) \<and> moved (pipe s) (pipe s')"
  using assms(1)
proof cases
  case (sink_begin ps t)
  have feed: "can_feed (pipe s)" and init: "ps_initialized (pipe s)" using assms(2) by (simp_all add: can_move_def can_feed_def)
  show ?thesis
    using moves_by [OF sink_begin(3) _ _ _ mon, where g = id and f = "\<lambda>_. bpc s" and s' = s' and P = "\<lambda>_. True"] sink_begin
      wp_mono [OF set_running_own [OF init]] running_moved [OF feed] by simp
next
  case (sink_turn mp neon n turn ps t)
  have feed: "can_feed (pipe s)" using assms(2) by (simp add: can_move_def)
  have "wp own (appsink_turn (seeing E (pipe s)) neon n mp (pipe s))
      (\<lambda>x M'. fst x \<noteq> TurnBusy \<longrightarrow> M' = M + bus_held (bpc s) + ps_owned (snd x) \<and> moved (pipe s) (snd x))
      (M + bus_held (bpc s) + ps_owned (pipe s))"
    by (rule appsink_turn_fed [OF feed]) (simp_all add: ps_fed_moved)
  from moves_by [OF sink_turn(3) _ _ this mon, of s'] sink_turn show ?thesis by simp
next
  case (sink_end ps t)
  have feed: "can_feed (pipe s)" using assms(2) by (simp add: can_move_def)
  show ?thesis
    using moves_by [OF sink_end(3) _ _ _ mon, where g = id and f = "\<lambda>_. bpc s" and s' = s' and P = "\<lambda>_. True"] sink_end
      wp_mono [OF appsink_end_own [OF feed]] running_moved [OF feed] by simp
next
  case (bus_begin b ps t)
  have feed: "can_feed (pipe s)" and st: "ps_initialized (pipe s)" "ps_pipeline (pipe s) \<noteq> 0"
    using assms(2) bus_begin by (simp_all add: can_move_def can_feed_def)
  have "wp own (Pipeline_Run.bus_begin E (pipe s)) (\<lambda>x M'. True \<longrightarrow> M' = M + bus_held (if fst x = 0 then BDone else BTurn (fst x))
      + ps_owned (snd x) \<and> moved (pipe s) (snd x)) (M + bus_held (bpc s) + ps_owned (pipe s))"
    using bus_begin by (auto intro!: wp_mono [OF bus_begin_own [OF st]] simp: ptr_res_def bus_flags_moved [OF _ feed])
  from moves_by [OF bus_begin(3) _ _ this mon, of s'] bus_begin show ?thesis by simp
next
  case (bus_turn b running ps t)
  have feed: "can_feed (pipe s)" and st: "ps_initialized (pipe s)" "b \<noteq> 0"
    using assms(2) bus_turn by (auto simp: can_move_def can_feed_def)
  have "wp own (Pipeline_Run.bus_turn (seeing E (pipe s)) b (pipe s)) (\<lambda>x M'. True \<longrightarrow> M' = M + bus_held (if fst x then BTurn b else BEnding b)
      + ps_owned (snd x) \<and> moved (pipe s) (snd x)) (M + bus_held (bpc s) + ps_owned (pipe s))"
    using bus_turn st(2) wp_mono [OF bus_turn_own [OF st]] by (simp add: ptr_res_def bus_flags_moved [OF _ feed])
  from moves_by [OF bus_turn(3) _ _ this mon, of s'] bus_turn show ?thesis by auto
next
  case (bus_end b ps t)
  have feed: "can_feed (pipe s)" and st: "ps_initialized (pipe s)" "b \<noteq> 0"
    using assms(2) bus_end by (auto simp: can_move_def can_feed_def)
  have "wp own (Pipeline_Run.bus_end b (pipe s)) (\<lambda>x M'. True \<longrightarrow> M' = M + bus_held BDone
      + ps_owned (id x) \<and> moved (pipe s) (id x)) (M + bus_held (bpc s) + ps_owned (pipe s))"
    using bus_end st(2) wp_mono [OF bus_end_own [OF st]] by (simp add: ptr_res_def bus_flags_moved [OF _ feed])
  from moves_by [OF bus_end(3) _ _ this mon, of s'] bus_end show ?thesis by simp
qed

text \<open>Where the moves leave the threads, and that they do not move \<open>main\<close>.\<close>

lemma pipe_moves_pcs:
  assumes "pipe_moves E s s'"
  shows "mpc s' = mpc s" "spc s' = SNone \<longleftrightarrow> spc s = SNone" "bpc s' = BNone \<longleftrightarrow> bpc s = BNone"
    "spc s \<noteq> SNone \<or> bpc s \<noteq> BNone" "bpc s \<noteq> BTurn 0 \<and> bpc s \<noteq> BEnding 0 \<Longrightarrow> bpc s' \<noteq> BTurn 0 \<and> bpc s' \<noteq> BEnding 0"
  using assms by (cases; simp)+

text \<open>Where the three sides can be at the same time. \<open>main\<close> comes to the joins by a stop or by a poll.\<close>

definition stop_or_poll :: "pipe_sys \<Rightarrow> bool" where
  "stop_or_poll s \<longleftrightarrow> ps_state (pipe s) = PIPELINE_STOPPING \<and> spc s = SNone
     \<or> ps_state (pipe s) = PIPELINE_RUNNING \<and> spc s \<noteq> SNone"

definition main_agree :: "pipe_sys \<Rightarrow> bool" where
  "main_agree s \<longleftrightarrow>
     (case mpc s of
        MFree \<Rightarrow> ps_state (pipe s) \<noteq> PIPELINE_STOPPING \<and> (spc s = SNone \<longleftrightarrow> ps_state (pipe s) = PIPELINE_STOPPED)
          \<and> (bpc s = BNone \<longleftrightarrow> ps_state (pipe s) = PIPELINE_STOPPED)
      | MJoinSink \<Rightarrow> ps_state (pipe s) = PIPELINE_STOPPING \<and> spc s \<noteq> SNone \<and> bpc s \<noteq> BNone
      | MAwaitBus \<Rightarrow> ps_state (pipe s) = PIPELINE_STOPPING \<and> spc s = SNone \<and> bpc s \<noteq> BNone
      | MJoinBus \<Rightarrow> stop_or_poll s \<and> bpc s \<noteq> BNone
      | MClean \<Rightarrow> stop_or_poll s \<and> bpc s = BNone)"

definition pipe_agree :: "pipe_sys \<Rightarrow> bool" where
  "pipe_agree s \<longleftrightarrow> ps_inv (pipe s) \<and> main_agree s
     \<and> (ps_state (pipe s) \<noteq> PIPELINE_STOPPED \<longrightarrow> ps_pipeline (pipe s) \<noteq> 0 \<and> ps_decoder (pipe s) \<noteq> None)
     \<and> (spc s = SNone \<longleftrightarrow> ps_appsink_thread (pipe s) = 0) \<and> (bpc s = BNone \<longleftrightarrow> ps_bus_thread (pipe s) = 0)
     \<and> bpc s \<noteq> BTurn 0 \<and> bpc s \<noteq> BEnding 0
     \<and> (ps_state (pipe s) = PIPELINE_STOPPING \<longrightarrow> ps_stop_requested (pipe s))"

definition pipe_sys_inv :: "resource multiset \<Rightarrow> pipe_sys \<Rightarrow> bool" where
  "pipe_sys_inv M0 s \<longleftrightarrow> pipe_agree s
     \<and> (\<exists>L. leaky L \<and> monitor own M0 (pcalls s) = Some (M0 + L + bus_held (bpc s) + ps_owned (pipe s)))"

lemma pipe_sys_invI:
  assumes "pipe_agree s" and "leaky L" and "monitor own M0 (pcalls s) = Some (M0 + L + bus_held (bpc s) + ps_owned (pipe s))"
  shows "pipe_sys_inv M0 s"
  using assms unfolding pipe_sys_inv_def by blast

lemma agree_started:
  assumes "pipe_agree s" and "spc s \<noteq> SNone \<or> bpc s \<noteq> BNone \<or> mpc s \<noteq> MFree"
  shows "ps_state (pipe s) \<noteq> PIPELINE_STOPPED" "ps_initialized (pipe s)" "parts_inv (pipe s)"
proof -
  show st: "ps_state (pipe s) \<noteq> PIPELINE_STOPPED"
    using assms by (auto simp: pipe_agree_def main_agree_def stop_or_poll_def split: main_pc.splits)
  show "ps_initialized (pipe s)" "parts_inv (pipe s)"
    using st assms(1) by (auto simp: pipe_agree_def ps_inv_def)
qed

lemma moved_inv:
  assumes "moved ps ps'" and "ps_inv ps" and "ps_state ps \<noteq> PIPELINE_STOPPED"
  shows "ps_inv ps'"
  using assms fed_dec_keeps(2) [OF moved_fields(11) [OF assms(1)]]
  by (auto simp: moved_fields [OF assms(1)] ps_inv_def parts_inv_def)

lemma pipe_moves_inv:
  assumes "pipe_moves E s s'" and "pipe_sys_inv M0 s"
  shows "pipe_sys_inv M0 s'"
proof -
  obtain L where L: "leaky L" "monitor own M0 (pcalls s) = Some (M0 + L + bus_held (bpc s) + ps_owned (pipe s))"
    and agree: "pipe_agree s" using assms(2) by (auto simp: pipe_sys_inv_def)
  note pcs = pipe_moves_pcs [OF assms(1)]
  note st = agree_started [OF agree]
  have "can_move s"
    using st pcs(4) agree dec_inv_safe by (auto simp: can_move_def can_feed_def pipe_agree_def parts_inv_def)
  from pipe_moves_own [OF assms(1) this L(2)]
  have t: "monitor own M0 (pcalls s') = Some (M0 + L + bus_held (bpc s') + ps_owned (pipe s'))" and m: "moved (pipe s) (pipe s')"
    by auto
  have "pipe_agree s'"
    using agree pcs moved_inv [OF m] st(1) unfolding pipe_agree_def main_agree_def stop_or_poll_def
    by (auto simp: moved_fields [OF m] split: main_pc.splits)
  then show ?thesis by (rule pipe_sys_invI [OF _ L(1) t])
qed

text \<open>The steps of \<open>main\<close>.\<close>

lemma pipe_start_inv:
  assumes "real_objects E" and "mpc s = MFree" and "pipe_sys_inv M0 s"
    and run: "run_state (start_pipeline E cfg ms fd (pipe s)) (pcalls s) = ((r, ps), t)"
  shows "pipe_sys_inv M0 (s\<lparr>pipe := ps, pcalls := t, spc := (if r = 0 then SNew else spc s),
      bpc := (if r = 0 then BNew else bpc s)\<rparr>)"
proof (cases "ps_state (pipe s) = PIPELINE_STOPPED")
  case False
  then have "r = -1" "ps = pipe s" "t = pcalls s" using run by (auto simp: start_pipeline_def)
  then show ?thesis using assms(3) by (simp add: pipe_sys_inv_def pipe_agree_def main_agree_def stop_or_poll_def)
next
  case True
  obtain L where L: "leaky L" "monitor own M0 (pcalls s) = Some (M0 + L + bus_held (bpc s) + ps_owned (pipe s))"
    and agree: "pipe_agree s" using assms(3) by (auto simp: pipe_sys_inv_def)
  have none: "spc s = SNone" "bpc s = BNone" using agree True assms(2) by (auto simp: pipe_agree_def main_agree_def)
  have inv: "ps_inv (pipe s)" using agree by (simp add: pipe_agree_def)
  have "wp own (start_pipeline E cfg ms fd (pipe s))
      (\<lambda>x M'. \<exists>L'. ps_inv (snd x) \<and> leaky L' \<and> M' = M0 + L + ps_owned (snd x) + L'
         \<and> (fst x = 0 \<and> ps_state (snd x) = PIPELINE_RUNNING \<or> fst x = -1 \<and> ps_state (snd x) = PIPELINE_STOPPED))
      (M0 + L + ps_owned (pipe s))"
  proof (rule start_pipeline_wp [OF assms(1) inv])
    fix r' :: int and ps' L'
    assume "ps_inv ps'" "leaky L'"
      "r' = 0 \<and> L' = {#} \<and> ps_state ps' = PIPELINE_RUNNING \<or> r' = -1 \<and> ps_state ps' = ps_state (pipe s)"
    then show "\<exists>L''. ps_inv (snd (r', ps')) \<and> leaky L'' \<and> M0 + L + ps_owned ps' + L' = M0 + L + ps_owned (snd (r', ps')) + L''
        \<and> (fst (r', ps') = 0 \<and> ps_state (snd (r', ps')) = PIPELINE_RUNNING
           \<or> fst (r', ps') = -1 \<and> ps_state (snd (r', ps')) = PIPELINE_STOPPED)"
      using True by (intro exI [of _ L']) auto
  qed
  from wp_after [OF this run] L none obtain L' where
    ps: "ps_inv ps" "leaky L'" "monitor own M0 t = Some (M0 + L + ps_owned ps + L')"
      "r = 0 \<and> ps_state ps = PIPELINE_RUNNING \<or> r = -1 \<and> ps_state ps = PIPELINE_STOPPED" by auto
  have "leaky (L + L')" using L(1) ps(2) by simp
  then show ?thesis
  proof (rule pipe_sys_invI [rotated])
    show "pipe_agree (s\<lparr>pipe := ps, pcalls := t, spc := (if r = 0 then SNew else spc s),
        bpc := (if r = 0 then BNew else bpc s)\<rparr>)"
      using ps none assms(2) returnsD [OF start_launches run]
      by (auto simp: pipe_agree_def main_agree_def launched_def ps_inv_def ps_empty_def)
  qed (use ps none in \<open>simp add: ac_simps\<close>)
qed

text \<open>A call of \<open>main\<close> that waits for nobody.\<close>

lemma call_inv:
  assumes "pipe_sys_inv M0 s" and run: "run_state m (pcalls s) = (x, t)"
    and own: "\<And>M. wp own m (\<lambda>x M'. \<exists>L. leaky L \<and> M' = M + L + ps_owned (g x) \<and> P x) (M + ps_owned (pipe s))"
    and agree: "P x \<Longrightarrow> pipe_agree s \<Longrightarrow> pipe_agree s'" and "pcalls s' = t" and "bus_held (bpc s') = bus_held (bpc s)"
    and "pipe s' = g x"
  shows "pipe_sys_inv M0 s'"
proof -
  obtain L where L: "leaky L" "monitor own M0 (pcalls s) = Some (M0 + L + bus_held (bpc s) + ps_owned (pipe s))"
    and "pipe_agree s" using assms(1) by (auto simp: pipe_sys_inv_def)
  from wp_after [OF own run L(2)] obtain L' where
    "leaky L'" "monitor own M0 t = Some (M0 + L + bus_held (bpc s) + L' + ps_owned (g x))" "P x" by auto
  then show ?thesis
    using L(1) agree \<open>pipe_agree s\<close> assms(5-7) by (intro pipe_sys_invI [of _ "L + L'"]) (simp_all add: ac_simps)
qed

lemma stop_begin_inv:
  assumes "mpc s = MFree" and "ps_initialized (pipe s)" and inv: "pipe_sys_inv M0 s"
    and run: "run_state (begin_stop E (pipe s)) (pcalls s) = ((go, ps), t)"
  shows "pipe_sys_inv M0 (s\<lparr>pipe := ps, pcalls := t, mpc := (if go then MJoinSink else MFree)\<rparr>)"
proof -
  have parts: "parts_inv (pipe s)" using inv by (simp add: pipe_sys_inv_def pipe_agree_def ps_inv_def)
  show ?thesis
  proof (rule call_inv [OF inv run, where g = snd and P = "stop_begun (pipe s)"])
    show "wp own (begin_stop E (pipe s)) (\<lambda>x M'. \<exists>L. leaky L \<and> M' = M + L + ps_owned (snd x) \<and> stop_begun (pipe s) x)
        (M + ps_owned (pipe s))" for M
      by (rule wp_mono [OF begin_stop_own [OF parts assms(2)]]) (auto intro: exI [of _ "{#}"])
    show "pipe_agree (s\<lparr>pipe := ps, pcalls := t, mpc := (if go then MJoinSink else MFree)\<rparr>)"
      if "stop_begun (pipe s) (go, ps)" "pipe_agree s"
      using that assms(1,2) by (auto simp: stop_begun_def pipe_agree_def main_agree_def ps_inv_def parts_inv_def split: if_splits)
  qed simp_all
qed

lemma stop_join_sink_inv:
  assumes "mpc s = MJoinSink" and inv: "pipe_sys_inv M0 s"
    and run: "run_state (join_appsink (pipe s)) (pcalls s) = (ps, t)"
  shows "pipe_sys_inv M0 (s\<lparr>pipe := ps, pcalls := t, mpc := MAwaitBus, spc := SNone\<rparr>)"
proof (rule call_inv [OF inv run, where g = id and P = "\<lambda>ps. ps = (pipe s)\<lparr>ps_appsink_thread := 0\<rparr>"])
  show "wp own (join_appsink (pipe s)) (\<lambda>x M'. \<exists>L. leaky L \<and> M' = M + L + ps_owned (id x)
      \<and> x = (pipe s)\<lparr>ps_appsink_thread := 0\<rparr>) (M + ps_owned (pipe s))" for M
    by (rule wp_own_frame [OF join_appsink_own]) (auto simp: ps_owned_def locks_owned_def intro!: exI [of _ "{#}"])
qed (use assms(1) in \<open>auto simp: pipe_agree_def main_agree_def ps_inv_def parts_inv_def\<close>)

lemma stop_await_inv:
  assumes "mpc s = MAwaitBus" and inv: "pipe_sys_inv M0 s"
    and run: "run_state (await_bus E k ms) (pcalls s) = ((), t)"
  shows "pipe_sys_inv M0 (s\<lparr>pcalls := t, mpc := MJoinBus\<rparr>)"
proof (rule call_inv [OF inv run, where g = "\<lambda>_. pipe s" and P = "\<lambda>_. True"])
  have "ps_initialized (pipe s)" using agree_started(2) inv assms(1) by (simp add: pipe_sys_inv_def)
  then obtain N where "ps_owned (pipe s) = N + {#Mutex PsLock, Cond PsCond#}" by (rule locks_split)
  then show "wp own (await_bus E k ms) (\<lambda>x M'. \<exists>L. leaky L \<and> M' = M + L + ps_owned (pipe s) \<and> True)
      (M + ps_owned (pipe s))" for M
    by (intro wp_own_frame [OF await_bus_own]) (auto intro!: exI [of _ "{#}"])
qed (use assms(1) in \<open>auto simp: pipe_agree_def main_agree_def stop_or_poll_def\<close>)

lemma join_bus_inv:
  assumes "mpc s = MJoinBus" and "bpc s = BDone \<or> bpc s = BNone" and inv: "pipe_sys_inv M0 s"
    and run: "run_state (join_bus (pipe s)) (pcalls s) = (ps, t)"
  shows "pipe_sys_inv M0 (s\<lparr>pipe := ps, pcalls := t, mpc := MClean, bpc := BNone\<rparr>)"
proof (rule call_inv [OF inv run, where g = id and P = "\<lambda>ps. ps = (pipe s)\<lparr>ps_bus_thread := 0\<rparr>"])
  show "wp own (join_bus (pipe s)) (\<lambda>x M'. \<exists>L. leaky L \<and> M' = M + L + ps_owned (id x)
      \<and> x = (pipe s)\<lparr>ps_bus_thread := 0\<rparr>) (M + ps_owned (pipe s))" for M
    by (rule wp_own_frame [OF join_bus_own]) (auto simp: ps_owned_def locks_owned_def intro!: exI [of _ "{#}"])
qed (use assms(1,2) in \<open>auto simp: pipe_agree_def main_agree_def stop_or_poll_def ps_inv_def parts_inv_def\<close>)

lemma clean_inv:
  assumes "mpc s = MClean" and "spc s = SDone \<or> spc s = SNone" and inv: "pipe_sys_inv M0 s"
    and run: "run_state (finish_stop E (pipe s)) (pcalls s) = (ps, t)"
  shows "pipe_sys_inv M0 (s\<lparr>pipe := ps, pcalls := t, mpc := MFree, spc := SNone\<rparr>)"
proof (rule call_inv [OF inv run, where g = id and P = all_stopped])
  have "parts_inv (pipe s)" "ps_initialized (pipe s)"
    using agree_started(2,3) inv assms(1) by (simp_all add: pipe_sys_inv_def)
  then show "wp own (finish_stop E (pipe s)) (\<lambda>x M'. \<exists>L. leaky L \<and> M' = M + L + ps_owned (id x) \<and> all_stopped x)
      (M + ps_owned (pipe s))" for M
    by (rule wp_mono [OF finish_stop_own]) (auto intro: exI [of _ "{#}"])
  show "pipe_agree (s\<lparr>pipe := ps, pcalls := t, mpc := MFree, spc := SNone\<rparr>)" if "all_stopped ps" "pipe_agree s"
    using that assms(1) all_stopped_inv [OF that(1)]
    by (auto simp: pipe_agree_def main_agree_def all_stopped_def ps_empty_def)
qed simp_all

lemma poll_inv:
  assumes "mpc s = MFree" and "ps_initialized (pipe s)" and inv: "pipe_sys_inv M0 s"
    and run: "run_state (poll_look E (pipe s)) (pcalls s) = (gone, t)"
  shows "pipe_sys_inv M0 (s\<lparr>pcalls := t, mpc := (if gone then MJoinBus else MFree)\<rparr>)"
proof (rule call_inv [OF inv run, where g = "\<lambda>_. pipe s" and P = "\<lambda>_. True"])
  show "wp own (poll_look E (pipe s)) (\<lambda>x M'. \<exists>L. leaky L \<and> M' = M + L + ps_owned (pipe s) \<and> True)
      (M + ps_owned (pipe s))" for M
    by (rule wp_mono [OF poll_look_own [OF assms(2)]]) (auto intro: exI [of _ "{#}"])
  have "gone \<longrightarrow> ps_bus_thread (pipe s) \<noteq> 0" using run by (auto simp: poll_look_def split: if_splits)
  then show "pipe_agree (s\<lparr>pcalls := t, mpc := (if gone then MJoinBus else MFree)\<rparr>)" if "pipe_agree s"
    using that assms(1) by (cases "ps_state (pipe s)") (auto simp: pipe_agree_def main_agree_def stop_or_poll_def)
qed simp_all

text \<open>The recording calls change the recorder only.\<close>

definition rec_part :: "PipelineState \<Rightarrow> PipelineState \<Rightarrow> bool" where
  "rec_part ps ps' \<longleftrightarrow> ps' = ps\<lparr>ps_recorder := ps_recorder ps'\<rparr>"

lemma enable_recording_part: "returns (enable_recording E c ps) (\<lambda>x. rec_part ps (snd x))"
  unfolding enable_recording_def Let_def
  by (intro returns_if returns_bind_any returns_ret) (auto simp: rec_part_def)

lemma drop_recorder_part: "returns (drop_recorder E ps) (rec_part ps)"
  unfolding drop_recorder_def Let_def by (intro returns_bind_any returns_ret) (auto simp: rec_part_def)

lemma agree_rec:
  assumes "rec_part (pipe s) ps" and "ps_inv ps" and "pipe_agree s"
  shows "pipe_agree (s\<lparr>pipe := ps, pcalls := t\<rparr>)"
proof -
  obtain r where "ps = (pipe s)\<lparr>ps_recorder := r\<rparr>" using assms(1) unfolding rec_part_def by blast
  then show ?thesis
    using assms(2,3) by (auto simp: pipe_agree_def main_agree_def stop_or_poll_def split: main_pc.splits)
qed

lemma recording_inv:
  assumes "ps_state (pipe s) = PIPELINE_RUNNING" and inv: "pipe_sys_inv M0 s"
    and run: "run_state (enable_recording E c (pipe s)) (pcalls s) = ((r, ps), t)"
  shows "pipe_sys_inv M0 (s\<lparr>pipe := ps, pcalls := t\<rparr>)"
proof (rule call_inv [OF inv run, where g = snd and P = "\<lambda>x. ps_inv (snd x)"])
  have "ps_inv (pipe s)" using inv by (simp add: pipe_sys_inv_def pipe_agree_def)
  then show "wp own (enable_recording E c (pipe s)) (\<lambda>x M'. \<exists>L. leaky L \<and> M' = M + L + ps_owned (snd x) \<and> ps_inv (snd x))
      (M + ps_owned (pipe s))" for M
  proof (rule enable_recording_wp [OF _ assms(1)])
    show "\<exists>L'. leaky L' \<and> M + ps_owned ps' + L = M + L' + ps_owned (snd (r, ps')) \<and> ps_inv (snd (r, ps'))"
      if "ps_inv ps'" "leaky L" for r :: int and ps' L
      using that by (intro exI [of _ L]) (simp add: ac_simps)
  qed
  show "pipe_agree (s\<lparr>pipe := ps, pcalls := t\<rparr>)" if "ps_inv (snd (r, ps))" "pipe_agree s"
    using that agree_rec returnsD [OF enable_recording_part run] by simp
qed simp_all

lemma no_recording_inv:
  assumes "ps_state (pipe s) = PIPELINE_RUNNING" and inv: "pipe_sys_inv M0 s"
    and run: "run_state (drop_recorder E (pipe s)) (pcalls s) = (ps, t)"
  shows "pipe_sys_inv M0 (s\<lparr>pipe := ps, pcalls := t\<rparr>)"
proof (rule call_inv [OF inv run, where g = id and P = ps_inv])
  have "ps_inv (pipe s)" "ps_initialized (pipe s)"
    using inv assms(1) by (simp_all add: pipe_sys_inv_def pipe_agree_def ps_inv_def)
  then show "wp own (drop_recorder E (pipe s)) (\<lambda>x M'. \<exists>L. leaky L \<and> M' = M + L + ps_owned (id x) \<and> ps_inv x)
      (M + ps_owned (pipe s))" for M
    by (rule wp_mono [OF disable_recording_keeps]) (auto intro: exI [of _ "{#}"])
  show "pipe_agree (s\<lparr>pipe := ps, pcalls := t\<rparr>)" if "ps_inv ps" "pipe_agree s"
    using that agree_rec returnsD [OF drop_recorder_part run] by simp
qed simp_all

lemma keep_free: "mpc s = MFree \<Longrightarrow> s\<lparr>pipe := ps, pcalls := t, mpc := MFree\<rparr> = s\<lparr>pipe := ps, pcalls := t\<rparr>"
  "mpc s = MFree \<Longrightarrow> s\<lparr>pcalls := t, mpc := MFree\<rparr> = s\<lparr>pcalls := t\<rparr>"
  by (cases s; simp)+

lemma pipe_step_inv:
  assumes "pipe_step E cfg ms fd s s'" and "real_objects E" and "pipe_sys_inv M0 s"
  shows "pipe_sys_inv M0 s'"
  using assms
proof (induction rule: pipe_step.induct)
  case (start s r ps t)
  then show ?case using pipe_start_inv by blast
next
  case (stop_idle s ps t)
  then show ?case using stop_begin_inv [OF stop_idle.hyps(1,2) stop_idle.prems(2) stop_idle.hyps(3)] by (simp add: keep_free)
next
  case (stop_begin s ps t)
  then show ?case using stop_begin_inv [OF stop_begin.hyps(1,2) stop_begin.prems(2) stop_begin.hyps(3)] by simp
next
  case (stop_join_sink s ps t)
  then show ?case using stop_join_sink_inv by blast
next
  case (stop_await_bus s k wait_ms t)
  then show ?case using stop_await_inv by blast
next
  case (stop_no_bus s)
  then show ?case by (auto simp: pipe_sys_inv_def pipe_agree_def main_agree_def)
next
  case (join_bus s ps t)
  then show ?case using join_bus_inv by blast
next
  case (clean s ps t)
  then show ?case using clean_inv by blast
next
  case (poll_stay s t)
  then show ?case using poll_inv [OF poll_stay.hyps(1,2) poll_stay.prems(2) poll_stay.hyps(3)] by (simp add: keep_free)
next
  case (poll_gone s t)
  then show ?case using poll_inv [OF poll_gone.hyps(1,2) poll_gone.prems(2) poll_gone.hyps(3)] by simp
next
  case (recording s c r ps t)
  then show ?case using recording_inv by blast
next
  case (no_recording s ps t)
  then show ?case using no_recording_inv by blast
next
  case (by_pipe s s')
  then show ?case using pipe_moves_inv by blast
qed

text \<open>\<open>PipelineState ps = {0}\<close>, before anything has been called.\<close>

definition pipe_init :: pipe_sys where
  "pipe_init = \<lparr>pipe = zero_pipeline, mpc = MFree, spc = SNone, bpc = BNone, pcalls = []\<rparr>"

lemma pipe_init_inv: "pipe_sys_inv M0 (pipe_init\<lparr>pcalls := []\<rparr>)"
  using zero_empty
  by (intro pipe_sys_invI [of _ "{#}"])
    (simp_all add: pipe_init_def pipe_agree_def main_agree_def ps_empty_def, simp_all add: zero_pipeline_def)

end
