(* ===== verification/Pipeline_Live.thy ===== *)
theory Pipeline_Live
  imports Pipeline_Threads
begin

text \<open>
  What the invariant of \<open>Pipeline\_Threads\<close> gives: safety of every interleaving, that stopping returns, and
  two states in which a poll waits for a thread that has no reason to end.
\<close>

section \<open>How far a stop still has to go\<close>

fun main_rank :: "main_pc \<Rightarrow> nat" where
  "main_rank MJoinSink = 4" | "main_rank MAwaitBus = 3" | "main_rank MJoinBus = 2" | "main_rank MClean = 1" | "main_rank MFree = 0"

fun sink_rank :: "sink_pc \<Rightarrow> nat" where
  "sink_rank SNew = 4" | "sink_rank (STurn _) = 3" | "sink_rank SEnding = 2" | "sink_rank SDone = 1" | "sink_rank SNone = 0"

fun bus_rank :: "bus_pc \<Rightarrow> nat" where
  "bus_rank BNew = 4" | "bus_rank (BTurn _) = 3" | "bus_rank (BEnding _) = 2" | "bus_rank BDone = 1" | "bus_rank BNone = 0"

definition pipe_rank :: "pipe_sys \<Rightarrow> nat" where
  "pipe_rank s = main_rank (mpc s) + sink_rank (spc s) + bus_rank (bpc s)"

lemma bus_turn_stops:
  assumes "run_state (bus_turn (seeing E ps) b ps) t = ((running, ps'), t')" and "ps_stop_requested ps" and running
  shows "length (popped t) < length (popped t')"
  using assms unfolding bus_turn_def handle_message_def seeing_def Let_def
  by (auto split: if_splits prod.splits)

lemma stop_can_step:
  assumes "pipe_agree s" and "ps_state (pipe s) = PIPELINE_STOPPING"
  shows "\<exists>s'. pipe_step E cfg ms fd s s'"
proof -
  have stop: "ps_stop_requested (pipe s)" using assms by (simp add: pipe_agree_def)
  have sink: "\<exists>s'. pipe_step E cfg ms fd s s'" if "spc s \<noteq> SNone" "spc s \<noteq> SDone"
  proof (cases "spc s")
    case SNew
    then show ?thesis using by_pipe sink_begin by (metis surj_pair)
  next
    case (STurn mp)
    obtain turn ps t where run: "run_state (appsink_turn (seeing E (pipe s)) True 0 mp (pipe s)) (pcalls s) = ((turn, ps), t)"
      by (metis surj_pair)
    then have "turn = TurnStop" using returnsD [OF turn_stops [OF stop] run] by simp
    then show ?thesis using by_pipe sink_turn [OF STurn run] by blast
  next
    case SEnding
    then show ?thesis using by_pipe sink_end by (metis surj_pair)
  qed (use that in auto)
  have bus: "\<exists>s'. pipe_step E cfg ms fd s s'" if "bpc s \<noteq> BNone" "bpc s \<noteq> BDone"
    using that by_pipe bus_begin bus_turn bus_end by (cases "bpc s") (metis surj_pair)+
  show ?thesis
  proof (cases "mpc s")
    case MJoinSink
    then show ?thesis using sink stop_join_sink by (metis surj_pair)
  next
    case MAwaitBus
    then have "ps_bus_thread (pipe s) \<noteq> 0" using assms by (auto simp: pipe_agree_def main_agree_def)
    moreover obtain t where "run_state (await_bus (seeing E (pipe s)) 0 0) (pcalls s) = ((), t)" by (metis surj_pair old.unit.exhaust)
    ultimately show ?thesis using stop_await_bus MAwaitBus by blast
  next
    case MJoinBus
    then show ?thesis using bus join_bus by (metis surj_pair)
  next
    case MClean
    then have "spc s = SNone" using assms by (auto simp: pipe_agree_def main_agree_def stop_or_poll_def)
    then show ?thesis using clean MClean by (metis surj_pair)
  next
    case MFree
    then show ?thesis using assms by (simp add: pipe_agree_def main_agree_def)
  qed
qed

lemma stop_step_rank:
  assumes "pipe_step E cfg ms fd s s'" and "pipe_agree s" and "ps_state (pipe s) = PIPELINE_STOPPING"
  shows "pipe_rank s' < pipe_rank s
    \<or> pipe_rank s' = pipe_rank s \<and> length (popped (pcalls s)) < length (popped (pcalls s'))"
proof -
  have stop: "ps_stop_requested (pipe s)" and busy: "mpc s \<noteq> MFree"
    using assms(2,3) by (auto simp: pipe_agree_def main_agree_def)
  from assms(1) show ?thesis
  proof cases
    case by_pipe
    then show ?thesis
    proof cases
      case (sink_turn mp neon n turn ps t)
      then have "turn = TurnStop" using returnsD [OF turn_stops [OF stop]] by fastforce
      then show ?thesis using sink_turn by (simp add: pipe_rank_def)
    next
      case (bus_turn b running ps t)
      then show ?thesis using bus_turn_stops [OF bus_turn(3) stop] by (auto simp: pipe_rank_def)
    qed (auto simp: pipe_rank_def)
  next
    case (stop_join_sink ps t)
    then show ?thesis by (auto simp: pipe_rank_def)
  next
    case stop_no_bus
    then show ?thesis by (auto simp: pipe_rank_def)
  next
    case (join_bus ps t)
    then show ?thesis by (auto simp: pipe_rank_def)
  next
    case (clean ps t)
    then show ?thesis by (auto simp: pipe_rank_def)
  qed (use busy assms(3) in \<open>auto simp: pipe_rank_def\<close>)
qed

lemma pipe_rank_bound: "pipe_rank s \<le> 12"
proof -
  have "main_rank p \<le> 4" "sink_rank q \<le> 4" "bus_rank r \<le> 4" for p q r by (cases p; cases q; cases r; simp)+
  then have "pipe_rank s \<le> 4 + 4 + 4" unfolding pipe_rank_def by (intro add_mono)
  then show ?thesis by simp
qed

text \<open>A stop is on its way, and what can hold it up: a message that the bus thread still takes off the bus.\<close>

definition pipe_stopping :: "pipe_sys \<Rightarrow> bool" where
  "pipe_stopping s \<longleftrightarrow> ps_state (pipe s) = PIPELINE_STOPPING"

definition takes_message :: "pipe_sys \<Rightarrow> pipe_sys \<Rightarrow> bool" where
  "takes_message s s' \<longleftrightarrow> length (popped (pcalls s)) < length (popped (pcalls s'))"

interpretation pipe_wait: waiting_system "pipe_step E cfg ms fd" "\<lambda>s. real_objects E \<and> s = pipe_init"
  "\<lambda>s. real_objects E \<and> pipe_sys_inv {#} s" pipe_stopping pipe_rank takes_message for E cfg ms fd
proof
  show "real_objects E \<and> pipe_sys_inv {#} s" if "real_objects E \<and> s = pipe_init" for s
    using that pipe_init_inv [of "{#}"] by (simp add: pipe_init_def)
  show "real_objects E \<and> pipe_sys_inv {#} s'" if "real_objects E \<and> pipe_sys_inv {#} s" "pipe_step E cfg ms fd s s'" for s s'
    using that pipe_step_inv by blast
  show "\<exists>s'. pipe_step E cfg ms fd s s'" if "real_objects E \<and> pipe_sys_inv {#} s" "pipe_stopping s" for s
    using that stop_can_step by (auto simp: pipe_sys_inv_def pipe_stopping_def)
  show "pipe_rank s' < pipe_rank s \<or> pipe_rank s' = pipe_rank s \<and> takes_message s s'"
    if "real_objects E \<and> pipe_sys_inv {#} s" "pipe_stopping s" "pipe_step E cfg ms fd s s'" for s s'
    using that stop_step_rank [OF that(3)] by (auto simp: pipe_sys_inv_def pipe_stopping_def takes_message_def)
qed

section \<open>Properties\<close>

lemma owned_uses:
  "ps_pipeline ps \<noteq> 0 \<Longrightarrow> Ref (ps_pipeline ps) \<in># ps_owned ps"
  "ps_decoder ps \<noteq> None \<Longrightarrow> Heap VideoDecoderObj \<in># ps_owned ps"
  by (auto simp: ps_owned_def ptr_res_def dec_owned_def split: option.splits)


text \<open>
  \<open>pipeline_stop\<close> returns: from any reachable state on, as long as \<open>main\<close> is inside it the system can take
  a step, and on every run at most twelve steps of the stop are not ones that take a message off the bus.
  So the stop ends as soon as the bus has been emptied, provided that the decoder's call in which the
  appsink thread may be comes back.
\<close>

theorem pipe_stop_returns:
  assumes "real_objects E" and "(pipe_step E cfg ms fd)\<^sup>*\<^sup>* pipe_init s"
  shows "(\<forall>s'. (wait_step (pipe_step E cfg ms fd) pipe_stopping)\<^sup>*\<^sup>* s s' \<and> pipe_stopping s' \<longrightarrow>
            (\<exists>s''. pipe_step E cfg ms fd s' s''))
    \<and> (\<forall>ss. successively (wait_step (pipe_step E cfg ms fd) pipe_stopping) (s # ss) \<longrightarrow>
            turns takes_message (s # ss) \<le> 12)"
proof (intro conjI allI impI)
  have inv: "real_objects E \<and> pipe_sys_inv {#} s"
    using pipe_wait.reachable_inv [OF _ assms(2)] assms(1) by simp
  show "\<exists>s''. pipe_step E cfg ms fd s' s''"
    if "(wait_step (pipe_step E cfg ms fd) pipe_stopping)\<^sup>*\<^sup>* s s' \<and> pipe_stopping s'" for s'
    using pipe_wait.never_stuck [OF inv] that by blast
  show "turns takes_message (s # ss) \<le> 12"
    if "successively (wait_step (pipe_step E cfg ms fd) pipe_stopping) (s # ss)" for ss
    using pipe_wait.turns_bound [OF that inv] pipe_rank_bound [of s] by linarith
qed

section \<open>A pipeline that has been started\<close>

abbreviation plane_step :: "pipe_sys \<Rightarrow> pipe_sys \<Rightarrow> bool" where
  "plane_step \<equiv> pipe_step plane_env cfg_defaults small_modeset 3"

lemma reach_running:
  obtains s where "plane_step\<^sup>*\<^sup>* pipe_init s" "mpc s = MFree" "spc s = SNew" "bpc s = BNew" "launched (pipe s)"
    "ps_state (pipe s) = PIPELINE_RUNNING" "ps_initialized (pipe s)"
proof -
  obtain r ps t where run: "run_state (start_pipeline plane_env cfg_defaults small_modeset 3 (pipe pipe_init)) (pcalls pipe_init) = ((r, ps), t)"
    by (metis surj_pair)
  then have "r = 0"
    using returnsD [OF plane_starts run] by (simp add: pipe_init_def zero_pipeline_def)
  let ?s = "pipe_init\<lparr>pipe := ps, pcalls := t, spc := SNew, bpc := BNew\<rparr>"
  have step: "plane_step pipe_init ?s"
    using start [of pipe_init plane_env cfg_defaults small_modeset 3 r ps t] run \<open>r = 0\<close> by (simp add: pipe_init_def)
  have reach: "plane_step\<^sup>*\<^sup>* pipe_init ?s" using step by blast
  then have agree: "pipe_agree ?s"
    using pipe_wait.reachable_inv [OF _ reach] plane_env_real by (simp add: pipe_sys_inv_def)
  have "ps_state ps = PIPELINE_RUNNING" "ps_initialized ps"
    using agree agree_started(2) [OF agree] by (cases "ps_state ps"; simp add: pipe_agree_def main_agree_def pipe_init_def)+
  moreover have "launched ps" using returnsD [OF start_launches run] \<open>r = 0\<close> by simp
  ultimately show thesis using reach by (intro that [of ?s]) (simp_all add: pipe_init_def)
qed


theorem pipe_stop_returns_witness:
  "\<exists>s s'. pipe_stopping s \<and> mpc s = MJoinSink \<and> spc s = SNew \<and> plane_step s s'
     \<and> turns takes_message [s, s'] \<le> 12"
proof -
  obtain s where s: "plane_step\<^sup>*\<^sup>* pipe_init s" "mpc s = MFree" "spc s = SNew" "ps_initialized (pipe s)"
    "ps_state (pipe s) = PIPELINE_RUNNING" by (rule reach_running)
  obtain go ps t where run: "run_state (begin_stop plane_env (pipe s)) (pcalls s) = ((go, ps), t)" by (metis surj_pair)
  have go: "go" "ps_state ps = PIPELINE_STOPPING"
    using run s(5) by (auto simp: begin_stop_def Let_def split: prod.splits)
  let ?s = "s\<lparr>pipe := ps, pcalls := t, mpc := MJoinSink\<rparr>"
  have "plane_step s ?s" using stop_begin [OF s(2,4)] run go(1) by simp
  with s(1) have "plane_step\<^sup>*\<^sup>* pipe_init ?s" by (rule rtranclp.rtrancl_into_rtrancl)
  note stop = pipe_stop_returns [OF plane_env_real this]
  have "pipe_stopping ?s" using go(2) by (simp add: pipe_stopping_def)
  moreover from this stop obtain s' where "plane_step ?s s'" by blast
  ultimately have "successively (wait_step plane_step pipe_stopping) [?s, s']" by (simp add: wait_step_def)
  then have "turns takes_message [?s, s'] \<le> 12" using stop by blast
  with \<open>pipe_stopping ?s\<close> \<open>plane_step ?s s'\<close> s(3) show ?thesis by (intro exI [of _ ?s] exI [of _ s']) simp
qed

section \<open>Two polls that wait\<close>

text \<open>
  The flag \<open>bus_thread_running\<close> is set by the bus thread itself, so that \<open>pipeline_poll_child\<close> takes a
  thread that has not come that far for one that has ended, and goes to join it.
\<close>

lemma poll_takes_new_thread_for_ended:
  "\<exists>s. plane_step\<^sup>*\<^sup>* pipe_init s \<and> mpc s = MJoinBus \<and> bpc s = BNew
     \<and> ps_state (pipe s) = PIPELINE_RUNNING \<and> \<not> ps_stop_requested (pipe s)"
proof -
  obtain s where s: "plane_step\<^sup>*\<^sup>* pipe_init s" "mpc s = MFree" "bpc s = BNew" "ps_initialized (pipe s)"
    "ps_state (pipe s) = PIPELINE_RUNNING" "launched (pipe s)" by (rule reach_running)
  obtain gone t where run: "run_state (poll_look (seeing plane_env (pipe s)) (pipe s)) (pcalls s) = (gone, t)" by (metis surj_pair)
  then have "gone" using s(6) by (auto simp: poll_look_def seeing_def launched_def)
  then have "plane_step s (s\<lparr>pcalls := t, mpc := MJoinBus\<rparr>)" using poll_gone [OF s(2,4)] run by simp
  with s(1) have "plane_step\<^sup>*\<^sup>* pipe_init (s\<lparr>pcalls := t, mpc := MJoinBus\<rparr>)" by (rule rtranclp.rtrancl_into_rtrancl)
  then show ?thesis using s(3,5,6) by (intro exI [of _ "s\<lparr>pcalls := t, mpc := MJoinBus\<rparr>"]) (simp add: launched_def)
qed

text \<open>
  A bus thread that gets no bus ends without asking for a stop. The cleanup of the poll that notices it then waits for
  the appsink thread, which goes on: \<open>main\<close> never leaves the call.
\<close>

definition stuck :: "pipe_sys \<Rightarrow> bool" where
  "stuck s \<longleftrightarrow> mpc s = MClean \<and> bpc s = BNone \<and> \<not> ps_stop_requested (pipe s) \<and> ps_decoder_running (pipe s)
     \<and> ps_appsink (pipe s) \<noteq> 0 \<and> (spc s = SNew \<or> (\<exists>mp. spc s = STurn mp))"

lemma turn_goes_on:
  "\<not> ps_stop_requested ps \<Longrightarrow> ps_decoder_running ps \<Longrightarrow>
   returns (appsink_turn (seeing E ps) neon n mp ps) (\<lambda>x. fst x \<noteq> TurnStop)"
  unfolding appsink_turn_def seeing_def by (auto intro!: returns_bind_any returns_if returns_ret simp: returns_def split_beta)

lemma stuck_step:
  assumes "pipe_step E cfg ms fd s s'" and "stuck s"
  shows "stuck s'"
  using assms(1)
proof cases
  case by_pipe
  then show ?thesis
  proof cases
    case (sink_begin ps t)
    then have "ps = (pipe s)\<lparr>ps_appsink_thread_running := ps_appsink (pipe s) \<noteq> 0\<rparr>"
      by (auto simp: set_appsink_running_def)
    then show ?thesis using sink_begin assms(2) by (auto simp: stuck_def)
  next
    case (sink_turn mp neon n turn ps t)
    have "turn \<noteq> TurnStop"
      using returnsD [OF turn_goes_on sink_turn(3)] assms(2) by (simp add: stuck_def)
    moreover have "fed_parts (pipe s) ps" using returnsD [OF appsink_turn_parts sink_turn(3)] by simp
    ultimately show ?thesis using sink_turn assms(2) fed_parts_fields [of "pipe s" ps] by (simp add: stuck_def)
  qed (use assms(2) in \<open>auto simp: stuck_def\<close>)
qed (use assms(2) in \<open>auto simp: stuck_def\<close>)

lemma poll_without_bus_hangs:
  "\<exists>s. plane_step\<^sup>*\<^sup>* pipe_init s \<and> (\<forall>s'. plane_step\<^sup>*\<^sup>* s s' \<longrightarrow> mpc s' = MClean)"
proof -
  obtain s where s: "plane_step\<^sup>*\<^sup>* pipe_init s" "mpc s = MFree" "spc s = SNew" "bpc s = BNew" "ps_initialized (pipe s)"
    "launched (pipe s)" by (rule reach_running)
  have none: "e_get_bus (elem plane_env) t p = 0" for t p by (simp add: plane_env_def null_env_def)
  obtain b ps t where run: "run_state (bus_begin plane_env (pipe s)) (pcalls s) = ((b, ps), t)" by (metis surj_pair)
  then have b: "b = 0" "ps = (pipe s)\<lparr>ps_encountered_error := True, ps_bus_thread_running := False\<rparr>"
    by (auto simp: bus_begin_def none Let_def)
  let ?s1 = "s\<lparr>pipe := ps, pcalls := t, bpc := BDone\<rparr>"
  have 1: "plane_step s ?s1"
    using by_pipe [OF bus_begin [OF s(4), of plane_env b ps t]] run b(1) by simp
  obtain gone t2 where look: "run_state (poll_look (seeing plane_env ps) ps) t = (gone, t2)" by (metis surj_pair)
  then have "gone" using s(6) by (auto simp: poll_look_def seeing_def launched_def b(2))
  then have 2: "plane_step ?s1 (?s1\<lparr>pcalls := t2, mpc := MJoinBus\<rparr>)"
    using poll_gone [of ?s1 plane_env t2 cfg_defaults small_modeset 3] look s(2,5) by (simp add: b(2))
  let ?s2 = "?s1\<lparr>pcalls := t2, mpc := MJoinBus\<rparr>"
  obtain ps3 t3 where join: "run_state (join_bus ps) t2 = (ps3, t3)" by (metis surj_pair)
  then have ps3: "ps3 = ps\<lparr>ps_bus_thread := 0\<rparr>" by (auto simp: join_bus_def split: prod.splits)
  let ?s3 = "?s2\<lparr>pipe := ps3, pcalls := t3, mpc := MClean, bpc := BNone\<rparr>"
  have 3: "plane_step ?s2 ?s3" using join_bus [of ?s2 ps3 t3 plane_env cfg_defaults small_modeset 3] join by simp
  have reach: "plane_step\<^sup>*\<^sup>* pipe_init ?s3" using s(1) 1 2 3 by (meson rtranclp.rtrancl_into_rtrancl)
  have stuck: "stuck ?s3" using s(3,6) by (simp add: stuck_def launched_def ps3 b(2))
  have "stuck s'" if "plane_step\<^sup>*\<^sup>* ?s3 s'" for s'
    using that by (induction rule: rtranclp_induct) (use stuck stuck_step in blast)+
  then show ?thesis using reach by (intro exI [of _ ?s3]) (auto simp: stuck_def)
qed

end
