(* ===== verification/Player.thy ===== *)
theory Player
  imports Pipeline_Parts Pipeline_Live
begin

text \<open>
  The whole player as one step relation: \<open>main\<close> with the receiver's thread, the pipeline's two threads and
  the decoder's two, on the structs they share. \<open>main\<close> goes through its calls in the parts of
  \<open>Pipeline\_Parts\<close>, so that the threads a start has made run while it goes on, and a thread may end by
  itself at any time. The moves of the threads are those of \<open>Udp\_Threads\<close>, \<open>Pipeline\_Threads\<close> and
  \<open>Decoder\_Threads\<close>, each on its view of the system.
\<close>

section \<open>The system\<close>

record player =
  pl_ps :: PipelineState
  pl_pos :: main_pos
  pl_recv :: thread_pc
  pl_sink :: sink_pc
  pl_bus :: bus_pc
  pl_frame :: frame_pc
  pl_display :: display_pc
  pl_calls :: trace

text \<open>The views. Where \<open>main\<close> is tells what the owner of a component is doing.\<close>

definition receiver_joined :: "main_pos \<Rightarrow> bool" where
  "receiver_joined p \<longleftrightarrow> p = EndReceiver \<or> (\<exists>why. p = Clean why CEndReceiver)"

fun decoder_owner :: "main_pos \<Rightarrow> dec_owner" where
  "decoder_owner StartDisplay = Starting"
| "decoder_owner UndoFrame = StartFailed"
| "decoder_owner (Clean why (CDrain was_running)) = Draining was_running"
| "decoder_owner (Clean why CFrame) = JoinFrame"
| "decoder_owner (Clean why CDisplay) = JoinDisplay"
| "decoder_owner _ = Free"

definition receiver_view :: "UdpReceiver \<Rightarrow> player \<Rightarrow> udp_sys" where
  "receiver_view ur s = \<lparr>shared = ur, owner = (if receiver_joined (pl_pos s) then Joining else Outside),
     thread = pl_recv s, calls = pl_calls s\<rparr>"

definition decoder_view :: "VideoDecoder \<Rightarrow> player \<Rightarrow> dec_sys" where
  "decoder_view vd s = \<lparr>vdec = vd, downer = decoder_owner (pl_pos s), fpc = pl_frame s, dpc = pl_display s,
     dcalls = pl_calls s\<rparr>"

definition pipe_view :: "player \<Rightarrow> pipe_sys" where
  "pipe_view s = \<lparr>pipe = pl_ps s, mpc = MFree, spc = pl_sink s, bpc = pl_bus s, pcalls = pl_calls s\<rparr>"

text \<open>A part that joins a thread waits for its end.\<close>

definition ready :: "player \<Rightarrow> bool" where
  "ready s \<longleftrightarrow> (case pl_pos s of
       EndReceiver \<Rightarrow> pl_recv s = Exited
     | SinkJoin \<Rightarrow> pl_sink s = SNone \<or> pl_sink s = SDone
     | BusJoin \<Rightarrow> pl_bus s = BNone \<or> pl_bus s = BDone
     | UndoFrame \<Rightarrow> pl_frame s = FDone
     | Clean why c \<Rightarrow> (case c of
           CSink \<Rightarrow> pl_sink s = SNone \<or> pl_sink s = SDone
         | CBus \<Rightarrow> pl_bus s = BNone \<or> pl_bus s = BDone
         | CEndReceiver \<Rightarrow> pl_recv s = Exited
         | CFrame \<Rightarrow> pl_frame s = FNone \<or> pl_frame s = FDone
         | CDisplay \<Rightarrow> pl_display s = DNone \<or> pl_display s = DDone
         | _ \<Rightarrow> True)
     | _ \<Rightarrow> True)"

text \<open>What a part makes, joins or wakes of the threads.\<close>

definition after :: "main_pos \<Rightarrow> trace \<Rightarrow> player \<Rightarrow> player" where
  "after p t s = (case pl_pos s of
       StartReceiver \<Rightarrow> if p = StartPlaying then s\<lparr>pl_recv := Created\<rparr> else s
     | StartFrame \<Rightarrow> if p = StartDisplay then s\<lparr>pl_frame := FNew\<rparr> else s
     | StartDisplay \<Rightarrow> if p = StartSink then s\<lparr>pl_display := DNew\<rparr> else s
     | UndoFrame \<Rightarrow> s\<lparr>pl_frame := FNone\<rparr>
     | StartSink \<Rightarrow> if p = StartBus then s\<lparr>pl_sink := SNew\<rparr> else s
     | StartBus \<Rightarrow> if p = Rest 0 then s\<lparr>pl_bus := BNew\<rparr> else s
     | EndReceiver \<Rightarrow> s\<lparr>pl_recv := NoThread\<rparr>
     | SinkJoin \<Rightarrow> s\<lparr>pl_sink := SNone\<rparr>
     | BusJoin \<Rightarrow> s\<lparr>pl_bus := BNone\<rparr>
     | Clean why c \<Rightarrow> (case c of
           CSink \<Rightarrow> s\<lparr>pl_sink := SNone\<rparr>
         | CBus \<Rightarrow> s\<lparr>pl_bus := BNone\<rparr>
         | CEndReceiver \<Rightarrow> s\<lparr>pl_recv := NoThread\<rparr>
         | CDecoder \<Rightarrow> s\<lparr>pl_display := woken (pl_calls s) t (pl_display s)\<rparr>
         | CFrame \<Rightarrow> s\<lparr>pl_frame := FNone\<rparr>
         | CDisplay \<Rightarrow> s\<lparr>pl_display := DNone\<rparr>
         | _ \<Rightarrow> s)
     | _ \<Rightarrow> s)"

definition resting :: "main_pos \<Rightarrow> bool" where
  "resting p \<longleftrightarrow> (\<exists>r. p = Rest r)"

inductive player_step :: "env \<Rightarrow> AppCfg \<Rightarrow> ModesetResult \<Rightarrow> int \<Rightarrow> player \<Rightarrow> player \<Rightarrow> bool" for E cfg ms fd where
  call_start: "resting (pl_pos s) \<Longrightarrow> ps_state (pl_ps s) = PIPELINE_STOPPED \<Longrightarrow>
     run_state (begin_start E cfg (pl_ps s)) (pl_calls s) = ((ok, ps), t) \<Longrightarrow>
     player_step E cfg ms fd s (s\<lparr>pl_ps := ps, pl_calls := t, pl_pos := (if ok then StartReceiver else Clean Undo CSink)\<rparr>)"
| call_stop: "resting (pl_pos s) \<Longrightarrow> ps_initialized (pl_ps s) \<Longrightarrow>
     run_state (stop_notice E (pl_ps s)) (pl_calls s) = ((go, ps), t) \<Longrightarrow>
     player_step E cfg ms fd s (s\<lparr>pl_ps := ps, pl_calls := t, pl_pos := (if go then StopReceiver else Rest 0)\<rparr>)"
| call_poll: "resting (pl_pos s) \<Longrightarrow> ps_initialized (pl_ps s) \<Longrightarrow>
     run_state (poll_look (seeing E (pl_ps s)) (pl_ps s)) (pl_calls s) = (gone, t) \<Longrightarrow>
     player_step E cfg ms fd s (s\<lparr>pl_calls := t, pl_pos := (if gone then BusJoin else Rest 0)\<rparr>)"
| call_record: "resting (pl_pos s) \<Longrightarrow> ps_state (pl_ps s) = PIPELINE_RUNNING \<Longrightarrow>
     run_state (enable_recording E c (pl_ps s)) (pl_calls s) = ((r, ps), t) \<Longrightarrow>
     player_step E cfg ms fd s (s\<lparr>pl_ps := ps, pl_calls := t\<rparr>)"
| call_no_record: "resting (pl_pos s) \<Longrightarrow> ps_state (pl_ps s) = PIPELINE_RUNNING \<Longrightarrow>
     run_state (drop_recorder E (pl_ps s)) (pl_calls s) = (ps, t) \<Longrightarrow>
     player_step E cfg ms fd s (s\<lparr>pl_ps := ps, pl_calls := t\<rparr>)"
| main_part: "\<not> resting (pl_pos s) \<Longrightarrow> ready s \<Longrightarrow>
     run_state (main_part (seeing E (pl_ps s)) cfg ms fd k wait_ms (pl_pos s) (pl_ps s)) (pl_calls s) = ((p, ps), t) \<Longrightarrow>
     player_step E cfg ms fd s ((after p t s)\<lparr>pl_ps := ps, pl_pos := p, pl_calls := t\<rparr>)"
| receiver_thread: "ps_udp_receiver (pl_ps s) = Some ur \<Longrightarrow> receiver_moves E (receiver_view ur s) v \<Longrightarrow>
     player_step E cfg ms fd s (s\<lparr>pl_ps := (pl_ps s)\<lparr>ps_udp_receiver := Some (shared v)\<rparr>, pl_recv := thread v,
       pl_calls := calls v\<rparr>)"
| pipe_thread: "pipe_moves E (pipe_view s) v \<Longrightarrow>
     player_step E cfg ms fd s (s\<lparr>pl_ps := pipe v, pl_sink := spc v, pl_bus := bpc v, pl_calls := pcalls v\<rparr>)"
| decoder_thread: "ps_decoder (pl_ps s) = Some vd \<Longrightarrow> decoder_moves E (decoder_view vd s) v \<Longrightarrow>
     player_step E cfg ms fd s (s\<lparr>pl_ps := (pl_ps s)\<lparr>ps_decoder := Some (vdec v)\<rparr>, pl_frame := fpc v,
       pl_display := dpc v, pl_calls := dcalls v\<rparr>)"

text \<open>\<open>PipelineState ps = {0}\<close>, before anything has been called.\<close>

definition player_init :: player where
  "player_init = \<lparr>pl_ps = zero_pipeline, pl_pos = Rest 0, pl_recv = NoThread, pl_sink = SNone, pl_bus = BNone,
     pl_frame = FNone, pl_display = DNone, pl_calls = []\<rparr>"

section \<open>The invariant\<close>

text \<open>What the threads hold apart from the structs.\<close>

definition held_by :: "player \<Rightarrow> resource multiset" where
  "held_by s = bus_held (pl_bus s) + buf_owned (pl_recv s)"

definition receiver_ok :: "player \<Rightarrow> bool" where
  "receiver_ok s \<longleftrightarrow> (case ps_udp_receiver (pl_ps s) of
       None \<Rightarrow> pl_recv s = NoThread
     | Some ur \<Rightarrow> sys_agree (receiver_view ur s))"

definition decoder_ok :: "player \<Rightarrow> bool" where
  "decoder_ok s \<longleftrightarrow> (case ps_decoder (pl_ps s) of
       None \<Rightarrow> pl_frame s = FNone \<and> pl_display s = DNone
     | Some vd \<Rightarrow> dec_agree (decoder_view vd s) \<and> core_inv vd
         \<and> (vd_initialized vd \<or> pl_frame s = FNone \<and> pl_display s = DNone))
   \<and> (ps_decoder_running (pl_ps s) \<or> pl_pos s = StartDisplay \<or> pl_pos s = UndoFrame \<or> pl_frame s = FNone \<and> pl_display s = DNone)"

definition opened :: "PipelineState \<Rightarrow> bool" where
  "opened ps \<longleftrightarrow> (\<exists>vd. ps_decoder ps = Some vd \<and> vd_initialized vd)"

definition pipe_ok :: "player \<Rightarrow> bool" where
  "pipe_ok s \<longleftrightarrow>
     (pl_sink s = SNone \<longleftrightarrow> ps_appsink_thread (pl_ps s) = 0) \<and> (pl_bus s = BNone \<longleftrightarrow> ps_bus_thread (pl_ps s) = 0)
   \<and> (pl_sink s \<noteq> SNone \<longrightarrow> ps_pipeline (pl_ps s) \<noteq> 0 \<and> ps_decoder (pl_ps s) \<noteq> None \<and> ps_initialized (pl_ps s))
   \<and> (pl_bus s \<noteq> BNone \<longrightarrow> ps_pipeline (pl_ps s) \<noteq> 0 \<and> ps_initialized (pl_ps s))
   \<and> pl_bus s \<noteq> BTurn 0 \<and> pl_bus s \<noteq> BEnding 0
   \<and> rec_inv (ps_recorder (pl_ps s)) \<and> (ps_decoder_running (pl_ps s) \<longrightarrow> opened (pl_ps s))
   \<and> (ps_state (pl_ps s) = PIPELINE_STOPPING \<longrightarrow> ps_stop_requested (pl_ps s))"

text \<open>What is there while \<open>main\<close> is in a start, a stop or the cleanup.\<close>

definition starting :: "player \<Rightarrow> bool" where
  "starting s \<longleftrightarrow> ps_state (pl_ps s) = PIPELINE_STOPPED \<and> ps_initialized (pl_ps s) \<and> ps_pipeline (pl_ps s) \<noteq> 0
     \<and> pl_bus s = BNone"

definition stops :: "player \<Rightarrow> bool" where
  "stops s \<longleftrightarrow> ps_state (pl_ps s) = PIPELINE_STOPPING \<and> ps_initialized (pl_ps s)"

fun clean_rank :: "clean_pos \<Rightarrow> nat" where
  "clean_rank CSink = 12" | "clean_rank CBus = 11" | "clean_rank CReceiver = 10" | "clean_rank CEndReceiver = 9"
| "clean_rank CFreeReceiver = 8" | "clean_rank CGst = 7" | "clean_rank CDecoder = 6" | "clean_rank (CDrain w) = 5"
| "clean_rank CFrame = 4" | "clean_rank CDisplay = 3" | "clean_rank CDiscard = 2" | "clean_rank CRecorder = 1"

definition cleaning :: "reason \<Rightarrow> clean_pos \<Rightarrow> player \<Rightarrow> bool" where
  "cleaning why c s \<longleftrightarrow> ps_initialized (pl_ps s) \<and> (why = Undo \<longleftrightarrow> ps_state (pl_ps s) = PIPELINE_STOPPED)
     \<and> (clean_rank c < 12 \<longrightarrow> pl_sink s = SNone) \<and> (clean_rank c < 11 \<longrightarrow> pl_bus s = BNone)
     \<and> (c = CEndReceiver \<longrightarrow> ps_udp_receiver (pl_ps s) \<noteq> None) \<and> (c = CFreeReceiver \<longrightarrow> pl_recv s = NoThread)
     \<and> (clean_rank c < 8 \<longrightarrow> ps_udp_receiver (pl_ps s) = None) \<and> (clean_rank c < 7 \<longrightarrow> ps_pipeline (pl_ps s) = 0)
     \<and> (2 < clean_rank c \<and> clean_rank c < 6 \<longrightarrow> ps_decoder_running (pl_ps s))
     \<and> (c = CDiscard \<longrightarrow> pl_frame s = FNone \<and> pl_display s = DNone)
     \<and> (c = CRecorder \<longrightarrow> ps_decoder (pl_ps s) = None \<and> \<not> ps_decoder_running (pl_ps s))"

definition place_ok :: "player \<Rightarrow> bool" where
  "place_ok s \<longleftrightarrow> (case pl_pos s of
       Rest r \<Rightarrow> ps_state (pl_ps s) \<noteq> PIPELINE_STOPPING \<and> (ps_state (pl_ps s) = PIPELINE_RUNNING \<longrightarrow> ps_initialized (pl_ps s))
         \<and> (ps_state (pl_ps s) = PIPELINE_STOPPED \<longrightarrow> ps_empty (pl_ps s) \<and> \<not> ps_decoder_running (pl_ps s))
     | StartReceiver \<Rightarrow> starting s \<and> pl_sink s = SNone \<and> ps_decoder (pl_ps s) = None \<and> \<not> ps_decoder_running (pl_ps s)
         \<and> pl_recv s = NoThread
     | StartPlaying \<Rightarrow> starting s \<and> pl_sink s = SNone \<and> ps_decoder (pl_ps s) = None \<and> \<not> ps_decoder_running (pl_ps s)
     | OpenDecoder \<Rightarrow> starting s \<and> pl_sink s = SNone \<and> ps_decoder (pl_ps s) = None \<and> \<not> ps_decoder_running (pl_ps s)
     | StartFrame \<Rightarrow> starting s \<and> pl_sink s = SNone \<and> opened (pl_ps s) \<and> \<not> ps_decoder_running (pl_ps s)
     | StartDisplay \<Rightarrow> starting s \<and> pl_sink s = SNone \<and> opened (pl_ps s) \<and> \<not> ps_decoder_running (pl_ps s)
     | UndoFrame \<Rightarrow> starting s \<and> pl_sink s = SNone \<and> opened (pl_ps s) \<and> \<not> ps_decoder_running (pl_ps s)
     | StartSink \<Rightarrow> starting s \<and> pl_sink s = SNone \<and> ps_decoder_running (pl_ps s)
     | StartBus \<Rightarrow> starting s \<and> ps_decoder_running (pl_ps s)
     | StopReceiver \<Rightarrow> stops s
     | EndReceiver \<Rightarrow> stops s \<and> ps_udp_receiver (pl_ps s) \<noteq> None
     | SinkJoin \<Rightarrow> stops s
     | BusAwait \<Rightarrow> stops s \<and> pl_sink s = SNone
     | BusJoin \<Rightarrow> ps_initialized (pl_ps s) \<and> ps_state (pl_ps s) \<noteq> PIPELINE_STOPPED
     | Clean why c \<Rightarrow> cleaning why c s)"

definition player_ok :: "player \<Rightarrow> bool" where
  "player_ok s \<longleftrightarrow> receiver_ok s \<and> decoder_ok s \<and> pipe_ok s \<and> place_ok s"

definition player_inv :: "player \<Rightarrow> bool" where
  "player_inv s \<longleftrightarrow> player_ok s
     \<and> (\<exists>L. leaky L \<and> monitor own {#} (pl_calls s) = Some (L + held_by s + ps_owned (pl_ps s)))"

lemma player_invI:
  assumes "player_ok s" and "leaky L" and "monitor own {#} (pl_calls s) = Some (L + held_by s + ps_owned (pl_ps s))"
  shows "player_inv s"
  using assms unfolding player_inv_def by blast

lemma player_init_inv: "player_inv player_init"
  using zero_empty
  by (intro player_invI [of _ "{#}"])
    (simp_all add: player_init_def player_ok_def receiver_ok_def decoder_ok_def pipe_ok_def place_ok_def held_by_def
      buf_owned_def, simp_all add: zero_pipeline_def rec_inv_def)

end
