(* ===== verification/Player_Inv.thy ===== *)
theory Player_Inv
  imports Player
begin

text \<open>
  Every step of the player keeps its invariant. The steps of the receiver and of the decoder, those of
  their threads and those that \<open>main\<close> makes for them, are steps of \<open>Udp\_Threads\<close> and \<open>Decoder\_Threads\<close> on
  the component's view, so their invariants carry over; the rest are the pipeline's own.
\<close>

section \<open>Parts\<close>

lemma receiver_part:
  "ps_udp_receiver ps = Some ur \<Longrightarrow> ps_owned ps = ps_owned (ps\<lparr>ps_udp_receiver := None\<rparr>) + ur_owned ur"
  "ps_owned (ps\<lparr>ps_udp_receiver := Some ur\<rparr>) = ps_owned (ps\<lparr>ps_udp_receiver := None\<rparr>) + ur_owned ur"
  by (simp_all add: ps_owned_def locks_owned_def opt_owned_def)

lemma decoder_part:
  "ps_decoder ps = Some vd \<Longrightarrow> ps_owned ps = ps_owned (ps\<lparr>ps_decoder := None\<rparr>) + {#Heap VideoDecoderObj#} + vd_owned vd"
  "ps_owned (ps\<lparr>ps_decoder := Some vd\<rparr>) = ps_owned (ps\<lparr>ps_decoder := None\<rparr>) + {#Heap VideoDecoderObj#} + vd_owned vd"
  "ps_owned (ps\<lparr>ps_decoder_running := b\<rparr>) = ps_owned ps"
  by (simp_all add: ps_owned_def locks_owned_def dec_owned_def)

lemma receiver_moves_owner: "receiver_moves E u v \<Longrightarrow> owner v = owner u"
  by (cases rule: receiver_moves.cases) auto

lemma decoder_moves_owner: "decoder_moves E u v \<Longrightarrow> downer v = downer u"
  by (cases rule: decoder_moves.cases) auto

text \<open>A component stays as it is when nothing of its view changes but the trace.\<close>

lemma owner_places: "decoder_owner p = Starting \<longleftrightarrow> p = StartDisplay" "decoder_owner p = StartFailed \<longleftrightarrow> p = UndoFrame"
  by (induction p rule: decoder_owner.induct) simp_all

lemma agree_calls:
  "sys_agree \<lparr>shared = ur, owner = q, thread = h, calls = t\<rparr> = sys_agree \<lparr>shared = ur, owner = q, thread = h, calls = t'\<rparr>"
  "dec_agree \<lparr>vdec = vd\<lparr>vd_packet_buf := b\<rparr>, downer = w, fpc = f, dpc = d, dcalls = t\<rparr>
     = dec_agree \<lparr>vdec = vd, downer = w, fpc = f, dpc = d, dcalls = t'\<rparr>"
  by (simp add: sys_agree_def) (cases w; simp add: dec_agree_def)

lemma receiver_kept:
  assumes "receiver_ok s" and "ps_udp_receiver (pl_ps s') = ps_udp_receiver (pl_ps s)" and "pl_recv s' = pl_recv s"
    and "receiver_joined (pl_pos s') = receiver_joined (pl_pos s)"
  shows "receiver_ok s'"
  using assms agree_calls(1) [where t = "pl_calls s" and t' = "pl_calls s'"]
  by (simp add: receiver_ok_def receiver_view_def split: option.splits if_splits)

lemma decoder_agrees:
  assumes "dec_agree (decoder_view vd s)" and "pl_frame s' = pl_frame s" and "pl_display s' = pl_display s"
    and "decoder_owner (pl_pos s') = decoder_owner (pl_pos s)"
  shows "dec_agree (decoder_view (vd\<lparr>vd_packet_buf := b\<rparr>) s')"
  using assms agree_calls(2) [where t = "pl_calls s'" and t' = "pl_calls s"] by (simp add: decoder_view_def)

lemma fed_dec_some:
  assumes "fed_dec (Some vd) p"
  obtains b where "p = Some (vd\<lparr>vd_packet_buf := b\<rparr>)" "core_inv vd \<Longrightarrow> core_inv (vd\<lparr>vd_packet_buf := b\<rparr>)"
proof (cases "p = Some vd")
  case True
  then show ?thesis using that [of "vd_packet_buf vd"] by simp
next
  case False
  then show ?thesis using assms that core_inv_packet_buf unfolding fed_dec_def by blast
qed

lemma decoder_kept:
  assumes "decoder_ok s" and "fed_dec (ps_decoder (pl_ps s)) (ps_decoder (pl_ps s'))"
    and "ps_decoder_running (pl_ps s') = ps_decoder_running (pl_ps s)" and "pl_frame s' = pl_frame s"
    and "pl_display s' = pl_display s" and "decoder_owner (pl_pos s') = decoder_owner (pl_pos s)"
  shows "decoder_ok s'"
proof (cases "ps_decoder (pl_ps s)")
  case None
  then show ?thesis using assms by (auto simp: decoder_ok_def fed_dec_def simp flip: owner_places)
next
  case (Some vd)
  have core: "core_inv vd" "dec_agree (decoder_view vd s)" using assms(1) Some by (auto simp: decoder_ok_def)
  obtain b where b: "ps_decoder (pl_ps s') = Some (vd\<lparr>vd_packet_buf := b\<rparr>)" "core_inv (vd\<lparr>vd_packet_buf := b\<rparr>)"
    using fed_dec_some [OF assms(2) [unfolded Some]] core(1) by blast
  have "dec_agree (decoder_view (vd\<lparr>vd_packet_buf := b\<rparr>) s')"
    by (rule decoder_agrees [OF core(2) assms(4-6)])
  then show ?thesis using assms(1,3-6) Some b by (simp add: decoder_ok_def flip: owner_places)
qed

lemma fed_dec_opened: "fed_dec (ps_decoder ps) (ps_decoder ps') \<Longrightarrow> opened ps \<Longrightarrow> opened ps'"
  by (auto simp: fed_dec_def opened_def)

lemma fed_dec_refl [simp]: "fed_dec p p"
  by (simp add: fed_dec_def)

text \<open>A step of the receiver's system, by its thread or by \<open>main\<close>.\<close>

lemma receiver_step_inv:
  assumes inv: "player_inv s" and ur: "ps_udp_receiver (pl_ps s) = Some ur" and step: "udp_step E (receiver_view ur s) v"
    and ps: "pl_ps s' = (pl_ps s)\<lparr>ps_udp_receiver := Some (shared v)\<rparr>" and v: "receiver_view (shared v) s' = v"
    and "pl_bus s' = pl_bus s" and ok: "player_ok s \<Longrightarrow> decoder_ok s' \<and> pipe_ok s' \<and> place_ok s'"
  shows "player_inv s'"
proof -
  obtain L where L: "leaky L" "monitor own {#} (pl_calls s) = Some (L + held_by s + ps_owned (pl_ps s))"
    and "player_ok s" using inv by (auto simp: player_inv_def)
  let ?M = "L + bus_held (pl_bus s) + ps_owned ((pl_ps s)\<lparr>ps_udp_receiver := None\<rparr>)"
  have "sys_inv {#} ?M (receiver_view ur s)"
    using L(2) \<open>player_ok s\<close> ur
    by (simp add: sys_inv_def player_ok_def receiver_ok_def held_by_def sys_owned_def buf_owned_def receiver_part(1) [OF ur]
        receiver_view_def ac_simps)
  from udp_step_inv [OF step this]
  have v': "sys_agree v" "monitor own {#} (calls v) = Some (?M + sys_owned v)" by (auto simp: sys_inv_def)
  have "calls v = pl_calls s'" "thread v = pl_recv s'"
    using arg_cong [OF v, of calls] arg_cong [OF v, of thread] by (simp_all add: receiver_view_def)
  then have "monitor own {#} (pl_calls s') = Some (L + held_by s' + ps_owned (pl_ps s'))"
    using v'(2) assms(6) by (simp add: ps receiver_part held_by_def sys_owned_def buf_owned_def ac_simps)
  moreover have "receiver_ok s'" using v'(1) by (simp add: receiver_ok_def ps v)
  ultimately show ?thesis using L(1) ok \<open>player_ok s\<close> by (intro player_invI) (simp_all add: player_ok_def)
qed

text \<open>A step of the decoder's system.\<close>

lemma decoder_step_inv:
  assumes inv: "player_inv s" and real: "real_objects E" and vd: "ps_decoder (pl_ps s) = Some vd" "vd_initialized vd"
    and step: "dec_step E (decoder_view vd s) v"
    and ps: "pl_ps s' = (pl_ps s)\<lparr>ps_decoder := Some (vdec v), ps_decoder_running := r\<rparr>" and v: "decoder_view (vdec v) s' = v"
    and held: "held_by s' = held_by s"
    and ok: "player_ok s \<Longrightarrow> vd_initialized (vdec v) \<Longrightarrow> dec_agree v \<Longrightarrow> receiver_ok s' \<and> pipe_ok s' \<and> place_ok s'
      \<and> (r \<or> pl_pos s' = StartDisplay \<or> pl_pos s' = UndoFrame \<or> pl_frame s' = FNone \<and> pl_display s' = DNone)"
  shows "player_inv s'"
proof -
  obtain L where L: "leaky L" "monitor own {#} (pl_calls s) = Some (L + held_by s + ps_owned (pl_ps s))"
    and "player_ok s" using inv by (auto simp: player_inv_def)
  let ?M = "L + held_by s + ps_owned ((pl_ps s)\<lparr>ps_decoder := None\<rparr>) + {#Heap VideoDecoderObj#}"
  have "dec_sys_inv {#} ?M (decoder_view vd s)"
    using L(2) \<open>player_ok s\<close> vd
    by (simp add: dec_sys_inv_def player_ok_def decoder_ok_def decoder_part(1) [OF vd(1)] decoder_view_def ac_simps)
  from dec_step_inv [OF step real this]
  have v': "dec_agree v" "core_inv (vdec v)" "vd_initialized (vdec v)"
    "monitor own {#} (dcalls v) = Some (?M + vd_owned (vdec v))" by (auto simp: dec_sys_inv_def)
  have "dcalls v = pl_calls s'" using arg_cong [OF v, of dcalls] by (simp add: decoder_view_def)
  then have "monitor own {#} (pl_calls s') = Some (L + held_by s' + ps_owned (pl_ps s'))"
    using v'(4) by (simp add: ps decoder_part held ac_simps)
  moreover have "decoder_ok s'" using v' ok [OF \<open>player_ok s\<close> v'(3,1)] by (simp add: decoder_ok_def ps v)
  ultimately show ?thesis using L(1) ok [OF \<open>player_ok s\<close> v'(3,1)] by (intro player_invI) (simp_all add: player_ok_def)
qed

section \<open>The threads\<close>

text \<open>A thread's move does not bring \<open>main\<close> to another place, nor does it make or end what \<open>main\<close> counts on there.\<close>

lemma place_kept:
  assumes "place_ok s" and "pl_pos s' = pl_pos s" and "ps_state (pl_ps s') = ps_state (pl_ps s)"
    and "ps_initialized (pl_ps s') = ps_initialized (pl_ps s)" and "ps_pipeline (pl_ps s') = ps_pipeline (pl_ps s)"
    and "ps_decoder_running (pl_ps s') = ps_decoder_running (pl_ps s)"
    and "ps_decoder (pl_ps s') = None \<longleftrightarrow> ps_decoder (pl_ps s) = None" and "opened (pl_ps s) \<longrightarrow> opened (pl_ps s')"
    and "ps_udp_receiver (pl_ps s') = None \<longleftrightarrow> ps_udp_receiver (pl_ps s) = None"
    and "pl_sink s' = SNone \<longleftrightarrow> pl_sink s = SNone" and "pl_bus s' = BNone \<longleftrightarrow> pl_bus s = BNone"
    and "pl_recv s' = NoThread \<longleftrightarrow> pl_recv s = NoThread"
    and "pl_frame s' = FNone \<and> pl_display s' = DNone \<longleftrightarrow> pl_frame s = FNone \<and> pl_display s = DNone"
    and "\<not> ps_empty (pl_ps s)"
  shows "place_ok s'"
  using assms unfolding place_ok_def starting_def stops_def
  by (cases "pl_pos s"; simp add: cleaning_def)

lemma receiver_thread_inv:
  assumes inv: "player_inv s" and ur: "ps_udp_receiver (pl_ps s) = Some ur" and "receiver_moves E (receiver_view ur s) v"
  shows "player_inv (s\<lparr>pl_ps := (pl_ps s)\<lparr>ps_udp_receiver := Some (shared v)\<rparr>, pl_recv := thread v, pl_calls := calls v\<rparr>)"
proof (rule receiver_step_inv [OF inv ur by_receiver [OF assms(3)]])
  let ?s = "s\<lparr>pl_ps := (pl_ps s)\<lparr>ps_udp_receiver := Some (shared v)\<rparr>, pl_recv := thread v, pl_calls := calls v\<rparr>"
  show "receiver_view (shared v) ?s = v"
    using receiver_moves_owner [OF assms(3)] by (simp add: receiver_view_def)
  have "thread v \<noteq> NoThread" "pl_recv s \<noteq> NoThread" using assms(3) by (cases; auto simp: receiver_view_def)+
  then show "decoder_ok ?s \<and> pipe_ok ?s \<and> place_ok ?s" if "player_ok s"
    using that ur place_kept [of s ?s] decoder_kept [of s ?s]
    by (simp add: player_ok_def pipe_ok_def opened_def ps_empty_def)
qed simp_all

lemma decoder_moves_pcs:
  assumes "decoder_moves E u v"
  shows "fpc u \<noteq> FNone \<or> dpc u \<noteq> DNone" "fpc v = FNone \<longleftrightarrow> fpc u = FNone" "dpc v = DNone \<longleftrightarrow> dpc u = DNone"
  using assms by (cases; auto simp: display_pc_after_def split: display_next.splits if_splits)+

lemma decoder_thread_inv:
  assumes inv: "player_inv s" and real: "real_objects E" and vd: "ps_decoder (pl_ps s) = Some vd"
    and moves: "decoder_moves E (decoder_view vd s) v"
  shows "player_inv (s\<lparr>pl_ps := (pl_ps s)\<lparr>ps_decoder := Some (vdec v)\<rparr>, pl_frame := fpc v, pl_display := dpc v, pl_calls := dcalls v\<rparr>)"
proof (rule decoder_step_inv [OF inv real vd _ by_decoder [OF moves], where r = "ps_decoder_running (pl_ps s)"])
  let ?s = "s\<lparr>pl_ps := (pl_ps s)\<lparr>ps_decoder := Some (vdec v)\<rparr>, pl_frame := fpc v, pl_display := dpc v, pl_calls := dcalls v\<rparr>"
  note pcs = decoder_moves_pcs [OF moves]
  show "vd_initialized vd"
    using inv vd pcs(1) by (auto simp: player_inv_def player_ok_def decoder_ok_def decoder_view_def)
  show "decoder_view (vdec v) ?s = v"
    using decoder_moves_owner [OF moves] by (simp add: decoder_view_def)
  show "receiver_ok ?s \<and> pipe_ok ?s \<and> place_ok ?s
      \<and> (ps_decoder_running (pl_ps s) \<or> pl_pos ?s = StartDisplay \<or> pl_pos ?s = UndoFrame \<or> pl_frame ?s = FNone \<and> pl_display ?s = DNone)"
    if "player_ok s" "vd_initialized (vdec v)"
    using that vd place_kept [of s ?s] receiver_kept [of s ?s] pcs
    by (auto simp: player_ok_def decoder_ok_def decoder_view_def pipe_ok_def opened_def ps_empty_def)
qed (simp_all add: held_by_def)

text \<open>The pipeline's threads feed the recorder and the decoder.\<close>

lemma pipe_thread_inv:
  assumes inv: "player_inv s" and moves: "pipe_moves E (pipe_view s) v"
  shows "player_inv (s\<lparr>pl_ps := pipe v, pl_sink := spc v, pl_bus := bpc v, pl_calls := pcalls v\<rparr>)"
proof -
  let ?s = "s\<lparr>pl_ps := pipe v, pl_sink := spc v, pl_bus := bpc v, pl_calls := pcalls v\<rparr>"
  obtain L where L: "leaky L" "monitor own {#} (pl_calls s) = Some (L + held_by s + ps_owned (pl_ps s))"
    and ok: "player_ok s" using inv by (auto simp: player_inv_def)
  note pcs = pipe_moves_pcs [OF moves]
  have some: "pl_sink s \<noteq> SNone \<or> pl_bus s \<noteq> BNone" using pcs(4) by (simp add: pipe_view_def)
  have safe: "dec_safe (ps_decoder (pl_ps s))"
    using ok by (auto simp: player_ok_def decoder_ok_def dec_safe_def vd_inv_def dec_agree_def decoder_view_def split: option.splits)
  then have "can_move (pipe_view s)"
    using ok some by (auto simp: can_move_def can_feed_def pipe_view_def player_ok_def pipe_ok_def)
  moreover have "monitor own {#} (pcalls (pipe_view s))
      = Some (L + buf_owned (pl_recv s) + bus_held (bpc (pipe_view s)) + ps_owned (pipe (pipe_view s)))"
    using L(2) by (simp add: pipe_view_def held_by_def ac_simps)
  ultimately have t: "monitor own {#} (pcalls v) = Some (L + buf_owned (pl_recv s) + bus_held (bpc v) + ps_owned (pipe v))"
    and m: "moved (pl_ps s) (pipe v)"
    using pipe_moves_own [OF moves] by (auto simp: pipe_view_def)
  note f = moved_fields [OF m]
  have parts: "receiver_ok s" "decoder_ok s" "pipe_ok s" "place_ok s" using ok by (simp_all add: player_ok_def)
  have "decoder_ok ?s" by (rule decoder_kept [OF parts(2)]) (simp_all add: f(6,11))
  moreover have "receiver_ok ?s" by (rule receiver_kept [OF parts(1)]) (simp_all add: f(10))
  moreover have "pipe_ok ?s"
    using parts(3) pcs(2,3,5) fed_dec_opened [OF f(11)] by (simp add: pipe_ok_def pipe_view_def f)
  moreover have "place_ok ?s"
  proof (rule place_kept [OF parts(4)])
    show "\<not> ps_empty (pl_ps s)" using parts(3) some by (auto simp: pipe_ok_def ps_empty_def)
  qed (use pcs(2,3) fed_dec_opened [OF f(11)] in \<open>simp_all add: f pipe_view_def\<close>)
  ultimately show ?thesis
    by (intro player_invI [OF _ L(1)]) (use t in \<open>simp_all add: player_ok_def held_by_def ac_simps\<close>)
qed

end
