(* ===== verification/Player_Main.thy ===== *)
theory Player_Main
  imports Player_Inv
begin

text \<open>
  What the parts of \<open>main\<close>'s calls keep, and with it every step of the player.
\<close>

section \<open>Parts of the pipeline's own\<close>

lemmas parts_of_ok = player_ok_def receiver_ok_def decoder_ok_def pipe_ok_def place_ok_def starting_def stops_def
  cleaning_def opened_def

lemma player_ok_of: "player_inv s \<Longrightarrow> player_ok s"
  by (simp add: player_inv_def)

text \<open>A part that leaves the receiver and the decoder alone.\<close>

definition same_views :: "player \<Rightarrow> player \<Rightarrow> bool" where
  "same_views s s' \<longleftrightarrow> ps_udp_receiver (pl_ps s') = ps_udp_receiver (pl_ps s) \<and> ps_decoder (pl_ps s') = ps_decoder (pl_ps s)
     \<and> ps_decoder_running (pl_ps s') = ps_decoder_running (pl_ps s) \<and> pl_recv s' = pl_recv s \<and> pl_frame s' = pl_frame s
     \<and> pl_display s' = pl_display s \<and> receiver_joined (pl_pos s') = receiver_joined (pl_pos s)
     \<and> decoder_owner (pl_pos s') = decoder_owner (pl_pos s) \<and> bus_held (pl_bus s') = bus_held (pl_bus s)"

lemma pipe_part_inv:
  assumes inv: "player_inv s" and run: "run_state m (pl_calls s) = (x, t)"
    and own: "\<And>M. wp own m (\<lambda>x M'. \<exists>L. leaky L \<and> M' = M + L + ps_owned (g x) \<and> P x) (M + ps_owned (pl_ps s))"
    and "pl_ps s' = g x" and "pl_calls s' = t" and ok: "P x \<Longrightarrow> same_views s s' \<and> pipe_ok s' \<and> place_ok s'"
  shows "player_inv s'"
proof -
  obtain L where L: "leaky L" "monitor own {#} (pl_calls s) = Some (L + held_by s + ps_owned (pl_ps s))"
    using inv by (auto simp: player_inv_def)
  from wp_after [OF own run L(2)] obtain L' where
    t: "leaky L'" "monitor own {#} t = Some (L + held_by s + L' + ps_owned (g x))" "P x" by auto
  have "receiver_ok s" "decoder_ok s" using player_ok_of [OF inv] by (simp_all add: player_ok_def)
  then have "receiver_ok s'" "decoder_ok s'"
    using ok [OF t(3)] by (auto simp: same_views_def intro: receiver_kept [of s] decoder_kept [of s])
  moreover have "held_by s' = held_by s" using ok [OF t(3)] by (simp add: same_views_def held_by_def)
  ultimately show ?thesis
    using L(1) t assms(4,5) ok [OF t(3)] by (intro player_invI [of _ "L + L'"]) (simp_all add: player_ok_def ac_simps)
qed

lemma leakless:
  assumes "wp own m (\<lambda>x M'. M' = M + ps_owned (g x) \<and> P x) (M + ps_owned ps)"
  shows "wp own m (\<lambda>x M'. \<exists>L. leaky L \<and> M' = M + L + ps_owned (g x) \<and> P x) (M + ps_owned ps)"
  by (rule wp_mono [OF assms]) (auto intro: exI [of _ "{#}"])

text \<open>Each of them keeps what the pipeline owns.\<close>

lemma join_appsink_ps:
  "wp own (join_appsink ps) (\<lambda>ps' M'. M' = M + ps_owned ps' \<and> ps' = ps\<lparr>ps_appsink_thread := 0\<rparr>) (M + ps_owned ps)"
  by (rule wp_own_frame [OF join_appsink_own]) (auto simp: ps_owned_def locks_owned_def)

lemma join_bus_ps:
  "wp own (join_bus ps) (\<lambda>ps' M'. M' = M + ps_owned ps' \<and> ps' = ps\<lparr>ps_bus_thread := 0\<rparr>) (M + ps_owned ps)"
  by (rule wp_own_frame [OF join_bus_own]) (auto simp: ps_owned_def locks_owned_def)

lemma close_gst_ps:
  "wp own (close_gst E ps) (\<lambda>ps' M'. M' = M + ps_owned ps' \<and> ps' = ps\<lparr>ps_pipeline := 0, ps_appsink := 0\<rparr>) (M + ps_owned ps)"
  by (rule wp_own_frame [OF close_gst_own]) (auto simp: ps_owned_def locks_owned_def)

lemma drop_recorder_ps:
  assumes "rec_inv (ps_recorder ps)" and "ps_initialized ps"
  shows "wp own (drop_recorder E ps)
     (\<lambda>ps' M'. M' = M + ps_owned ps' \<and> ps' = ps\<lparr>ps_recorder := None\<rparr>) (M + ps_owned ps)"
  by (rule wp_own_frame [OF disable_recording_own [OF assms(1)]])
    (use assms(2) in \<open>auto simp: ps_owned_def locks_owned_def rec_owned_def\<close>)

lemma await_bus_ps:
  assumes "ps_initialized ps"
  shows "wp own (await_bus E k wait_ms) (\<lambda>_ M'. M' = M + ps_owned ps \<and> True) (M + ps_owned ps)"
proof -
  obtain N where "ps_owned ps = N + {#Mutex PsLock, Cond PsCond#}" using locks_split [OF assms] .
  then show ?thesis by (intro wp_own_frame [OF await_bus_own]) auto
qed

lemma start_playing_ps:
  "ps_pipeline ps \<noteq> 0 \<Longrightarrow> wp own (start_playing E ps) (\<lambda>_ M'. M' = M + ps_owned ps \<and> True) (M + ps_owned ps)"
  by (rule start_playing_wp) (simp_all add: ps_owned_def ptr_res_def)

lemma start_appsink_thread_ps:
  assumes "ps_appsink_thread ps = 0"
  shows "wp own (start_appsink_thread E ps)
     (\<lambda>x M'. M' = M + ps_owned (snd x) \<and> (\<exists>h. snd x = ps\<lparr>ps_appsink_thread := h\<rparr> \<and> (fst x \<longleftrightarrow> h \<noteq> 0))) (M + ps_owned ps)"
  using assms unfolding start_appsink_thread_def
  by (intro wp_intros) (auto simp: own_simps ps_owned_def locks_owned_def intro!: exI)

lemma start_bus_thread_ps:
  assumes "ps_bus_thread ps = 0"
  shows "wp own (start_bus_thread E ps)
     (\<lambda>x M'. M' = M + ps_owned (snd x) \<and> (\<exists>h. snd x = ps\<lparr>ps_bus_thread := h\<rparr> \<and> (fst x \<longleftrightarrow> h \<noteq> 0))) (M + ps_owned ps)"
  using assms unfolding start_bus_thread_def
  by (intro wp_intros) (auto simp: own_simps ps_owned_def locks_owned_def intro!: exI)

lemma stop_notice_ps:
  assumes "ps_initialized ps"
  shows "wp own (stop_notice E ps)
     (\<lambda>x M'. M' = M + ps_owned (snd x) \<and> x = (if ps_state ps = PIPELINE_STOPPED then (False, ps)
        else (True, ps\<lparr>ps_state := PIPELINE_STOPPING, ps_stop_requested := True\<rparr>))) (M + ps_owned ps)"
  using assms unfolding stop_notice_def Let_def
  by (intro wp_intros) (auto simp: own_simps ps_owned_def locks_owned_def)

definition entered :: "AppCfg \<Rightarrow> PipelineState \<Rightarrow> bool \<times> PipelineState \<Rightarrow> bool" where
  "entered cfg ps x \<longleftrightarrow> (\<exists>p a r. snd x = (reset_fields cfg (ps\<lparr>ps_gst_ready := True, ps_initialized := True\<rparr>))
       \<lparr>ps_pipeline := p, ps_appsink := a, ps_udp_receiver := r\<rparr>
     \<and> (if fst x then p \<noteq> 0 \<and> (\<exists>ur. r = Some ur \<and> ur_inv ur \<and> \<not> ur_running ur) else r = None))"

lemma begin_start_ps:
  assumes "ps_empty ps"
  shows "wp own (begin_start E cfg ps)
     (\<lambda>x M'. \<exists>L. leaky L \<and> M' = M + L + ps_owned (snd x) \<and> entered cfg ps x) (M + ps_owned ps)"
proof -
  let ?Q = "\<lambda>x M'. \<exists>L. leaky L \<and> M' = M + L + ps_owned (snd x) \<and> entered cfg ps x"
  let ?ps1 = "ps\<lparr>ps_gst_ready := True\<rparr>"
  let ?ps2 = "reset_fields cfg (ps\<lparr>ps_gst_ready := True, ps_initialized := True\<rparr>)"
  have empty: "ps_empty ?ps1" "ps_empty ?ps2" using assms by (auto simp: ps_empty_def reset_fields_def)
  have o1: "M + ps_owned ps = M + ps_owned ?ps1" by (simp add: ps_owned_def locks_owned_def)
  have o2: "ps_owned (?ps1\<lparr>ps_initialized := True\<rparr>) = ps_owned ?ps2"
    using empty(1) by (simp add: ps_owned_def locks_owned_def ps_empty_def reset_fields_def)
  have same: "?ps2 = ?ps2\<lparr>ps_pipeline := 0, ps_appsink := 0, ps_udp_receiver := None\<rparr>" by (simp add: reset_fields_def)
  have "wp own (build_pipeline E cfg \<bind> (\<lambda>built. ret (case built of None \<Rightarrow> (False, ?ps2)
      | Some (pipeline, appsink, receiver) \<Rightarrow>
          (True, ?ps2\<lparr>ps_pipeline := pipeline, ps_appsink := appsink, ps_udp_receiver := receiver\<rparr>)))) ?Q (M + ps_owned ?ps2)"
  proof (rule wp_bind, rule build_pipeline_wp)
    fix L :: "resource multiset" assume L: "leaky L"
    have "entered cfg ps (False, ?ps2)" unfolding entered_def using same by (metis fst_conv snd_conv)
    then show "wp own (ret (case None of None \<Rightarrow> (False, ?ps2) | Some (pipeline, appsink, receiver) \<Rightarrow>
          (True, ?ps2\<lparr>ps_pipeline := pipeline, ps_appsink := appsink, ps_udp_receiver := receiver\<rparr>))) ?Q (M + ps_owned ?ps2 + L)"
      using L by (auto intro!: wp_return exI [of _ L] simp: add.commute add.left_commute)
  next
    fix p a :: ptr and ur assume ur: "0 < p" "ur_inv ur" "\<not> ur_running ur"
    then have "entered cfg ps (True, ?ps2\<lparr>ps_pipeline := p, ps_appsink := a, ps_udp_receiver := Some ur\<rparr>)"
      by (auto simp: entered_def)
    moreover have "ps_owned (?ps2\<lparr>ps_pipeline := p, ps_appsink := a, ps_udp_receiver := Some ur\<rparr>)
        = ps_owned ?ps2 + ({#Ref p#} + ur_owned ur)"
      using empty(2) ur(1) by (simp add: ps_owned_def ps_empty_def locks_owned_def opt_owned_def ptr_res_def)
    ultimately show "wp own (ret (case Some (p, a, Some ur) of None \<Rightarrow> (False, ?ps2) | Some (pipeline, appsink, receiver) \<Rightarrow>
          (True, ?ps2\<lparr>ps_pipeline := pipeline, ps_appsink := appsink, ps_udp_receiver := receiver\<rparr>))) ?Q
        (M + ps_owned ?ps2 + ({#Ref p#} + ur_owned ur))"
      by (auto intro!: wp_return exI [of _ "{#}"] simp: add.assoc)
  qed
  then have "wp own (init_locks ?ps1 \<bind> (\<lambda>ps. let ps = reset_fields cfg ps in
      build_pipeline E cfg \<bind> (\<lambda>built. ret (case built of None \<Rightarrow> (False, ps)
      | Some (pipeline, appsink, receiver) \<Rightarrow>
          (True, ps\<lparr>ps_pipeline := pipeline, ps_appsink := appsink, ps_udp_receiver := receiver\<rparr>))))) ?Q (M + ps_owned ?ps1)"
    by (intro wp_bind init_locks_wp empty(1)) (simp add: o2 Let_def)
  then show ?thesis unfolding begin_start_def o1 by (simp add: wp_bind ensure_gst_wp)
qed

lemma release_receiver_own:
  assumes "ur_video_appsrc ur \<noteq> 0" and "ur_sockfd ur < 0" and "ur_thread ur = 0"
  shows "wp own (release_receiver E ur) (\<lambda>_ M'. M' = M) (M + ur_owned ur)"
  using assms unfolding release_receiver_def
  by (intro wp_intros; clarsimp simp: own_simps ur_owned_def)

text \<open>Opening the decoder.\<close>

definition decoder_opened :: "PipelineState \<Rightarrow> bool \<times> PipelineState \<Rightarrow> bool" where
  "decoder_opened ps x \<longleftrightarrow> (\<exists>d i. snd x = ps\<lparr>ps_decoder := d, ps_decoder_initialized := i\<rparr>
     \<and> (case d of None \<Rightarrow> \<not> fst x | Some vd \<Rightarrow> vd_inv vd \<and> vd_idle vd \<and> (fst x \<longrightarrow> vd_initialized vd)))"

lemma decoder_openedI:
  "decoder_opened ps (False, ps\<lparr>ps_decoder := None\<rparr>)"
  "vd_inv vd \<Longrightarrow> vd_idle vd \<Longrightarrow> decoder_opened ps (False, ps\<lparr>ps_decoder := Some vd\<rparr>)"
  "vd_inv vd \<Longrightarrow> vd_idle vd \<Longrightarrow> vd_initialized vd \<Longrightarrow>
     decoder_opened ps (True, ps\<lparr>ps_decoder := Some vd, ps_decoder_initialized := True\<rparr>)"
  unfolding decoder_opened_def
  by (rule exI [of _ None], rule exI [of _ "ps_decoder_initialized ps"], simp,
      rule exI [of _ "Some vd"], rule exI [of _ "ps_decoder_initialized ps"], simp, force)

lemma decoder_init_opens:
  assumes "real_objects E"
  shows "wp own (video_decoder_init E (Some vd) (Some cfg) (Some ms) fd)
     (\<lambda>x M'. M' = M + dec_owned (snd x)
        \<and> (\<exists>v. snd x = Some v \<and> vd_inv v \<and> vd_idle v \<and> (fst x = 0 \<longrightarrow> vd_initialized v))) (M + {#Heap VideoDecoderObj#})"
  unfolding video_decoder_init_def
  by (simp, intro wp_intros wp_mono [OF init_decoder_own [OF assms]])
    (auto intro!: wp_intros simp: dec_owned_def init_outcome_def)

lemma open_decoder_ps:
  assumes "real_objects E" and "ps_decoder ps = None"
  shows "wp own (open_decoder E cfg ms fd ps)
     (\<lambda>x M'. M' = M + ps_owned (snd x) \<and> decoder_opened ps x) (M + ps_owned ps)"
proof -
  have owned: "ps_owned (ps\<lparr>ps_decoder := d, ps_decoder_initialized := i\<rparr>) = ps_owned ps + dec_owned d"
    "ps_owned (ps\<lparr>ps_decoder := d\<rparr>) = ps_owned ps + dec_owned d" for d i
    using assms(2) by (simp_all add: ps_owned_def locks_owned_def dec_owned_def)
  show ?thesis
    unfolding open_decoder_def Let_def
    apply (simp only: assms(2) refl if_True)
    apply (intro wp_intros wp_own_frame [OF new_decoder_own])
    apply (simp_all add: owned dec_owned_def)
    apply (simp add: decoder_openedI)
    apply clarsimp
    apply (intro wp_intros wp_own_frame [OF decoder_init_opens [OF assms(1)]])
    apply (auto simp: owned decoder_openedI dec_owned_def)
    done
qed

lemma discard_decoder_ps:
  assumes "dec_inv (ps_decoder ps)"
  shows "wp own (discard_decoder E ps)
     (\<lambda>ps' M'. M' = M + ps_owned ps' \<and> ps' = ps\<lparr>ps_decoder := None, ps_decoder_running := False, ps_decoder_initialized := False\<rparr>)
     (M + ps_owned ps)"
proof -
  have "wp own (discard_decoder E ps)
      (\<lambda>ps' M'. M' = M + {#} \<and> ps' = ps\<lparr>ps_decoder := None, ps_decoder_running := False, ps_decoder_initialized := False\<rparr>)
      (M + dec_owned (ps_decoder ps))" for M
    using assms unfolding discard_decoder_def
    by (intro wp_intros wp_own_frame [OF decoder_deinit_frame] wp_own_frame [OF decoder_free_frame]) simp_all
  then show ?thesis
    by (rule wp_own_frame) (auto simp: ps_owned_def locks_owned_def dec_owned_def)
qed

section \<open>The parts of the calls\<close>

abbreviation moved_on :: "main_pos \<Rightarrow> PipelineState \<Rightarrow> trace \<Rightarrow> player \<Rightarrow> player" where
  "moved_on p ps t s \<equiv> (after p t s)\<lparr>pl_ps := ps, pl_pos := p, pl_calls := t\<rparr>"

text \<open>A part that is one of the operations above, with where it leads.\<close>

lemma main_by:
  assumes inv: "player_inv s" and run: "run_state (main_part E cfg ms fd k wait_ms (pl_pos s) (pl_ps s)) (pl_calls s) = ((p, ps), t)"
    and m: "main_part E cfg ms fd k wait_ms (pl_pos s) (pl_ps s) = State_Monad.bind m (\<lambda>x. ret (h x))"
    and own: "\<And>M. wp own m (\<lambda>x M'. M' = M + ps_owned (g x) \<and> P x) (M + ps_owned (pl_ps s))"
    and "\<And>x. P x \<Longrightarrow> ps_owned (snd (h x)) = ps_owned (g x)"
    and "\<And>x. P x \<Longrightarrow> same_views s (moved_on (fst (h x)) (snd (h x)) t s) \<and> pipe_ok (moved_on (fst (h x)) (snd (h x)) t s)
      \<and> place_ok (moved_on (fst (h x)) (snd (h x)) t s)"
  shows "player_inv (moved_on p ps t s)"
proof (rule pipe_part_inv [OF inv run, where g = snd and P = "\<lambda>y. \<exists>x. P x \<and> h x = y"])
  show "wp own (main_part E cfg ms fd k wait_ms (pl_pos s) (pl_ps s))
      (\<lambda>x M'. \<exists>L. leaky L \<and> M' = M + L + ps_owned (snd x) \<and> (\<exists>y. P y \<and> h y = x)) (M + ps_owned (pl_ps s))" for M
    unfolding m by (intro wp_bind wp_mono [OF own]) (auto intro!: wp_return exI [of _ "{#}"] simp: assms(5))
qed (use assms(6) in force)+

lemma main_goes:
  assumes inv: "player_inv s" and run: "run_state (main_part E cfg ms fd k wait_ms (pl_pos s) (pl_ps s)) (pl_calls s) = ((p, ps), t)"
    and m: "main_part E cfg ms fd k wait_ms (pl_pos s) (pl_ps s) = ret (p', pl_ps s)"
    and "same_views s (moved_on p' (pl_ps s) (pl_calls s) s) \<and> pipe_ok (moved_on p' (pl_ps s) (pl_calls s) s)
      \<and> place_ok (moved_on p' (pl_ps s) (pl_calls s) s)"
  shows "player_inv (moved_on p ps t s)"
proof -
  have "p = p'" "ps = pl_ps s" "t = pl_calls s" using run by (simp_all add: m)
  with assms(4) show ?thesis
    by (intro main_by [OF inv run, where m = "ret ()" and h = "\<lambda>_. (p', pl_ps s)" and g = "\<lambda>_. pl_ps s" and P = "\<lambda>_. True"])
      (auto intro: wp_return simp: m)
qed

lemmas place_defs = place_ok_def starting_def stops_def cleaning_def

lemma player_oks:
  assumes "player_inv s"
  shows "receiver_ok s" "decoder_ok s" "pipe_ok s" "place_ok s"
  using player_ok_of [OF assms] by (simp_all add: player_ok_def)

lemmas part_defs = same_views_def after_def place_defs pipe_ok_def receiver_joined_def opened_def

text \<open>One lemma for each place of \<open>main\<close>; \<open>run\<close> is the part that is executed there.\<close>

abbreviation part_run ::
    "env \<Rightarrow> AppCfg \<Rightarrow> ModesetResult \<Rightarrow> int \<Rightarrow> nat \<Rightarrow> int \<Rightarrow> player \<Rightarrow> main_pos \<Rightarrow> PipelineState \<Rightarrow> trace \<Rightarrow> bool" where
  "part_run E cfg ms fd k wait_ms s p ps t \<equiv>
     run_state (main_part E cfg ms fd k wait_ms (pl_pos s) (pl_ps s)) (pl_calls s) = ((p, ps), t)"

lemma start_playing_inv:
  assumes "player_inv s" and "part_run E cfg ms fd k wait_ms s p ps t" and pos: "pl_pos s = StartPlaying"
  shows "player_inv (moved_on p ps t s)"
proof (rule main_by [OF assms(1,2) _ start_playing_ps])
  show "ps_pipeline (pl_ps s) \<noteq> 0" using player_oks(4) [OF assms(1)] pos by (simp add: place_defs)
qed (use player_oks(3,4) [OF assms(1)] pos in \<open>auto simp: part_defs split: if_splits\<close>)

lemma start_sink_inv:
  assumes "player_inv s" and "part_run E cfg ms fd k wait_ms s p ps t" and pos: "pl_pos s = StartSink"
  shows "player_inv (moved_on p ps t s)"
proof (rule main_by [OF assms(1,2) _ start_appsink_thread_ps])
  show "main_part E cfg ms fd k wait_ms (pl_pos s) (pl_ps s) = State_Monad.bind (start_appsink_thread E (pl_ps s))
      (\<lambda>x. ret (if fst x then StartBus else Clean Undo CSink, snd x))" by (simp add: pos case_prod_unfold)
qed (use player_oks(3,4) [OF assms(1)] pos in \<open>auto simp: part_defs split: if_splits\<close>)

lemma start_bus_inv:
  assumes "player_inv s" and "part_run E cfg ms fd k wait_ms s p ps t" and pos: "pl_pos s = StartBus"
  shows "player_inv (moved_on p ps t s)"
proof (rule main_by [OF assms(1,2) _ start_bus_thread_ps])
  show "main_part E cfg ms fd k wait_ms (pl_pos s) (pl_ps s) = State_Monad.bind (start_bus_thread E (pl_ps s))
      (\<lambda>x. ret (if fst x then (Rest 0, (snd x)\<lparr>ps_state := PIPELINE_RUNNING\<rparr>) else (Clean Undo CSink, snd x)))"
    by (simp add: pos case_prod_unfold)
qed (use player_oks(3,4) [OF assms(1)] pos in \<open>auto simp: part_defs split: if_splits\<close>)

lemma sink_join_inv:
  assumes "player_inv s" and "part_run E cfg ms fd k wait_ms s p ps t" and pos: "pl_pos s = SinkJoin"
  shows "player_inv (moved_on p ps t s)"
  by (rule main_by [OF assms(1,2) _ join_appsink_ps], simp add: pos)
    (use player_oks(3,4) [OF assms(1)] pos in \<open>simp_all add: part_defs\<close>)

lemma bus_join_inv:
  assumes "player_inv s" and "part_run E cfg ms fd k wait_ms s p ps t" and pos: "pl_pos s = BusJoin"
    and "bus_held (pl_bus s) = {#}"
  shows "player_inv (moved_on p ps t s)"
  by (rule main_by [OF assms(1,2) _ join_bus_ps], simp add: pos)
    (use player_oks(3,4) [OF assms(1)] pos assms(4) in \<open>simp_all add: part_defs\<close>)

lemma clean_sink_inv:
  assumes "player_inv s" and "part_run E cfg ms fd k wait_ms s p ps t" and pos: "pl_pos s = Clean why CSink"
  shows "player_inv (moved_on p ps t s)"
  by (rule main_by [OF assms(1,2) _ join_appsink_ps], simp add: pos)
    (use player_oks(3,4) [OF assms(1)] pos in \<open>simp_all add: part_defs\<close>)

lemma clean_bus_inv:
  assumes "player_inv s" and "part_run E cfg ms fd k wait_ms s p ps t" and pos: "pl_pos s = Clean why CBus"
    and "bus_held (pl_bus s) = {#}"
  shows "player_inv (moved_on p ps t s)"
  by (rule main_by [OF assms(1,2) _ join_bus_ps], simp add: pos)
    (use player_oks(3,4) [OF assms(1)] pos assms(4) in \<open>simp_all add: part_defs\<close>)

lemma bus_await_inv:
  assumes "player_inv s" and "part_run E cfg ms fd k wait_ms s p ps t" and pos: "pl_pos s = BusAwait"
  shows "player_inv (moved_on p ps t s)"
proof (cases "ps_bus_thread (pl_ps s) = 0")
  case True
  then show ?thesis
    by (intro main_goes [OF assms(1,2)], simp add: pos)
      (use player_oks(3,4) [OF assms(1)] pos in \<open>simp_all add: part_defs\<close>)
next
  case False
  show ?thesis
  proof (rule main_by [OF assms(1,2) _ await_bus_ps])
    show "ps_initialized (pl_ps s)" using player_oks(4) [OF assms(1)] pos by (simp add: place_defs)
    show "main_part E cfg ms fd k wait_ms (pl_pos s) (pl_ps s) = State_Monad.bind (await_bus E k wait_ms)
        (\<lambda>_. ret (BusJoin, pl_ps s))" using False by (simp add: pos)
  qed (use False player_oks(3,4) [OF assms(1)] pos in \<open>simp_all add: part_defs\<close>)
qed

lemma clean_gst_inv:
  assumes "player_inv s" and "part_run E cfg ms fd k wait_ms s p ps t" and pos: "pl_pos s = Clean why CGst"
  shows "player_inv (moved_on p ps t s)"
  by (rule main_by [OF assms(1,2) _ close_gst_ps], simp add: pos)
    (use player_oks(3,4) [OF assms(1)] pos in \<open>simp_all add: part_defs\<close>)

lemma clean_recorder_inv:
  assumes "player_inv s" and "part_run E cfg ms fd k wait_ms s p ps t" and pos: "pl_pos s = Clean why CRecorder"
  shows "player_inv (moved_on p ps t s)"
proof (rule main_by [OF assms(1,2) _ drop_recorder_ps])
  note oks = player_oks(3,4) [OF assms(1)]
  show "main_part E cfg ms fd k wait_ms (pl_pos s) (pl_ps s) = State_Monad.bind (drop_recorder E (pl_ps s))
      (\<lambda>ps. ret (leave why ps))" by (simp add: pos)
  show "rec_inv (ps_recorder (pl_ps s))" "ps_initialized (pl_ps s)"
    using oks pos by (simp_all add: part_defs)
  show "ps_owned (snd (leave why x)) = ps_owned x" for x by (simp add: leave_def split: reason.split)
  have rest: "ps_decoder (pl_ps s) = None" "\<not> ps_decoder_running (pl_ps s)" "pl_sink s = SNone" "pl_bus s = BNone"
    "ps_appsink_thread (pl_ps s) = 0" "ps_bus_thread (pl_ps s) = 0" "ps_udp_receiver (pl_ps s) = None" "ps_pipeline (pl_ps s) = 0"
    "ps_initialized (pl_ps s)" "why = Undo \<longleftrightarrow> ps_state (pl_ps s) = PIPELINE_STOPPED"
    using oks pos by (simp_all add: part_defs)
  show "same_views s (moved_on (fst (leave why x)) (snd (leave why x)) t s) \<and> pipe_ok (moved_on (fst (leave why x)) (snd (leave why x)) t s)
      \<and> place_ok (moved_on (fst (leave why x)) (snd (leave why x)) t s)" if "x = (pl_ps s)\<lparr>ps_recorder := None\<rparr>" for x
    using that rest by (cases why) (simp_all add: part_defs leave_def ps_empty_def rec_inv_def pos)
qed

section \<open>The receiver's parts\<close>

lemma request_runs: "returns (stop_request ur) (\<lambda>x. fst x \<longleftrightarrow> ur_running ur)"
  unfolding stop_request_def Let_def by (auto intro!: returns_intros returns_bind_any)

lemma receiver_request_inv:
  assumes inv: "player_inv s" and ur: "ps_udp_receiver (pl_ps s) = Some ur"
    and run: "run_state (stop_request ur) (pl_calls s) = ((go, ur'), t)" and out: "\<not> receiver_joined (pl_pos s)"
    and s': "s' = s\<lparr>pl_ps := (pl_ps s)\<lparr>ps_udp_receiver := Some ur'\<rparr>, pl_pos := p, pl_calls := t\<rparr>"
    and p: "receiver_joined p \<longleftrightarrow> go" and owner: "decoder_owner p = decoder_owner (pl_pos s)"
    and place: "\<not> go \<Longrightarrow> pl_recv s = NoThread \<Longrightarrow> place_ok s'" "go \<Longrightarrow> place_ok s'"
  shows "player_inv s'"
proof -
  note oks = player_oks [OF inv]
  have "go \<longleftrightarrow> ur_running ur" using returnsD [OF request_runs run] by simp
  then have "\<not> go \<Longrightarrow> pl_recv s = NoThread" using oks(1) ur by (auto simp: receiver_ok_def receiver_view_def sys_agree_def)
  then have place': "place_ok s'" using place by blast
  have rest: "decoder_ok s' \<and> pipe_ok s' \<and> place_ok s'"
    using place' oks(3) owner by (auto simp: s' pipe_ok_def opened_def intro: decoder_kept [OF oks(2)])
  show ?thesis
  proof (cases go)
    case True
    have "udp_step E (receiver_view ur s) ((receiver_view ur s)\<lparr>shared := ur', calls := t, owner := Joining\<rparr>)" for E
      using run True out by (intro udp_step.stop_begin) (simp_all add: receiver_view_def)
    then show ?thesis
      by (rule receiver_step_inv [OF inv ur]) (use rest p True in \<open>simp_all add: s' receiver_view_def\<close>)
  next
    case False
    have "udp_step E (receiver_view ur s) ((receiver_view ur s)\<lparr>shared := ur', calls := t\<rparr>)" for E
      using run False out by (intro udp_step.stop_idle) (simp_all add: receiver_view_def)
    then show ?thesis
      by (rule receiver_step_inv [OF inv ur]) (use rest p False out in \<open>simp_all add: s' receiver_view_def\<close>)
  qed
qed

lemma receiver_end_inv:
  assumes inv: "player_inv s" and ur: "ps_udp_receiver (pl_ps s) = Some ur"
    and run: "run_state (receiver_end ur) (pl_calls s) = (ur', t)" and "receiver_joined (pl_pos s)" and "pl_recv s = Exited"
    and s': "s' = s\<lparr>pl_recv := NoThread, pl_ps := (pl_ps s)\<lparr>ps_udp_receiver := Some ur'\<rparr>, pl_pos := p, pl_calls := t\<rparr>"
    and p: "\<not> receiver_joined p" and owner: "decoder_owner p = decoder_owner (pl_pos s)" and place: "place_ok s'"
  shows "player_inv s'"
proof -
  note oks = player_oks [OF inv]
  have rest: "decoder_ok s' \<and> pipe_ok s' \<and> place_ok s'"
    using place oks(3) owner by (auto simp: s' pipe_ok_def opened_def intro: decoder_kept [OF oks(2)])
  have step: "udp_step null_env (receiver_view ur s)
      ((receiver_view ur s)\<lparr>shared := ur', calls := t, owner := Outside, thread := NoThread\<rparr>)"
    using run assms(4,5) by (intro udp_step.stop_end) (simp_all add: receiver_view_def receiver_end_def)
  show ?thesis
    by (rule receiver_step_inv [OF inv ur step]) (use rest p in \<open>simp_all add: s' receiver_view_def\<close>)
qed

lemma stop_receiver_inv:
  assumes "player_inv s" and "part_run E cfg ms fd k wait_ms s p ps t" and pos: "pl_pos s = StopReceiver"
  shows "player_inv (moved_on p ps t s)"
proof (cases "ps_udp_receiver (pl_ps s)")
  case None
  then show ?thesis
    by (intro main_goes [OF assms(1,2)], simp add: pos)
      (use player_oks(3,4) [OF assms(1)] pos in \<open>simp_all add: part_defs\<close>)
next
  case (Some ur)
  obtain go ur' t' where run: "run_state (stop_request ur) (pl_calls s) = ((go, ur'), t')" by (metis surj_pair)
  then have p: "p = (if go then EndReceiver else SinkJoin)" "ps = (pl_ps s)\<lparr>ps_udp_receiver := Some ur'\<rparr>" "t' = t"
    using assms(2) Some pos by auto
  show ?thesis
    by (rule receiver_request_inv [OF assms(1) Some run, where p = p])
      (use player_oks(4) [OF assms(1)] in \<open>cases go; simp add: p part_defs pos\<close>)+
qed

lemma clean_receiver_inv:
  assumes "player_inv s" and "part_run E cfg ms fd k wait_ms s p ps t" and pos: "pl_pos s = Clean why CReceiver"
  shows "player_inv (moved_on p ps t s)"
proof (cases "ps_udp_receiver (pl_ps s)")
  case None
  then show ?thesis
    by (intro main_goes [OF assms(1,2)], simp add: pos)
      (use player_oks(3,4) [OF assms(1)] pos in \<open>simp_all add: part_defs\<close>)
next
  case (Some ur)
  obtain go ur' t' where run: "run_state (stop_request ur) (pl_calls s) = ((go, ur'), t')" by (metis surj_pair)
  then have p: "p = Clean why (if go then CEndReceiver else CFreeReceiver)" "ps = (pl_ps s)\<lparr>ps_udp_receiver := Some ur'\<rparr>" "t' = t"
    using assms(2) Some pos by auto
  show ?thesis
    by (rule receiver_request_inv [OF assms(1) Some run, where p = p])
      (use player_oks(4) [OF assms(1)] in \<open>cases go; simp add: p part_defs pos\<close>)+
qed

lemma end_receiver_inv:
  assumes "player_inv s" and "part_run E cfg ms fd k wait_ms s p ps t" and pos: "pl_pos s = EndReceiver \<or> pl_pos s = Clean why CEndReceiver"
    and "ready s"
  shows "player_inv (moved_on p ps t s)"
proof -
  obtain ur where ur: "ps_udp_receiver (pl_ps s) = Some ur"
    using player_oks(4) [OF assms(1)] pos by (auto simp: place_defs)
  obtain ur' t' where run: "run_state (receiver_end ur) (pl_calls s) = (ur', t')" by (metis surj_pair)
  have joined: "receiver_joined (pl_pos s)" "pl_recv s = Exited" using pos assms(4) by (auto simp: receiver_joined_def ready_def)
  from pos show ?thesis
  proof
    assume pos: "pl_pos s = EndReceiver"
    then have p: "p = SinkJoin" "ps = (pl_ps s)\<lparr>ps_udp_receiver := Some ur'\<rparr>" "t' = t" using assms(2) ur run by auto
    show ?thesis
      by (rule receiver_end_inv [OF assms(1) ur run joined, where p = p])
        (use player_oks(4) [OF assms(1)] pos in \<open>simp_all add: p part_defs\<close>)
  next
    assume pos: "pl_pos s = Clean why CEndReceiver"
    then have p: "p = Clean why CFreeReceiver" "ps = (pl_ps s)\<lparr>ps_udp_receiver := Some ur'\<rparr>" "t' = t" using assms(2) ur run by auto
    show ?thesis
      by (rule receiver_end_inv [OF assms(1) ur run joined, where p = p])
        (use player_oks(4) [OF assms(1)] pos in \<open>simp_all add: p part_defs\<close>)
  qed
qed

end
