(* ===== verification/Player_Steps.thy ===== *)
theory Player_Steps
  imports Player_Main
begin

text \<open>
  The rest of the parts, those that make and destroy the receiver's thread and the decoder's; the calls;
  and with them every step of the player.
\<close>

section \<open>The receiver\<close>

lemma start_outcome:
  "\<not> ur_running ur \<Longrightarrow> returns (udp_receiver_start E (Some ur)) (\<lambda>x. \<exists>ur'. snd x = Some ur' \<and> (fst x = 0 \<longleftrightarrow> ur_running ur'))"
  unfolding udp_receiver_start_def Let_def by (auto intro!: returns_intros returns_bind_any)

lemma start_receiver_inv:
  assumes inv: "player_inv s" and run: "part_run E cfg ms fd k wait_ms s p ps t" and pos: "pl_pos s = StartReceiver"
  shows "player_inv (moved_on p ps t s)"
proof (cases "ps_udp_receiver (pl_ps s)")
  case None
  then have "main_part E cfg ms fd k wait_ms (pl_pos s) (pl_ps s) = ret (Clean Undo CSink, pl_ps s)"
    by (simp add: pos start_receiver_def udp_receiver_start_def same_part)
  then show ?thesis
    by (rule main_goes [OF inv run]) (use player_oks(3,4) [OF inv] pos in \<open>simp add: part_defs\<close>)
next
  case (Some ur)
  note oks = player_oks [OF inv]
  have idle: "pl_recv s = NoThread" "\<not> ur_running ur"
    using oks(1,4) Some pos by (auto simp: part_defs receiver_ok_def receiver_view_def sys_agree_def)
  obtain r d t' where start: "run_state (udp_receiver_start E (Some ur)) (pl_calls s) = ((r, d), t')" by (metis surj_pair)
  with returnsD [OF start_outcome [OF idle(2)] start] obtain ur' where
    ur': "d = Some ur'" "r = 0 \<longleftrightarrow> ur_running ur'" by auto
  have p: "p = (if r = 0 then StartPlaying else Clean Undo CSink)" "ps = (pl_ps s)\<lparr>ps_udp_receiver := Some ur'\<rparr>" "t' = t"
    using run start Some pos by (auto simp: start_receiver_def ur'(1))
  have step: "udp_step E (receiver_view ur s) ((receiver_view ur s)\<lparr>shared := ur', calls := t,
      thread := (if \<not> ur_running (shared (receiver_view ur s)) \<and> ur_running ur' then Created else thread (receiver_view ur s))\<rparr>)"
    using start pos by (intro udp_step.start) (simp_all add: receiver_view_def receiver_joined_def ur'(1) p(3))
  have "decoder_ok (moved_on p ps t s) \<and> pipe_ok (moved_on p ps t s) \<and> place_ok (moved_on p ps t s)"
    using oks(3,4) pos by (cases "r = 0"; simp add: part_defs p; auto simp: pos after_def intro: decoder_kept [OF oks(2)])
  then show ?thesis
    by (rule_tac receiver_step_inv [OF inv Some step])
      (use pos idle ur'(2) in \<open>cases "r = 0"; simp add: p after_def receiver_view_def receiver_joined_def\<close>)+
qed

lemma free_receiver_inv:
  assumes inv: "player_inv s" and run: "part_run E cfg ms fd k wait_ms s p ps t" and pos: "pl_pos s = Clean why CFreeReceiver"
  shows "player_inv (moved_on p ps t s)"
proof (cases "ps_udp_receiver (pl_ps s)")
  case None
  then show ?thesis
    by (intro main_goes [OF inv run], simp add: pos)
      (use player_oks(3,4) [OF inv] pos in \<open>simp_all add: part_defs\<close>)
next
  case (Some ur)
  note oks = player_oks [OF inv]
  obtain L where L: "leaky L" "monitor own {#} (pl_calls s) = Some (L + held_by s + ps_owned (pl_ps s))"
    using inv by (auto simp: player_inv_def)
  have idle: "pl_recv s = NoThread" "ur_video_appsrc ur \<noteq> 0" "ur_sockfd ur < 0" "ur_thread ur = 0"
    using oks(1,4) Some pos by (auto simp: part_defs receiver_ok_def receiver_view_def sys_agree_def)
  obtain u t' where free: "run_state (release_receiver E ur) (pl_calls s) = (u, t')" by (metis surj_pair)
  have p: "p = Clean why CGst" "ps = (pl_ps s)\<lparr>ps_udp_receiver := None\<rparr>" "t' = t"
    using run free Some pos by auto
  have "monitor own {#} (pl_calls s) = Some (L + held_by s + ps_owned ps + ur_owned ur)"
    using L(2) by (simp add: p receiver_part(1) [OF Some] ac_simps)
  from wp_after [OF release_receiver_own [OF idle(2-4)] free this]
  have t: "monitor own {#} t = Some (L + held_by s + ps_owned ps)" by (simp add: p(3))
  show ?thesis
  proof (rule player_invI [OF _ L(1)])
    have "decoder_ok (moved_on p ps t s)" by (rule decoder_kept [OF oks(2)]) (simp_all add: p pos after_def)
    then show "player_ok (moved_on p ps t s)"
      using oks(3,4) idle(1) pos by (simp add: player_ok_def receiver_ok_def part_defs p)
  qed (use t pos in \<open>simp add: held_by_def after_def\<close>)
qed

section \<open>The decoder\<close>

lemma opened_decoder:
  assumes "opened ps"
  obtains vd where "ps_decoder ps = Some vd" "vd_initialized vd"
  using assms by (auto simp: opened_def)

lemma decoder_part_inv:
  assumes inv: "player_inv s" and real: "real_objects E" and vd: "ps_decoder (pl_ps s) = Some vd" "vd_initialized vd"
    and step: "dec_step E (decoder_view vd s) v"
    and ps: "ps = (pl_ps s)\<lparr>ps_decoder := Some (vdec v), ps_decoder_running := r\<rparr>"
    and pcs: "pl_frame (after p t s) = fpc v" "pl_display (after p t s) = dpc v" "dcalls v = t" "decoder_owner p = downer v"
      "pl_sink (after p t s) = pl_sink s" "pl_bus (after p t s) = pl_bus s" "pl_recv (after p t s) = pl_recv s"
    and joined: "receiver_joined p = receiver_joined (pl_pos s)"
    and place: "vd_initialized (vdec v) \<Longrightarrow> dec_agree v \<Longrightarrow> place_ok (moved_on p ps t s)"
    and running: "dec_agree v \<Longrightarrow> r \<or> p = StartDisplay \<or> p = UndoFrame \<or> fpc v = FNone \<and> dpc v = DNone"
  shows "player_inv (moved_on p ps t s)"
proof (rule decoder_step_inv [OF inv real vd step])
  note oks = player_oks [OF inv]
  show "pl_ps (moved_on p ps t s) = (pl_ps s)\<lparr>ps_decoder := Some (vdec v), ps_decoder_running := r\<rparr>" by (simp add: ps)
  show "decoder_view (vdec v) (moved_on p ps t s) = v" using pcs by (simp add: decoder_view_def)
  show "held_by (moved_on p ps t s) = held_by s" using pcs by (simp add: held_by_def)
  show "receiver_ok (moved_on p ps t s) \<and> pipe_ok (moved_on p ps t s) \<and> place_ok (moved_on p ps t s)
      \<and> (r \<or> pl_pos (moved_on p ps t s) = StartDisplay \<or> pl_pos (moved_on p ps t s) = UndoFrame
          \<or> pl_frame (moved_on p ps t s) = FNone \<and> pl_display (moved_on p ps t s) = DNone)"
    if "vd_initialized (vdec v)" "dec_agree v"
  proof (intro conjI)
    show "receiver_ok (moved_on p ps t s)" by (rule receiver_kept [OF oks(1)]) (simp_all add: ps pcs joined)
    show "pipe_ok (moved_on p ps t s)" using oks(3) that by (simp add: pipe_ok_def opened_def ps pcs)
  qed (use place [OF that] running [OF that(2)] pcs in simp_all)
qed

lemma start_frame_inv:
  assumes inv: "player_inv s" and real: "real_objects E" and run: "part_run E cfg ms fd k wait_ms s p ps t"
    and pos: "pl_pos s = StartFrame"
  shows "player_inv (moved_on p ps t s)"
proof -
  note oks = player_oks [OF inv]
  obtain vd where vd: "ps_decoder (pl_ps s) = Some vd" "vd_initialized vd"
    using oks(4) pos by (auto simp: place_defs elim: opened_decoder)
  have idle: "pl_frame s = FNone" "pl_display s = DNone" "\<not> vd_running vd"
    using oks(2,4) pos vd(1) by (auto simp: decoder_ok_def place_defs dec_agree_def decoder_view_def)
  obtain ok vd' t' where start: "run_state (start_frame E vd) (pl_calls s) = ((ok, vd'), t')" by (metis surj_pair)
  have p: "p = (if ok then StartDisplay else Clean Undo CSink)" "ps = (pl_ps s)\<lparr>ps_decoder := Some vd'\<rparr>" "t' = t"
    using run start pos vd idle(3) by auto
  have off: "\<not> ps_decoder_running (pl_ps s)" using oks(4) pos by (simp add: place_defs)
  show ?thesis
  proof (cases ok)
    case True
    have "dec_step E (decoder_view vd s) ((decoder_view vd s)\<lparr>vdec := vd', dcalls := t, downer := Starting, fpc := FNew\<rparr>)"
      using start idle pos True by (intro dec_step.start_frame) (simp_all add: decoder_view_def p(3))
    then show ?thesis
      by (rule decoder_part_inv [OF inv real vd, where r = False])
        (use oks(4) True pos off in \<open>simp_all add: p part_defs decoder_view_def\<close>)
  next
    case False
    have "dec_step E (decoder_view vd s) ((decoder_view vd s)\<lparr>vdec := vd', dcalls := t\<rparr>)"
      using start idle pos False by (intro dec_step.start_fail) (simp_all add: decoder_view_def p(3))
    then show ?thesis
      by (rule decoder_part_inv [OF inv real vd, where r = False])
        (use oks(4) False pos idle off in \<open>simp_all add: p part_defs decoder_view_def\<close>)
  qed
qed

lemma start_display_inv:
  assumes inv: "player_inv s" and real: "real_objects E" and run: "part_run E cfg ms fd k wait_ms s p ps t"
    and pos: "pl_pos s = StartDisplay"
  shows "player_inv (moved_on p ps t s)"
proof -
  note oks = player_oks [OF inv]
  obtain vd where vd: "ps_decoder (pl_ps s) = Some vd" "vd_initialized vd"
    using oks(4) pos by (auto simp: place_defs elim: opened_decoder)
  have off: "\<not> ps_decoder_running (pl_ps s)" using oks(4) pos by (simp add: place_defs)
  obtain ok vd' t' where start: "run_state (start_display E vd) (pl_calls s) = ((ok, vd'), t')" by (metis surj_pair)
  have p: "p = (if ok then StartSink else UndoFrame)" "t' = t"
    "ps = (if ok then (pl_ps s)\<lparr>ps_decoder := Some vd', ps_decoder_running := True\<rparr> else (pl_ps s)\<lparr>ps_decoder := Some vd'\<rparr>)"
    using run start pos vd by auto
  show ?thesis
  proof (cases ok)
    case True
    have "dec_step E (decoder_view vd s) ((decoder_view vd s)\<lparr>vdec := vd', dcalls := t, downer := Free, dpc := DNew\<rparr>)"
      using start pos True by (intro dec_step.start_display) (simp_all add: decoder_view_def p(2))
    then show ?thesis
      by (rule decoder_part_inv [OF inv real vd, where r = True])
        (use oks(4) True pos in \<open>simp_all add: p part_defs decoder_view_def\<close>)
  next
    case False
    have "dec_step E (decoder_view vd s) ((decoder_view vd s)\<lparr>vdec := vd', dcalls := t, downer := StartFailed\<rparr>)"
      using start pos False by (intro dec_step.start_undo) (simp_all add: decoder_view_def p(2))
    then show ?thesis
      by (rule decoder_part_inv [OF inv real vd, where r = False])
        (use oks(4) False pos off in \<open>simp_all add: p part_defs decoder_view_def\<close>)
  qed
qed

lemma undo_frame_inv:
  assumes inv: "player_inv s" and real: "real_objects E" and run: "part_run E cfg ms fd k wait_ms s p ps t"
    and pos: "pl_pos s = UndoFrame" and "ready s"
  shows "player_inv (moved_on p ps t s)"
proof -
  note oks = player_oks [OF inv]
  obtain vd where vd: "ps_decoder (pl_ps s) = Some vd" "vd_initialized vd"
    using oks(4) pos by (auto simp: place_defs elim: opened_decoder)
  have off: "\<not> ps_decoder_running (pl_ps s)" using oks(4) pos by (simp add: place_defs)
  have frame: "pl_frame s = FDone" "pl_display s = DNone"
    using assms(5) pos oks(2) vd(1) by (auto simp: ready_def decoder_ok_def dec_agree_def decoder_view_def)
  obtain vd' t' where join: "run_state (join_frame vd) (pl_calls s) = (vd', t')" by (metis surj_pair)
  have p: "p = Clean Undo CSink" "ps = (pl_ps s)\<lparr>ps_decoder := Some vd'\<rparr>" "t' = t"
    using run join pos vd by auto
  have "dec_step E (decoder_view vd s) ((decoder_view vd s)\<lparr>vdec := vd', dcalls := t, downer := Free, fpc := FNone\<rparr>)"
    using join pos frame by (intro dec_step.start_join) (simp_all add: decoder_view_def p(3))
  then show ?thesis
    by (rule decoder_part_inv [OF inv real vd, where r = False])
      (use oks(4) pos frame off in \<open>simp_all add: p part_defs decoder_view_def\<close>)
qed

lemma clean_decoder_inv:
  assumes inv: "player_inv s" and real: "real_objects E" and run: "part_run E cfg ms fd k wait_ms s p ps t"
    and pos: "pl_pos s = Clean why CDecoder"
  shows "player_inv (moved_on p ps t s)"
proof (cases "ps_decoder_running (pl_ps s)")
  case False
  note oks = player_oks [OF inv]
  have "pl_frame s = FNone" "pl_display s = DNone" using oks(2) pos False by (auto simp: decoder_ok_def)
  moreover have "woken (pl_calls s) (pl_calls s) d = d" for d by (simp add: woken_def signalled_def)
  ultimately show ?thesis
    by (intro main_goes [OF inv run], simp add: pos False)
      (use oks(3,4) pos False in \<open>simp_all add: part_defs\<close>)
next
  case True
  note oks = player_oks [OF inv]
  obtain vd where vd: "ps_decoder (pl_ps s) = Some vd" "vd_initialized vd"
    using oks(3) True by (auto simp: pipe_ok_def elim: opened_decoder)
  obtain was vd' t' where stop: "run_state (request_stop vd) (pl_calls s) = ((was, vd'), t')" by (metis surj_pair)
  have p: "p = Clean why (CDrain was)" "ps = (pl_ps s)\<lparr>ps_decoder := Some vd'\<rparr>" "t' = t"
    using run stop pos vd True by auto
  have "dec_step E (decoder_view vd s) ((decoder_view vd s)\<lparr>vdec := vd', dcalls := t, downer := Draining was,
      dpc := woken (dcalls (decoder_view vd s)) t (dpc (decoder_view vd s))\<rparr>)"
    using stop pos by (intro dec_step.stop_request) (simp_all add: decoder_view_def p(3))
  then show ?thesis
    by (rule decoder_part_inv [OF inv real vd, where r = True])
      (use oks(4) pos True in \<open>simp_all add: p part_defs decoder_view_def\<close>)
qed

text \<open>Between the request and the last join.\<close>

lemma stopping_decoder:
  assumes "player_inv s" and "pl_pos s = Clean why c" and "2 < clean_rank c" and "clean_rank c < 6"
  obtains vd where "ps_decoder (pl_ps s) = Some vd" "vd_initialized vd" "ps_decoder_running (pl_ps s)"
  using player_oks(3,4) [OF assms(1)] assms(2-) by (auto simp: pipe_ok_def place_defs elim: opened_decoder)

lemma clean_drain_inv:
  assumes inv: "player_inv s" and real: "real_objects E" and run: "part_run E cfg ms fd k wait_ms s p ps t"
    and pos: "pl_pos s = Clean why (CDrain was)"
  shows "player_inv (moved_on p ps t s)"
proof -
  obtain vd where vd: "ps_decoder (pl_ps s) = Some vd" "vd_initialized vd" and on: "ps_decoder_running (pl_ps s)"
    by (rule stopping_decoder [OF inv pos]) simp_all
  obtain u t' where drain: "run_state (drain E was vd) (pl_calls s) = ((), t')" by (metis surj_pair old.unit.exhaust)
  have p: "p = Clean why CFrame" "ps = pl_ps s" "t' = t" using run drain pos vd by auto
  have "dec_step E (decoder_view vd s) ((decoder_view vd s)\<lparr>dcalls := t, downer := JoinFrame\<rparr>)"
    using drain pos by (intro dec_step.stop_drain [where was = was]) (simp_all add: decoder_view_def p(3))
  then show ?thesis
    by (rule decoder_part_inv [OF inv real vd, where r = True])
      (use player_oks(4) [OF inv] pos on vd in \<open>simp_all add: p part_defs decoder_view_def same_part\<close>)
qed

lemma clean_frame_inv:
  assumes inv: "player_inv s" and real: "real_objects E" and run: "part_run E cfg ms fd k wait_ms s p ps t"
    and pos: "pl_pos s = Clean why CFrame" and "ready s"
  shows "player_inv (moved_on p ps t s)"
proof -
  obtain vd where vd: "ps_decoder (pl_ps s) = Some vd" "vd_initialized vd" and on: "ps_decoder_running (pl_ps s)"
    by (rule stopping_decoder [OF inv pos]) simp_all
  obtain vd' t' where join: "run_state (join_frame vd) (pl_calls s) = (vd', t')" by (metis surj_pair)
  have p: "p = Clean why CDisplay" "ps = (pl_ps s)\<lparr>ps_decoder := Some vd'\<rparr>" "t' = t" using run join pos vd by auto
  have "dec_step E (decoder_view vd s) ((decoder_view vd s)\<lparr>vdec := vd', dcalls := t, downer := JoinDisplay, fpc := FNone\<rparr>)"
    using join pos assms(5) by (intro dec_step.stop_join_frame) (auto simp: decoder_view_def p(3) ready_def)
  then show ?thesis
    by (rule decoder_part_inv [OF inv real vd, where r = True])
      (use player_oks(4) [OF inv] pos on in \<open>simp_all add: p part_defs decoder_view_def\<close>)
qed

lemma clean_display_inv:
  assumes inv: "player_inv s" and real: "real_objects E" and run: "part_run E cfg ms fd k wait_ms s p ps t"
    and pos: "pl_pos s = Clean why CDisplay" and "ready s"
  shows "player_inv (moved_on p ps t s)"
proof -
  obtain vd where vd: "ps_decoder (pl_ps s) = Some vd" "vd_initialized vd" and on: "ps_decoder_running (pl_ps s)"
    by (rule stopping_decoder [OF inv pos]) simp_all
  have frame: "pl_frame s = FNone"
    using player_oks(2) [OF inv] vd pos by (simp add: decoder_ok_def dec_agree_def decoder_view_def)
  obtain vd' t' where join: "run_state (join_display vd) (pl_calls s) = (vd', t')" by (metis surj_pair)
  have p: "p = Clean why CDiscard" "ps = (pl_ps s)\<lparr>ps_decoder := Some vd'\<rparr>" "t' = t" using run join pos vd by auto
  have "dec_step E (decoder_view vd s) ((decoder_view vd s)\<lparr>vdec := vd', dcalls := t, downer := Free, dpc := DNone\<rparr>)"
    using join pos assms(5) by (intro dec_step.stop_join_display) (auto simp: decoder_view_def p(3) ready_def)
  then show ?thesis
    by (rule decoder_part_inv [OF inv real vd, where r = True])
      (use player_oks(4) [OF inv] pos on frame in \<open>simp_all add: p part_defs decoder_view_def\<close>)
qed

text \<open>A decoder without threads is made or destroyed.\<close>

lemma idle_decoder:
  assumes "decoder_ok s" and "pl_frame s = FNone" and "pl_display s = DNone"
  shows "dec_inv (ps_decoder (pl_ps s))"
  using assms by (auto simp: decoder_ok_def dec_inv_def vd_inv_def vd_settled_def vd_idle_def dec_agree_def decoder_view_def
      split: option.splits)

lemma decoder_opened_ok:
  assumes "decoder_opened ps x" and "pl_ps s = snd x" and "pl_frame s = FNone" and "pl_display s = DNone"
    and "decoder_owner (pl_pos s) = Free"
  shows "decoder_ok s"
  using assms by (auto simp: decoder_opened_def decoder_ok_def dec_agree_def decoder_view_def vd_inv_def vd_idle_def split: option.splits)

lemma decoder_change_inv:
  assumes inv: "player_inv s" and run: "run_state m (pl_calls s) = (x, t)"
    and own: "\<And>M. wp own m (\<lambda>x M'. M' = M + ps_owned (g x) \<and> P x) (M + ps_owned (pl_ps s))"
    and ps: "ps = g x" and keeps: "after p t s = s" "receiver_joined p = receiver_joined (pl_pos s)"
    and ok: "P x \<Longrightarrow> ps_udp_receiver ps = ps_udp_receiver (pl_ps s) \<and> decoder_ok (moved_on p ps t s)
      \<and> pipe_ok (moved_on p ps t s) \<and> place_ok (moved_on p ps t s)"
  shows "player_inv (moved_on p ps t s)"
proof -
  obtain L where L: "leaky L" "monitor own {#} (pl_calls s) = Some (L + held_by s + ps_owned (pl_ps s))"
    using inv by (auto simp: player_inv_def)
  from wp_after [OF own run L(2)] have t: "monitor own {#} t = Some (L + held_by s + ps_owned ps)" "P x" by (auto simp: ps)
  have "receiver_ok (moved_on p ps t s)"
    by (rule receiver_kept [OF player_oks(1) [OF inv]]) (use ok [OF t(2)] keeps in simp_all)
  then show ?thesis
    using t ok [OF t(2)] keeps by (intro player_invI [OF _ L(1)]) (simp_all add: player_ok_def held_by_def)
qed

lemma open_decoder_inv:
  assumes inv: "player_inv s" and real: "real_objects E" and run: "part_run E cfg ms fd k wait_ms s p ps t"
    and pos: "pl_pos s = OpenDecoder"
  shows "player_inv (moved_on p ps t s)"
proof -
  note oks = player_oks [OF inv]
  have none: "ps_decoder (pl_ps s) = None" "pl_frame s = FNone" "pl_display s = DNone"
    using oks(2,4) pos by (auto simp: place_defs decoder_ok_def)
  obtain ok ps' t' where opn: "run_state (open_decoder E cfg ms fd (pl_ps s)) (pl_calls s) = ((ok, ps'), t')" by (metis surj_pair)
  have p: "p = (if ok then StartFrame else Clean Undo CSink)" "ps' = ps" "t' = t" using run opn pos by auto
  show ?thesis
  proof (rule decoder_change_inv [OF inv opn [unfolded p(2,3)] open_decoder_ps [OF real none(1)], where p = p])
    show "ps_udp_receiver ps = ps_udp_receiver (pl_ps s) \<and> decoder_ok (moved_on p ps t s)
        \<and> pipe_ok (moved_on p ps t s) \<and> place_ok (moved_on p ps t s)" if opened: "decoder_opened (pl_ps s) (ok, ps)"
    proof -
      have "decoder_ok (moved_on p ps t s)"
        by (rule decoder_opened_ok [OF opened]) (use none p(1) pos in \<open>simp_all add: after_def\<close>)
      moreover obtain d i where "ps = (pl_ps s)\<lparr>ps_decoder := d, ps_decoder_initialized := i\<rparr>" "ok \<longrightarrow> opened ps"
        using opened by (auto simp: decoder_opened_def opened_def split: option.splits)
      ultimately show ?thesis
        using oks(3,4) pos by (cases ok) (simp_all add: p(1) after_def place_defs pipe_ok_def)
    qed
  qed (use pos p(1) in \<open>simp_all add: after_def receiver_joined_def\<close>)
qed

lemma discard_inv:
  assumes inv: "player_inv s" and run: "part_run E cfg ms fd k wait_ms s p ps t" and pos: "pl_pos s = Clean why CDiscard"
  shows "player_inv (moved_on p ps t s)"
proof -
  note oks = player_oks [OF inv]
  have none: "pl_frame s = FNone" "pl_display s = DNone" using oks(4) pos by (simp_all add: place_defs)
  obtain ps' t' where discard: "run_state (discard_decoder E (pl_ps s)) (pl_calls s) = (ps', t')" by (metis surj_pair)
  have p: "p = Clean why CRecorder" "ps' = ps" "t' = t" using run discard pos by auto
  show ?thesis
    by (rule decoder_change_inv [OF inv discard [unfolded p(2,3)] discard_decoder_ps [OF idle_decoder [OF oks(2) none]], where p = p])
      (use oks(3,4) pos none in \<open>simp_all add: p(1) part_defs decoder_ok_def\<close>)
qed

section \<open>The calls\<close>

lemma call_start_inv:
  assumes inv: "player_inv s" and run: "run_state (begin_start E cfg (pl_ps s)) (pl_calls s) = ((ok, ps), t)"
    and rest: "pl_pos s = Rest r" and stopped: "ps_state (pl_ps s) = PIPELINE_STOPPED"
    and s': "s' = s\<lparr>pl_ps := ps, pl_calls := t, pl_pos := (if ok then StartReceiver else Clean Undo CSink)\<rparr>"
  shows "player_inv s'"
proof -
  note oks = player_oks [OF inv]
  obtain L where L: "leaky L" "monitor own {#} (pl_calls s) = Some (L + held_by s + ps_owned (pl_ps s))"
    using inv by (auto simp: player_inv_def)
  have empty: "ps_empty (pl_ps s)" "\<not> ps_decoder_running (pl_ps s)" using oks(4) rest stopped by (simp_all add: place_defs)
  from wp_after [OF begin_start_ps [OF empty(1)] run L(2)] obtain L' where
    t: "leaky L'" "monitor own {#} t = Some (L + held_by s + L' + ps_owned ps)" and ent: "entered cfg (pl_ps s) (ok, ps)" by auto
  obtain q a ur where ps: "ps = (reset_fields cfg ((pl_ps s)\<lparr>ps_gst_ready := True, ps_initialized := True\<rparr>))
      \<lparr>ps_pipeline := q, ps_appsink := a, ps_udp_receiver := ur\<rparr>"
    and ok: "if ok then q \<noteq> 0 \<and> (\<exists>u. ur = Some u \<and> ur_inv u \<and> \<not> ur_running u) else ur = None"
    using ent by (auto simp: entered_def)
  have none: "pl_recv s = NoThread" "pl_sink s = SNone" "pl_bus s = BNone" "pl_frame s = FNone" "pl_display s = DNone"
    using oks(1-3) empty(1) by (simp_all add: ps_empty_def receiver_ok_def decoder_ok_def pipe_ok_def)
  have "receiver_ok s'"
    using ok none by (cases ok) (auto simp: s' ps receiver_ok_def receiver_view_def sys_agree_def ur_inv_def receiver_joined_def)
  moreover have "decoder_ok s'" using empty none by (simp add: s' ps decoder_ok_def reset_fields_def ps_empty_def)
  moreover have "pipe_ok s'" using oks(3) empty none stopped by (simp add: s' ps pipe_ok_def reset_fields_def ps_empty_def)
  moreover have "place_ok s'"
    using ok none empty stopped by (cases ok) (auto simp: s' ps place_defs reset_fields_def ps_empty_def)
  ultimately show ?thesis
    using L(1) t none by (intro player_invI [of _ "L + L'"]) (simp_all add: player_ok_def held_by_def s' ac_simps)
qed

lemma call_stop_inv:
  assumes inv: "player_inv s" and run: "run_state (stop_notice E (pl_ps s)) (pl_calls s) = ((go, ps), t)"
    and rest: "pl_pos s = Rest r" and init: "ps_initialized (pl_ps s)"
    and s': "s' = s\<lparr>pl_ps := ps, pl_calls := t, pl_pos := (if go then StopReceiver else Rest 0)\<rparr>"
  shows "player_inv s'"
proof (rule pipe_part_inv [OF inv run leakless [OF stop_notice_ps [OF init]]])
  show "same_views s s' \<and> pipe_ok s' \<and> place_ok s'"
    if "(go, ps) = (if ps_state (pl_ps s) = PIPELINE_STOPPED then (False, pl_ps s)
      else (True, (pl_ps s)\<lparr>ps_state := PIPELINE_STOPPING, ps_stop_requested := True\<rparr>))"
    using that player_oks(3,4) [OF inv] rest init
    by (cases "ps_state (pl_ps s) = PIPELINE_STOPPED") (simp_all add: s' part_defs)
qed (simp_all add: s')

lemma call_poll_inv:
  assumes inv: "player_inv s" and run: "run_state (poll_look E (pl_ps s)) (pl_calls s) = (gone, t)"
    and rest: "pl_pos s = Rest r" and init: "ps_initialized (pl_ps s)"
    and s': "s' = s\<lparr>pl_calls := t, pl_pos := (if gone then BusJoin else Rest 0)\<rparr>"
  shows "player_inv s'"
proof (rule pipe_part_inv [OF inv run leakless [OF poll_look_own [OF init]]])
  have "gone \<longrightarrow> ps_bus_thread (pl_ps s) \<noteq> 0" using run by (auto simp: poll_look_def split: if_splits)
  then have "gone \<longrightarrow> ps_state (pl_ps s) \<noteq> PIPELINE_STOPPED"
    using player_oks(4) [OF inv] rest by (auto simp: place_defs ps_empty_def)
  then show "same_views s s' \<and> pipe_ok s' \<and> place_ok s'"
    using player_oks(3,4) [OF inv] rest init by (cases gone) (simp_all add: s' part_defs)
qed (simp_all add: s')

lemma call_record_inv:
  assumes inv: "player_inv s" and run: "run_state (enable_recording E c (pl_ps s)) (pl_calls s) = ((r', ps), t)"
    and rest: "pl_pos s = Rest r" and running: "ps_state (pl_ps s) = PIPELINE_RUNNING"
    and s': "s' = s\<lparr>pl_ps := ps, pl_calls := t\<rparr>"
  shows "player_inv s'"
proof (rule pipe_part_inv [OF inv run, where g = snd and P = "\<lambda>x. \<exists>rec. rec_inv rec \<and> snd x = (pl_ps s)\<lparr>ps_recorder := rec\<rparr>"])
  have "rec_inv (ps_recorder (pl_ps s))" "ps_initialized (pl_ps s)"
    using player_oks(3,4) [OF inv] rest running by (simp_all add: pipe_ok_def place_defs)
  then show "wp own (enable_recording E c (pl_ps s)) (\<lambda>x M'. \<exists>L. leaky L \<and> M' = M + L + ps_owned (snd x)
      \<and> (\<exists>rec. rec_inv rec \<and> snd x = (pl_ps s)\<lparr>ps_recorder := rec\<rparr>)) (M + ps_owned (pl_ps s))" for M
  proof (rule enable_recording_rec)
    show "\<exists>L'. leaky L' \<and> M + ps_owned ((pl_ps s)\<lparr>ps_recorder := rec\<rparr>) + L = M + L' + ps_owned (snd (r, (pl_ps s)\<lparr>ps_recorder := rec\<rparr>))
        \<and> (\<exists>rec'. rec_inv rec' \<and> snd (r, (pl_ps s)\<lparr>ps_recorder := rec\<rparr>) = (pl_ps s)\<lparr>ps_recorder := rec'\<rparr>)"
      if "rec_inv rec" "leaky L" for r :: int and rec L
      using that by (intro exI [of _ L]) (auto simp: ac_simps)
  qed
  show "same_views s s' \<and> pipe_ok s' \<and> place_ok s'" if "\<exists>rec. rec_inv rec \<and> snd (r', ps) = (pl_ps s)\<lparr>ps_recorder := rec\<rparr>"
    using that player_oks(3,4) [OF inv] rest running by (elim exE conjE) (simp add: s' part_defs)
qed (simp_all add: s')

lemma call_no_record_inv:
  assumes inv: "player_inv s" and run: "run_state (drop_recorder E (pl_ps s)) (pl_calls s) = (ps, t)"
    and rest: "pl_pos s = Rest r" and running: "ps_state (pl_ps s) = PIPELINE_RUNNING"
    and s': "s' = s\<lparr>pl_ps := ps, pl_calls := t\<rparr>"
  shows "player_inv s'"
proof (rule pipe_part_inv [OF inv run leakless [OF drop_recorder_ps]])
  show "rec_inv (ps_recorder (pl_ps s))" "ps_initialized (pl_ps s)"
    using player_oks(3,4) [OF inv] rest running by (simp_all add: pipe_ok_def place_defs)
  show "same_views s s' \<and> pipe_ok s' \<and> place_ok s'" if "ps = (pl_ps s)\<lparr>ps_recorder := None\<rparr>"
    using that player_oks(3,4) [OF inv] rest running by (simp add: s' part_defs rec_inv_def)
qed (simp_all add: s')

section \<open>Every step\<close>

lemma main_part_inv:
  assumes inv: "player_inv s" and real: "real_objects E" and run: "part_run E cfg ms fd k wait_ms s p ps t" and ready: "ready s"
    and busy: "\<not> resting (pl_pos s)"
  shows "player_inv (moved_on p ps t s)"
proof -
  have bus: "bus_held (pl_bus s) = {#}" if "pl_pos s = BusJoin \<or> pl_pos s = Clean why CBus" for why
    using ready that by (auto simp: ready_def)
  note rules = start_receiver_inv [OF inv run] start_playing_inv [OF inv run] open_decoder_inv [OF inv real run]
    start_frame_inv [OF inv real run] start_display_inv [OF inv real run] undo_frame_inv [OF inv real run _ ready]
    start_sink_inv [OF inv run] start_bus_inv [OF inv run] stop_receiver_inv [OF inv run] end_receiver_inv [OF inv run _ ready]
    sink_join_inv [OF inv run] bus_await_inv [OF inv run] bus_join_inv [OF inv run _ bus]
  note clean_rules = clean_sink_inv [OF inv run] clean_bus_inv [OF inv run _ bus] clean_receiver_inv [OF inv run]
    end_receiver_inv [OF inv run _ ready] free_receiver_inv [OF inv run] clean_gst_inv [OF inv run]
    clean_decoder_inv [OF inv real run] clean_drain_inv [OF inv real run] clean_frame_inv [OF inv real run _ ready]
    clean_display_inv [OF inv real run _ ready] discard_inv [OF inv run] clean_recorder_inv [OF inv run]
  show ?thesis
  proof (cases "pl_pos s")
    case (Clean why c)
    then show ?thesis by (cases c) (simp_all add: clean_rules)
  qed (use busy in \<open>simp_all add: resting_def rules\<close>)
qed

lemma seeing_real: "real_objects (seeing E ps) = real_objects E"
  by (simp add: real_objects_def seeing_def)

lemma player_step_inv:
  assumes "player_step E cfg ms fd s s'" and "real_objects E" and "player_inv s"
  shows "player_inv s'"
  using assms(1)
proof cases
  case (call_start ok ps t)
  then show ?thesis using call_start_inv [OF assms(3)] unfolding resting_def by blast
next
  case (call_stop go ps t)
  then show ?thesis using call_stop_inv [OF assms(3)] unfolding resting_def by blast
next
  case (call_poll gone t)
  then show ?thesis using call_poll_inv [OF assms(3)] unfolding resting_def by blast
next
  case (call_record c r ps t)
  then show ?thesis using call_record_inv [OF assms(3)] unfolding resting_def by blast
next
  case (call_no_record ps t)
  then show ?thesis using call_no_record_inv [OF assms(3)] unfolding resting_def by blast
next
  case (main_part k wait_ms p ps t)
  then show ?thesis using main_part_inv [OF assms(3)] assms(2) seeing_real by blast
next
  case (receiver_thread ur v)
  then show ?thesis using receiver_thread_inv [OF assms(3)] by blast
next
  case (pipe_thread v)
  then show ?thesis using pipe_thread_inv [OF assms(3)] by blast
next
  case (decoder_thread vd v)
  then show ?thesis using decoder_thread_inv [OF assms(3,2)] by blast
qed

end
