(* ===== verification/Player_Live.thy ===== *)
theory Player_Live
  imports Player_Steps
begin

text \<open>
  What the player's invariant gives: safety of every interleaving of \<open>main\<close> with the five threads, and
  that a call of \<open>main\<close> returns once a stop has been requested.
\<close>

section \<open>How far a call still has to go\<close>

text \<open>The thread whose end \<open>main\<close> awaits at a place, and where that thread is.\<close>

datatype awaited = Nobody | ForReceiver thread_pc | ForSink sink_pc | ForBus bus_pc | ForFrame frame_pc | ForDisplay display_pc

fun awaits :: "main_pos \<Rightarrow> player \<Rightarrow> awaited" where
  "awaits EndReceiver s = ForReceiver (pl_recv s)"
| "awaits SinkJoin s = ForSink (pl_sink s)"
| "awaits BusJoin s = ForBus (pl_bus s)"
| "awaits UndoFrame s = ForFrame (pl_frame s)"
| "awaits (Clean why CSink) s = ForSink (pl_sink s)"
| "awaits (Clean why CBus) s = ForBus (pl_bus s)"
| "awaits (Clean why CEndReceiver) s = ForReceiver (pl_recv s)"
| "awaits (Clean why CFrame) s = ForFrame (pl_frame s)"
| "awaits (Clean why CDisplay) s = ForDisplay (pl_display s)"
| "awaits _ s = Nobody"

fun wait_rank :: "awaited \<Rightarrow> nat" where
  "wait_rank Nobody = 0" | "wait_rank (ForReceiver p) = pc_rank p" | "wait_rank (ForSink p) = sink_rank p"
| "wait_rank (ForBus p) = bus_rank p" | "wait_rank (ForFrame p) = frame_rank p"
| "wait_rank (ForDisplay p) = display_rank p"

text \<open>
  The parts that are to come, each with room for the wait at its beginning. A start has none of its own:
  only the end of a call is counted.
\<close>

fun place_rank :: "main_pos \<Rightarrow> nat" where
  "place_rank StopReceiver = 44" | "place_rank EndReceiver = 40" | "place_rank SinkJoin = 35" | "place_rank BusAwait = 34"
| "place_rank BusJoin = 29" | "place_rank (Clean why CSink) = 24" | "place_rank (Clean why CBus) = 19"
| "place_rank (Clean why CReceiver) = 18" | "place_rank (Clean why CEndReceiver) = 14"
| "place_rank (Clean why CFreeReceiver) = 13" | "place_rank (Clean why CGst) = 12" | "place_rank (Clean why CDecoder) = 11"
| "place_rank (Clean why (CDrain w)) = 10" | "place_rank (Clean why CFrame) = 6" | "place_rank (Clean why CDisplay) = 3"
| "place_rank (Clean why CDiscard) = 2" | "place_rank (Clean why CRecorder) = 1" | "place_rank _ = 0"

definition player_rank :: "player \<Rightarrow> nat" where
  "player_rank s = place_rank (pl_pos s) + wait_rank (awaits (pl_pos s) s)"

text \<open>\<open>main\<close> is in a stop, a poll or a cleanup, and the threads have been asked to stop.\<close>

definition leaving :: "player \<Rightarrow> bool" where
  "leaving s \<longleftrightarrow> ps_stop_requested (pl_ps s) \<and> 0 < place_rank (pl_pos s)"

text \<open>A step that brings neither \<open>main\<close> nor the thread it awaits any further.\<close>

definition held_up :: "player \<Rightarrow> player \<Rightarrow> bool" where
  "held_up s s' \<longleftrightarrow> pl_pos s' = pl_pos s \<and> awaits (pl_pos s) s' = awaits (pl_pos s) s"

fun most :: "main_pos \<Rightarrow> nat" where
  "most EndReceiver = 3" | "most SinkJoin = 4" | "most BusJoin = 4" | "most (Clean why CSink) = 4"
| "most (Clean why CBus) = 4" | "most (Clean why CEndReceiver) = 3" | "most (Clean why CFrame) = 3"
| "most (Clean why CDisplay) = 2" | "most UndoFrame = 3" | "most _ = 0"

lemma wait_rank_most: "wait_rank (awaits p s) \<le> most p"
proof -
  have "pc_rank a \<le> 3" for a by (cases a) simp_all
  moreover have "sink_rank b \<le> 4" for b by (cases b) simp_all
  moreover have "bus_rank c \<le> 4" for c by (cases c) simp_all
  moreover have "frame_rank d \<le> 3" for d by (cases d) simp_all
  moreover have "display_rank e \<le> 2" for e by (cases e) simp_all
  ultimately show ?thesis by (induction p s rule: awaits.induct) simp_all
qed

lemma player_rank_bound: "player_rank s \<le> place_rank (pl_pos s) + most (pl_pos s)"
  using wait_rank_most by (simp add: player_rank_def)

lemma clean_place: "0 < place_rank (Clean why c)"
  by (cases c) simp_all

lemma rank_most: "place_rank p + most p \<le> 44"
  by (induction p rule: place_rank.induct) simp_all

text \<open>A part leads on.\<close>

lemma clean_part_on:
  "returns (clean_part E why c ps)
     (\<lambda>x. place_rank (fst x) + most (fst x) < place_rank (Clean why c))"
  by (cases c; cases why)
    (auto intro!: returns_bind_any returns_ret returns_case_option simp: leave_def split: option.splits prod.splits bool.splits)

lemma main_part_on:
  assumes "0 < place_rank p"
  shows "returns (main_part E cfg ms fd k wait_ms p ps) (\<lambda>x. place_rank (fst x) + most (fst x) < place_rank p)"
proof (cases p)
  case (Clean why c)
  then show ?thesis using clean_part_on by simp
qed (use assms in \<open>auto intro!: returns_bind_any returns_if returns_ret returns_case_option\<close>)

section \<open>The threads end\<close>

lemma receiver_nearer:
  assumes "receiver_moves E u v" and "ur_stop_requested (shared u)"
  shows "pc_rank (thread v) < pc_rank (thread u)"
  using assms by (cases rule: receiver_moves.cases) (auto simp: receiver_check_def)

lemma pipe_nearer:
  assumes "pipe_moves E u v" and "ps_stop_requested (pipe u)"
  shows "(bpc v = bpc u \<and> sink_rank (spc v) < sink_rank (spc u))
    \<or> (spc v = spc u \<and> (bus_rank (bpc v) < bus_rank (bpc u) \<or> bpc v = bpc u))"
  using assms(1)
proof cases
  case (sink_turn mp neon n turn ps t)
  then have "turn = TurnStop" using returnsD [OF turn_stops [OF assms(2)]] by fastforce
  then show ?thesis using sink_turn by simp
qed auto

lemma decoder_nearer:
  assumes "decoder_moves E u v" and "\<not> vd_running (vdec u)" and "dpc u \<noteq> DWaiting"
  shows "(dpc v = dpc u \<and> frame_rank (fpc v) < frame_rank (fpc u))
    \<or> (fpc v = fpc u \<and> display_rank (dpc v) < display_rank (dpc u))"
  using assms
  by (cases rule: decoder_moves.cases)
    (auto simp: woken_other display_pc_after_def dest: frame_step_stops display_step_leaves)

text \<open>A thread that is awaited has been told.\<close>

lemma joined_stops:
  assumes "receiver_ok s" and "receiver_joined (pl_pos s)" and "ps_udp_receiver (pl_ps s) = Some ur"
  shows "ur_stop_requested ur \<and> pl_recv s \<noteq> NoThread"
  using assms by (auto simp: receiver_ok_def receiver_view_def sys_agree_def)

lemma joined_decoder:
  assumes "decoder_ok s" and "decoder_owner (pl_pos s) \<in> {JoinFrame, JoinDisplay, StartFailed}"
    and "ps_decoder (pl_ps s) = Some vd"
  shows "\<not> vd_running vd \<and> pl_display s \<noteq> DWaiting"
  using assms by (auto simp: decoder_ok_def decoder_view_def dec_agree_def)

section \<open>Every step\<close>

text \<open>A thread's step brings that thread on, or nothing \<open>main\<close> waits for.\<close>

definition nearer :: "player \<Rightarrow> player \<Rightarrow> bool" where
  "nearer s s' \<longleftrightarrow> player_rank s' < player_rank s \<or> player_rank s' = player_rank s \<and> held_up s s'"

lemma awaits_now:
  "awaits p s' = (case awaits p s of Nobody \<Rightarrow> Nobody | ForReceiver _ \<Rightarrow> ForReceiver (pl_recv s')
     | ForSink _ \<Rightarrow> ForSink (pl_sink s') | ForBus _ \<Rightarrow> ForBus (pl_bus s') | ForFrame _ \<Rightarrow> ForFrame (pl_frame s')
     | ForDisplay _ \<Rightarrow> ForDisplay (pl_display s'))"
  by (induction p s rule: awaits.induct) simp_all

lemma awaits_whom:
  "awaits p s = ForReceiver a \<Longrightarrow> receiver_joined p \<and> a = pl_recv s"
  "awaits p s = ForSink b \<Longrightarrow> b = pl_sink s"
  "awaits p s = ForBus c \<Longrightarrow> c = pl_bus s"
  "awaits p s = ForFrame d \<Longrightarrow> decoder_owner p \<in> {JoinFrame, JoinDisplay, StartFailed} \<and> d = pl_frame s"
  "awaits p s = ForDisplay e \<Longrightarrow> decoder_owner p \<in> {JoinFrame, JoinDisplay, StartFailed} \<and> e = pl_display s"
  by (induction p s rule: awaits.induct) (simp_all add: receiver_joined_def)

lemma nearerI:
  assumes "pl_pos s' = pl_pos s"
    and "wait_rank (awaits (pl_pos s) s') < wait_rank (awaits (pl_pos s) s) \<or> awaits (pl_pos s) s' = awaits (pl_pos s) s"
  shows "nearer s s'"
  using assms by (auto simp: nearer_def player_rank_def held_up_def)

lemma main_part_nearer:
  assumes "part_run E cfg ms fd k wait_ms s p ps t" and "0 < place_rank (pl_pos s)"
  shows "player_rank (moved_on p ps t s) < player_rank s"
proof -
  have "place_rank p + most p < place_rank (pl_pos s)"
    using returnsD [OF main_part_on [OF assms(2)] assms(1)] by simp
  then show ?thesis
    using player_rank_bound [of "moved_on p ps t s"] by (simp add: player_rank_def)
qed

lemma receiver_thread_nearer:
  assumes inv: "player_inv s" and ur: "ps_udp_receiver (pl_ps s) = Some ur" and moves: "receiver_moves E (receiver_view ur s) v"
  shows "nearer s (s\<lparr>pl_ps := (pl_ps s)\<lparr>ps_udp_receiver := Some (shared v)\<rparr>, pl_recv := thread v, pl_calls := calls v\<rparr>)"
    (is "nearer s ?s")
proof (rule nearerI)
  have "pc_rank (thread v) < pc_rank (pl_recv s)" if "receiver_joined (pl_pos s)"
    using receiver_nearer [OF moves] joined_stops [OF player_oks(1) [OF inv] that ur] by (simp add: receiver_view_def)
  then show "wait_rank (awaits (pl_pos s) ?s) < wait_rank (awaits (pl_pos s) s) \<or> awaits (pl_pos s) ?s = awaits (pl_pos s) s"
    by (cases "awaits (pl_pos s) s") (auto simp: awaits_now [of _ ?s s] dest: awaits_whom)
qed simp

lemma pipe_thread_nearer:
  assumes moves: "pipe_moves E (pipe_view s) v" and "ps_stop_requested (pl_ps s)"
  shows "nearer s (s\<lparr>pl_ps := pipe v, pl_sink := spc v, pl_bus := bpc v, pl_calls := pcalls v\<rparr>)"
    (is "nearer s ?s")
proof (rule nearerI)
  from pipe_nearer [OF moves] assms(2)
  have "(bpc v = pl_bus s \<and> sink_rank (spc v) < sink_rank (pl_sink s))
    \<or> (spc v = pl_sink s \<and> (bus_rank (bpc v) < bus_rank (pl_bus s) \<or> bpc v = pl_bus s))" by (simp add: pipe_view_def)
  then show "wait_rank (awaits (pl_pos s) ?s) < wait_rank (awaits (pl_pos s) s) \<or> awaits (pl_pos s) ?s = awaits (pl_pos s) s"
    by (cases "awaits (pl_pos s) s") (auto simp: awaits_now [of _ ?s s] dest: awaits_whom)
qed simp

lemma decoder_thread_nearer:
  assumes inv: "player_inv s" and vd: "ps_decoder (pl_ps s) = Some vd" and moves: "decoder_moves E (decoder_view vd s) v"
  shows "nearer s (s\<lparr>pl_ps := (pl_ps s)\<lparr>ps_decoder := Some (vdec v)\<rparr>, pl_frame := fpc v, pl_display := dpc v,
     pl_calls := dcalls v\<rparr>)"
    (is "nearer s ?s")
proof (rule nearerI)
  have "(dpc v = pl_display s \<and> frame_rank (fpc v) < frame_rank (pl_frame s))
      \<or> (fpc v = pl_frame s \<and> display_rank (dpc v) < display_rank (pl_display s))"
    if "decoder_owner (pl_pos s) \<in> {JoinFrame, JoinDisplay, StartFailed}"
    using decoder_nearer [OF moves] joined_decoder [OF player_oks(2) [OF inv] that vd] by (simp add: decoder_view_def)
  then show "wait_rank (awaits (pl_pos s) ?s) < wait_rank (awaits (pl_pos s) s) \<or> awaits (pl_pos s) ?s = awaits (pl_pos s) s"
    by (cases "awaits (pl_pos s) s") (auto simp: awaits_now [of _ ?s s] dest: awaits_whom)
qed simp

lemma player_step_nearer:
  assumes "player_step E cfg ms fd s s'" and inv: "player_inv s" and "leaving s"
  shows "nearer s s'"
proof -
  have place: "0 < place_rank (pl_pos s)" and stop: "ps_stop_requested (pl_ps s)" using assms(3) by (simp_all add: leaving_def)
  then have busy: "\<not> resting (pl_pos s)" by (auto simp: resting_def)
  from assms(1) show ?thesis
  proof cases
    case (main_part k wait_ms p ps t)
    then show ?thesis using main_part_nearer [OF main_part(4) place] by (simp add: nearer_def)
  next
    case (receiver_thread ur v)
    then show ?thesis using receiver_thread_nearer [OF inv] by blast
  next
    case (pipe_thread v)
    then show ?thesis using pipe_thread_nearer [OF _ stop] by blast
  next
    case (decoder_thread vd v)
    then show ?thesis using decoder_thread_nearer [OF inv] by blast
  qed (use busy in blast)+
qed

section \<open>The system goes on\<close>

lemma both_ex: "P x \<Longrightarrow> Q x \<Longrightarrow> \<exists>x. P x \<and> Q x"
  by blast

lemma receiver_goes_on:
  assumes "thread u \<noteq> NoThread" and "thread u \<noteq> Exited" and stop: "ur_stop_requested (shared u)"
  shows "\<exists>v. receiver_moves E u v \<and> thread v \<noteq> thread u"
proof -
  have "\<exists>v. receiver_moves E u v"
  proof (cases "thread u")
    case Created
    then show ?thesis using thread_alloc by (metis surj_pair)
  next
    case AtCheck
    obtain b t where check: "run_state (receiver_check (shared u)) (calls u) = (b, t)" by (metis surj_pair)
    then have "b" using stop by (auto simp: receiver_check_def)
    then show ?thesis using thread_stop [OF AtCheck, of t] check by fastforce
  next
    case AtRecv
    then show ?thesis using thread_recv by (metis surj_pair)
  qed (use assms in auto)
  then show ?thesis using receiver_nearer [OF _ stop] by fastforce
qed

lemma sink_goes_on:
  assumes "spc u \<noteq> SNone" and "spc u \<noteq> SDone" and stop: "ps_stop_requested (pipe u)"
  shows "\<exists>v. pipe_moves E u v \<and> spc v \<noteq> spc u"
proof (cases "spc u")
  case SNew
  obtain ps t where run: "run_state (set_appsink_running (ps_appsink (pipe u) \<noteq> 0) (pipe u)) (pcalls u) = (ps, t)" by (metis surj_pair)
  show ?thesis by (rule both_ex, rule sink_begin [OF SNew run]) (simp add: SNew)
next
  case (STurn mp)
  obtain turn ps t where run: "run_state (appsink_turn (seeing E (pipe u)) True 0 mp (pipe u)) (pcalls u) = ((turn, ps), t)"
    by (metis surj_pair)
  then have turn: "turn = TurnStop" using returnsD [OF turn_stops [OF stop] run] by simp
  show ?thesis by (rule both_ex, rule sink_turn [OF STurn run]) (use turn in \<open>simp_all add: STurn\<close>)
next
  case SEnding
  obtain ps t where run: "run_state (appsink_end E (pipe u)) (pcalls u) = (ps, t)" by (metis surj_pair)
  show ?thesis by (rule both_ex, rule sink_end [OF SEnding run]) (simp add: SEnding)
qed (use assms in auto)

lemma bus_goes_on:
  assumes "bpc u \<noteq> BNone" and "bpc u \<noteq> BDone" and stop: "ps_stop_requested (pipe u)"
  shows "\<exists>v. pipe_moves E u v \<and> (bpc v \<noteq> bpc u \<or> length (popped (pcalls u)) < length (popped (pcalls v)))"
proof (cases "bpc u")
  case BNew
  obtain b ps t where run: "run_state (bus_begin E (pipe u)) (pcalls u) = ((b, ps), t)" by (metis surj_pair)
  show ?thesis by (rule both_ex, rule bus_begin [OF BNew run]) (simp add: BNew)
next
  case (BTurn b)
  obtain running ps t where run: "run_state (bus_turn (seeing E (pipe u)) b (pipe u)) (pcalls u) = ((running, ps), t)"
    by (metis surj_pair)
  show ?thesis by (rule both_ex, rule bus_turn [OF BTurn run]) (use bus_turn_stops [OF run stop] in \<open>auto simp: BTurn\<close>)
next
  case (BEnding b)
  obtain ps t where run: "run_state (bus_end b (pipe u)) (pcalls u) = (ps, t)" by (metis surj_pair)
  show ?thesis by (rule both_ex, rule bus_end [OF BEnding run]) (simp add: BEnding)
qed (use assms in auto)

lemma frame_goes_on:
  assumes "fpc u \<noteq> FNone" and "fpc u \<noteq> FDone" and stop: "\<not> vd_running (vdec u)"
  shows "\<exists>v. decoder_moves E u v \<and> fpc v \<noteq> fpc u"
proof (cases "fpc u")
  case FNew
  show ?thesis by (rule both_ex, rule frame_begin [OF FNew]) (simp add: FNew)
next
  case FTurn
  obtain again vd t where run: "run_state (frame_step E (vdec u)) (dcalls u) = ((again, vd), t)" by (metis surj_pair)
  show ?thesis by (rule both_ex, rule frame_turn [OF FTurn run]) (use frame_step_stops [OF stop run] in \<open>simp add: FTurn\<close>)
next
  case FEnding
  obtain vd t where run: "run_state (frame_thread_end (vdec u)) (dcalls u) = (vd, t)" by (metis surj_pair)
  show ?thesis by (rule both_ex, rule frame_end [OF FEnding run]) (simp add: FEnding)
qed (use assms in auto)

lemma display_goes_on:
  assumes "dpc u \<noteq> DNone" and "dpc u \<noteq> DDone" and stop: "\<not> vd_running (vdec u)"
  shows "\<exists>v. decoder_moves E u v \<and> dpc v \<noteq> dpc u"
proof (cases "dpc u")
  case DNew
  show ?thesis by (rule both_ex, rule display_begin [OF DNew]) (simp add: DNew)
next
  case DLook
  obtain n vd t where run: "run_state (display_step E (vdec u)) (dcalls u) = ((n, vd), t)" by (metis surj_pair)
  show ?thesis by (rule both_ex, rule display_look [OF DLook run]) (use display_step_leaves [OF stop run] in \<open>simp add: DLook display_pc_after_def\<close>)
next
  case DWaiting
  show ?thesis by (rule both_ex, rule display_wake [OF DWaiting]) (simp add: DWaiting)
qed (use assms in auto)

text \<open>\<open>main\<close>'s next part, or the thread it awaits.\<close>

definition takes_bus_message :: "player \<Rightarrow> player \<Rightarrow> bool" where
  "takes_bus_message s s' \<longleftrightarrow> length (popped (pl_calls s)) < length (popped (pl_calls s'))"

lemma ready_awaits:
  "pl_pos s \<noteq> UndoFrame \<Longrightarrow> ready s = (case awaits (pl_pos s) s of Nobody \<Rightarrow> True | ForReceiver a \<Rightarrow> a = Exited
     | ForSink b \<Rightarrow> b = SNone \<or> b = SDone | ForBus c \<Rightarrow> c = BNone \<or> c = BDone
     | ForFrame d \<Rightarrow> d = FNone \<or> d = FDone | ForDisplay e \<Rightarrow> e = DNone \<or> e = DDone)"
  unfolding ready_def by (cases "pl_pos s") (simp_all split: clean_pos.split)

lemma held_up_thread:
  "held_up s s' \<longleftrightarrow> pl_pos s' = pl_pos s \<and> (case awaits (pl_pos s) s of Nobody \<Rightarrow> True | ForReceiver a \<Rightarrow> pl_recv s' = a
     | ForSink b \<Rightarrow> pl_sink s' = b | ForBus c \<Rightarrow> pl_bus s' = c | ForFrame d \<Rightarrow> pl_frame s' = d
     | ForDisplay e \<Rightarrow> pl_display s' = e)"
  unfolding held_up_def awaits_now [of "pl_pos s" s' s] by (cases "awaits (pl_pos s) s") simp_all

lemma leaving_goes_on:
  assumes inv: "player_inv s" and "leaving s"
  shows "\<exists>s'. player_step E cfg ms fd s s' \<and> (\<not> held_up s s' \<or> takes_bus_message s s')"
proof -
  have place: "0 < place_rank (pl_pos s)" and stop: "ps_stop_requested (pl_ps s)" using assms(2) by (simp_all add: leaving_def)
  then have busy: "\<not> resting (pl_pos s)" "pl_pos s \<noteq> UndoFrame" by (auto simp: resting_def)
  note oks = player_oks [OF inv]
  show ?thesis
  proof (cases "ready s")
    case True
    obtain p ps t where run: "part_run (seeing E (pl_ps s)) cfg ms fd 0 0 s p ps t" by (metis surj_pair)
    have "\<not> held_up s (moved_on p ps t s)"
      using main_part_nearer [OF run place] by (auto simp: held_up_def player_rank_def)
    then show ?thesis using main_part [OF busy(1) True run] by blast
  next
    case False
    show ?thesis
    proof (cases "awaits (pl_pos s) s")
      case (ForReceiver a)
      then have at: "receiver_joined (pl_pos s)" "pl_recv s \<noteq> Exited"
        using False awaits_whom(1) busy(2) by (auto simp: ready_awaits)
      then obtain ur where ur: "ps_udp_receiver (pl_ps s) = Some ur"
        using oks(4) by (auto simp: receiver_joined_def place_defs)
      have "ur_stop_requested ur" "pl_recv s \<noteq> NoThread" using joined_stops [OF oks(1) at(1) ur] by simp_all
      then obtain v where v: "receiver_moves E (receiver_view ur s) v" "thread v \<noteq> pl_recv s"
        using receiver_goes_on [of "receiver_view ur s" E] at(2) by (auto simp: receiver_view_def)
      show ?thesis
        by (rule both_ex, rule receiver_thread [OF ur v(1)])
          (use ForReceiver v(2) awaits_whom(1) [OF ForReceiver] in \<open>simp add: held_up_thread\<close>)
    next
      case (ForSink b)
      then have "pl_sink s \<noteq> SNone" "pl_sink s \<noteq> SDone"
        using False awaits_whom(2) busy(2) by (auto simp: ready_awaits)
      then obtain v where v: "pipe_moves E (pipe_view s) v" "spc v \<noteq> pl_sink s"
        using sink_goes_on [of "pipe_view s" E] stop by (auto simp: pipe_view_def)
      show ?thesis
        by (rule both_ex, rule pipe_thread [OF v(1)])
          (use ForSink v(2) awaits_whom(2) [OF ForSink] in \<open>simp add: held_up_thread\<close>)
    next
      case (ForBus c)
      then have "pl_bus s \<noteq> BNone" "pl_bus s \<noteq> BDone"
        using False awaits_whom(3) busy(2) by (auto simp: ready_awaits)
      then obtain v where v: "pipe_moves E (pipe_view s) v"
        "bpc v \<noteq> pl_bus s \<or> length (popped (pl_calls s)) < length (popped (pcalls v))"
        using bus_goes_on [of "pipe_view s" E] stop by (auto simp: pipe_view_def)
      show ?thesis
        by (rule both_ex, rule pipe_thread [OF v(1)])
          (use ForBus v(2) awaits_whom(3) [OF ForBus] in \<open>auto simp: held_up_thread takes_bus_message_def\<close>)
    next
      case (ForFrame d)
      then have at: "decoder_owner (pl_pos s) \<in> {JoinFrame, JoinDisplay, StartFailed}" "pl_frame s \<noteq> FNone" "pl_frame s \<noteq> FDone"
        using False awaits_whom(4) busy(2) by (auto simp: ready_awaits)
      then obtain vd where vd: "ps_decoder (pl_ps s) = Some vd"
        using oks(2) by (auto simp: decoder_ok_def split: option.splits)
      obtain v where v: "decoder_moves E (decoder_view vd s) v" "fpc v \<noteq> pl_frame s"
        using frame_goes_on [of "decoder_view vd s" E] joined_decoder [OF oks(2) at(1) vd] at by (auto simp: decoder_view_def)
      show ?thesis
        by (rule both_ex, rule decoder_thread [OF vd v(1)])
          (use ForFrame v(2) awaits_whom(4) [OF ForFrame] in \<open>simp add: held_up_thread\<close>)
    next
      case (ForDisplay e)
      then have at: "decoder_owner (pl_pos s) \<in> {JoinFrame, JoinDisplay, StartFailed}" "pl_display s \<noteq> DNone" "pl_display s \<noteq> DDone"
        using False awaits_whom(5) busy(2) by (auto simp: ready_awaits)
      then obtain vd where vd: "ps_decoder (pl_ps s) = Some vd"
        using oks(2) by (auto simp: decoder_ok_def split: option.splits)
      obtain v where v: "decoder_moves E (decoder_view vd s) v" "dpc v \<noteq> pl_display s"
        using display_goes_on [of "decoder_view vd s" E] joined_decoder [OF oks(2) at(1) vd] at by (auto simp: decoder_view_def)
      show ?thesis
        by (rule both_ex, rule decoder_thread [OF vd v(1)])
          (use ForDisplay v(2) awaits_whom(5) [OF ForDisplay] in \<open>simp add: held_up_thread\<close>)
    qed (use False busy(2) in \<open>simp add: ready_awaits\<close>)
  qed
qed

interpretation player_wait: waiting_system "player_step E cfg ms fd" "\<lambda>s. real_objects E \<and> s = player_init"
  "\<lambda>s. real_objects E \<and> player_inv s" leaving player_rank held_up for E cfg ms fd
proof
  show "real_objects E \<and> player_inv s" if "real_objects E \<and> s = player_init" for s
    using that player_init_inv by simp
  show "real_objects E \<and> player_inv s'" if "real_objects E \<and> player_inv s" "player_step E cfg ms fd s s'" for s s'
    using that player_step_inv by blast
  show "\<exists>s'. player_step E cfg ms fd s s'" if "real_objects E \<and> player_inv s" "leaving s" for s
    using that leaving_goes_on by blast
  show "player_rank s' < player_rank s \<or> player_rank s' = player_rank s \<and> held_up s s'"
    if "real_objects E \<and> player_inv s" "leaving s" "player_step E cfg ms fd s s'" for s s'
    using that player_step_nearer unfolding nearer_def by blast
qed

section \<open>Properties\<close>

text \<open>What a component's part of the state owns is held.\<close>

lemma receiver_held:
  assumes "receiver_ok s" and "pl_recv s \<noteq> NoThread"
  shows "\<exists>ur. ps_udp_receiver (pl_ps s) = Some ur
     \<and> {#Heap UdpReceiverObj, Mutex UrLock, Ref (ur_video_appsrc ur), Fd (ur_sockfd ur)#} \<subseteq># ps_owned (pl_ps s)"
proof -
  obtain ur where ur: "ps_udp_receiver (pl_ps s) = Some ur" and agree: "sys_agree (receiver_view ur s)"
    using assms by (auto simp: receiver_ok_def split: option.splits)
  then have sock: "ur_running ur" "0 \<le> ur_sockfd ur" using assms(2) by (auto simp: sys_agree_def receiver_view_def)
  then have "ur_owned ur = {#Heap UdpReceiverObj, Mutex UrLock, Ref (ur_video_appsrc ur), Fd (ur_sockfd ur)#}
      + ptr_res Ref (ur_pool ur) + ptr_res Thread (ur_thread ur)"
    using agree assms(2) by (simp add: sys_agree_def receiver_view_def ur_owned_def ptr_res_def fd_res_def)
  then show ?thesis using ur receiver_part(1) [OF ur] by simp
qed

lemma decoder_held:
  assumes "decoder_ok s" and "pl_frame s \<noteq> FNone \<or> pl_display s \<noteq> DNone"
  shows "\<exists>vd. ps_decoder (pl_ps s) = Some vd
     \<and> {#Heap VideoDecoderObj, MppCtx (vd_ctx vd), Mutex VdLock, Cond VdCond#} \<subseteq># ps_owned (pl_ps s)
     \<and> (pl_display s = DWaiting \<longrightarrow> vd_running vd \<and> vd_pending_fb vd = 0)"
proof -
  obtain vd where vd: "ps_decoder (pl_ps s) = Some vd" and inv: "core_inv vd" "vd_initialized vd"
    and agree: "dec_agree (decoder_view vd s)"
    using assms by (auto simp: decoder_ok_def split: option.splits)
  have "{#MppCtx (vd_ctx vd), Mutex VdLock, Cond VdCond#} \<subseteq># vd_owned vd"
    by (simp add: vd_owned_rest [OF inv] sync_def decoding_def)
  then have "{#Heap VideoDecoderObj#} + {#MppCtx (vd_ctx vd), Mutex VdLock, Cond VdCond#}
      \<subseteq># ps_owned ((pl_ps s)\<lparr>ps_decoder := None\<rparr>) + ({#Heap VideoDecoderObj#} + vd_owned vd)"
    by (intro subset_mset.add_increasing subset_mset.add_left_mono) simp_all
  also have "\<dots> = ps_owned (pl_ps s)" unfolding decoder_part(1) [OF vd] add.assoc ..
  finally have "{#Heap VideoDecoderObj, MppCtx (vd_ctx vd), Mutex VdLock, Cond VdCond#} \<subseteq># ps_owned (pl_ps s)"
    by (simp only: add_mset_add_single [symmetric] union_mset_add_mset_left add_0)
  then show ?thesis using vd agree by (auto simp: dec_agree_def decoder_view_def)
qed

lemma pipe_held:
  assumes "pipe_ok s"
  shows "pl_sink s \<noteq> SNone \<Longrightarrow> Ref (ps_pipeline (pl_ps s)) \<in># ps_owned (pl_ps s) \<and> Heap VideoDecoderObj \<in># ps_owned (pl_ps s)"
    and "pl_bus s \<noteq> BNone \<Longrightarrow> Ref (ps_pipeline (pl_ps s)) \<in># ps_owned (pl_ps s)"
  using assms owned_uses by (auto simp: pipe_ok_def)

lemma stopped_empty:
  assumes "player_ok s" and "resting (pl_pos s)" and "ps_state (pl_ps s) = PIPELINE_STOPPED"
  shows "pl_recv s = NoThread \<and> pl_sink s = SNone \<and> pl_bus s = BNone \<and> pl_frame s = FNone \<and> pl_display s = DNone"
    and "ps_owned (pl_ps s) = locks_owned (pl_ps s)"
proof -
  have "ps_empty (pl_ps s)" using assms by (auto simp: player_ok_def place_ok_def resting_def)
  then show "pl_recv s = NoThread \<and> pl_sink s = SNone \<and> pl_bus s = BNone \<and> pl_frame s = FNone \<and> pl_display s = DNone"
    and "ps_owned (pl_ps s) = locks_owned (pl_ps s)"
    using assms(1) ps_empty_owned by (auto simp: ps_empty_def player_ok_def receiver_ok_def decoder_ok_def pipe_ok_def)
qed



section \<open>A player that has been started\<close>

abbreviation full_step :: "player \<Rightarrow> player \<Rightarrow> bool" where
  "full_step \<equiv> player_step plane_env cfg_defaults small_modeset 3"

text \<open>As long as no thread has set a flag, what is read of them is what \<open>plane_env\<close> answers.\<close>

definition unflagged :: "PipelineState \<Rightarrow> bool" where
  "unflagged ps \<longleftrightarrow> \<not> ps_bus_thread_running ps \<and> \<not> ps_appsink_thread_running ps \<and> \<not> ps_stop_requested ps
     \<and> \<not> ps_encountered_error ps"

lemma unflagged_seeing: "unflagged ps \<Longrightarrow> seeing plane_env ps = plane_env"
  by (simp add: unflagged_def seeing_def plane_env_def mpp_only_env_def null_env_def)

text \<open>One part of a start, from any state where it comes.\<close>

definition at_part :: "main_pos \<Rightarrow> PipelineState \<Rightarrow> player \<Rightarrow> bool" where
  "at_part p ps s \<longleftrightarrow> full_step\<^sup>*\<^sup>* player_init s \<and> pl_pos s = p \<and> pl_ps s = ps \<and> unflagged ps"

lemma next_part:
  assumes "at_part p ps s" and "\<not> resting p" and "ready s"
    and "returns (main_part plane_env cfg_defaults small_modeset 3 0 0 p ps) (\<lambda>x. fst x = q \<and> unflagged (snd x) \<and> P (snd x))"
  obtains ps' t where "at_part q ps' (moved_on q ps' t s)" "P ps'"
proof -
  obtain r ps' t where run: "part_run plane_env cfg_defaults small_modeset 3 0 0 s r ps' t" by (metis surj_pair)
  have at: "full_step\<^sup>*\<^sup>* player_init s" "pl_pos s = p" "pl_ps s = ps" "unflagged ps" using assms(1) by (auto simp: at_part_def)
  have q: "r = q" "unflagged ps'" "P ps'" using returnsD [OF assms(4) run [unfolded at(2,3)]] by auto
  have "full_step s (moved_on q ps' t s)"
    using main_part [of s plane_env cfg_defaults small_modeset 3] assms(2,3) at run q(1) unflagged_seeing by metis
  with at(1) have "full_step\<^sup>*\<^sup>* player_init (moved_on q ps' t s)" by (rule rtranclp.rtrancl_into_rtrancl)
  then show thesis using q that [of ps' t] by (simp add: at_part_def)
qed

lemma plane_begins:
  "returns (begin_start plane_env cfg ps) (\<lambda>x. fst x \<and> unflagged (snd x) \<and> ps_decoder (snd x) = ps_decoder ps
     \<and> (\<exists>ur. ps_udp_receiver (snd x) = Some ur \<and> \<not> ur_running ur))"
  unfolding begin_start_def ensure_gst_initialized_def init_locks_def Let_def
  by (auto intro!: returns_intros returns_bind_any returns_bind [OF returns_mono [OF plane_builds]]
      simp: reset_fields_def unflagged_def)

lemma plane_receives_on:
  "\<exists>ur. ps_udp_receiver ps = Some ur \<and> \<not> ur_running ur \<Longrightarrow> unflagged ps \<Longrightarrow> ps_decoder ps = None \<Longrightarrow>
   returns (main_part plane_env cfg ms fd k w StartReceiver ps)
     (\<lambda>x. fst x = StartPlaying \<and> unflagged (snd x) \<and> ps_decoder (snd x) = None)"
  by (auto simp: start_receiver_def udp_receiver_start_def Let_def unflagged_def intro!: returns_intros)

lemma plane_plays_on:
  "unflagged ps \<Longrightarrow> ps_decoder ps = None \<Longrightarrow> returns (main_part plane_env cfg ms fd k w StartPlaying ps)
     (\<lambda>x. fst x = OpenDecoder \<and> unflagged (snd x) \<and> ps_decoder (snd x) = None)"
  by (auto intro!: returns_intros returns_bind [OF returns_mono [OF plane_plays]])

lemma plane_decodes_on:
  "unflagged ps \<Longrightarrow> ps_decoder ps = None \<Longrightarrow> returns (main_part plane_env cfg ms fd k w OpenDecoder ps)
     (\<lambda>x. fst x = StartFrame \<and> unflagged (snd x)
        \<and> (\<exists>vd. ps_decoder (snd x) = Some vd \<and> vd_initialized vd \<and> \<not> vd_running vd))"
  by (auto simp: open_decoder_def video_decoder_new_def video_decoder_init_def Let_def unflagged_def
      intro!: returns_intros returns_mono [OF plane_opens])

lemma plane_threads_on:
  "\<exists>vd. ps_decoder ps = Some vd \<and> vd_initialized vd \<and> \<not> vd_running vd \<Longrightarrow> unflagged ps \<Longrightarrow>
   returns (main_part plane_env cfg ms fd k w StartFrame ps)
     (\<lambda>x. fst x = StartDisplay \<and> unflagged (snd x) \<and> ps_decoder (snd x) \<noteq> None)"
  "ps_decoder ps \<noteq> None \<Longrightarrow> unflagged ps \<Longrightarrow>
   returns (main_part plane_env cfg ms fd k w StartDisplay ps) (\<lambda>x. fst x = StartSink \<and> unflagged (snd x) \<and> True)"
  "unflagged ps \<Longrightarrow>
   returns (main_part plane_env cfg ms fd k w StartSink ps) (\<lambda>x. fst x = StartBus \<and> unflagged (snd x) \<and> True)"
  "unflagged ps \<Longrightarrow> returns (main_part plane_env cfg ms fd k w StartBus ps)
     (\<lambda>x. fst x = Rest 0 \<and> unflagged (snd x) \<and> ps_state (snd x) = PIPELINE_RUNNING)"
  by (auto simp: start_frame_def start_display_def start_appsink_thread_def start_bus_thread_def unflagged_def Let_def
      intro!: returns_intros)

lemma unflagged_at: "at_part p ps s \<Longrightarrow> unflagged ps"
  by (simp add: at_part_def)

text \<open>From the first part that makes a thread to the end of the start.\<close>

lemma reach_decoder_threads:
  assumes "at_part StartFrame ps s" and "\<exists>vd. ps_decoder ps = Some vd \<and> vd_initialized vd \<and> \<not> vd_running vd"
  obtains ps' t where "at_part StartSink ps' (s\<lparr>pl_frame := FNew, pl_display := DNew, pl_ps := ps', pl_pos := StartSink, pl_calls := t\<rparr>)"
proof -
  have pos: "pl_pos s = StartFrame" using assms(1) by (simp add: at_part_def)
  obtain ps1 t1 where 1: "at_part StartDisplay ps1 (moved_on StartDisplay ps1 t1 s)" "ps_decoder ps1 \<noteq> None"
    by (rule next_part [OF assms(1) _ _ plane_threads_on(1) [OF assms(2) unflagged_at [OF assms(1)]]])
      (simp_all add: resting_def ready_def pos)
  obtain ps2 t2 where "at_part StartSink ps2 (moved_on StartSink ps2 t2 (moved_on StartDisplay ps1 t1 s))"
    by (rule next_part [OF 1(1) _ _ plane_threads_on(2) [OF 1(2) unflagged_at [OF 1(1)]]])
      (simp_all add: resting_def ready_def)
  then show thesis using that [of ps2 t2] by (simp add: after_def pos)
qed

lemma reach_pipe_threads:
  assumes "at_part StartSink ps s"
  obtains ps' t where "at_part (Rest 0) ps' (s\<lparr>pl_sink := SNew, pl_bus := BNew, pl_ps := ps', pl_pos := Rest 0, pl_calls := t\<rparr>)"
    "ps_state ps' = PIPELINE_RUNNING"
proof -
  have pos: "pl_pos s = StartSink" using assms(1) by (simp add: at_part_def)
  obtain ps1 t1 where 1: "at_part StartBus ps1 (moved_on StartBus ps1 t1 s)"
    by (rule next_part [OF assms(1) _ _ plane_threads_on(3) [OF unflagged_at [OF assms(1)]]])
      (simp_all add: resting_def ready_def pos)
  obtain ps2 t2 where "at_part (Rest 0) ps2 (moved_on (Rest 0) ps2 t2 (moved_on StartBus ps1 t1 s))" "ps_state ps2 = PIPELINE_RUNNING"
    by (rule next_part [OF 1(1) _ _ plane_threads_on(4) [OF unflagged_at [OF 1(1)]]])
      (simp_all add: resting_def ready_def)
  then show thesis using that [of ps2 t2] by (simp add: after_def pos)
qed

lemma reach_all_threads:
  obtains s where "full_step\<^sup>*\<^sup>* player_init s" "pl_pos s = Rest 0" "ps_state (pl_ps s) = PIPELINE_RUNNING"
    "pl_recv s = Created" "pl_sink s = SNew" "pl_bus s = BNew" "pl_frame s = FNew" "pl_display s = DNew"
proof -
  obtain ok ps t where run: "run_state (begin_start plane_env cfg_defaults (pl_ps player_init)) (pl_calls player_init) = ((ok, ps), t)"
    by (metis surj_pair)
  have ps: ok "unflagged ps" "ps_decoder ps = None" "\<exists>ur. ps_udp_receiver ps = Some ur \<and> \<not> ur_running ur"
    using returnsD [OF plane_begins run] by (auto simp: player_init_def zero_pipeline_def)
  let ?s = "player_init\<lparr>pl_ps := ps, pl_calls := t, pl_pos := StartReceiver\<rparr>"
  have "full_step player_init ?s"
    using call_start [of player_init plane_env cfg_defaults] run ps(1)
    by (simp add: player_init_def zero_pipeline_def resting_def)
  then have 0: "at_part StartReceiver ps ?s" using ps(2) by (simp add: at_part_def)
  obtain ps1 t1 where 1: "at_part StartPlaying ps1 (moved_on StartPlaying ps1 t1 ?s)" "ps_decoder ps1 = None"
    by (rule next_part [OF 0 _ _ plane_receives_on [OF ps(4,2,3)]]) (simp_all add: resting_def ready_def)
  obtain ps2 t2 where 2: "at_part OpenDecoder ps2 (moved_on OpenDecoder ps2 t2 (moved_on StartPlaying ps1 t1 ?s))"
    "ps_decoder ps2 = None"
    by (rule next_part [OF 1(1) _ _ plane_plays_on [OF unflagged_at [OF 1(1)] 1(2)]]) (simp_all add: resting_def ready_def)
  let ?s2 = "moved_on OpenDecoder ps2 t2 (moved_on StartPlaying ps1 t1 ?s)"
  obtain ps3 t3 where 3: "at_part StartFrame ps3 (moved_on StartFrame ps3 t3 ?s2)"
    "\<exists>vd. ps_decoder ps3 = Some vd \<and> vd_initialized vd \<and> \<not> vd_running vd"
    by (rule next_part [OF 2(1) _ _ plane_decodes_on [OF unflagged_at [OF 2(1)] 2(2)]]) (simp_all add: resting_def ready_def)
  show thesis
    by (rule reach_decoder_threads [OF 3], erule reach_pipe_threads, rule that)
      (auto simp: at_part_def after_def)
qed



end
