(* ===== verification/Instance.thy ===== *)
theory Instance
  imports Media_Calls C_Library
begin

text \<open>
  The instance file of \<open>src/main.c\<close>: only one process runs at a time. Errors are only logged, so \<open>errno\<close>
  is kept just where the code compares it.
\<close>

section \<open>The file\<close>

definition EPERM :: int where "EPERM = 1"
definition ENOENT :: int where "ENOENT = 2"
definition EEXIST :: int where "EEXIST = 17"

definition INT_MAX_PID :: int where "INT_MAX_PID = 2147483647"

definition g_instance_pid_path :: string where
  "g_instance_pid_path = ''/tmp/pixelpilot_stripped_rk.pid''"

definition remove_instance_pid :: "env \<Rightarrow> unit io" where
  "remove_instance_pid E = do { _ \<leftarrow> sys_unlink E g_instance_pid_path; ret () }"

text \<open>What \<open>strtol\<close> makes of the bytes read: a process id, or -1.\<close>

definition parse_pid :: "string \<Rightarrow> int" where
  "parse_pid buf =
     (let s = takeWhile (\<lambda>c. c \<noteq> CHR 0x00) buf in
      case strtol10 s of (parsed, endp, range_error) \<Rightarrow>
        if range_error \<or> endp = s \<or> parsed \<le> 0 \<or> INT_MAX_PID < parsed then -1 else parsed)"

definition read_existing_pid :: "env \<Rightarrow> int io" where
  "read_existing_pid E = do {
     fd \<leftarrow> sys_open E g_instance_pid_path;
     if fd < 0 then ret (-1)
     else do {
       buf \<leftarrow> sys_read E fd 63;
       sys_close fd;
       case buf of
         None \<Rightarrow> ret (-1)
       | Some buf \<Rightarrow> ret (if buf = [] then -1 else parse_pid buf)
     }
   }"

definition pid_text :: "env \<Rightarrow> string" where
  "pid_text E = dec_int (e_getpid (proc E)) @ [CHR 0x0A]"

definition drop_pid_file :: "env \<Rightarrow> int \<Rightarrow> int io" where
  "drop_pid_file E fd = do {
     sys_close fd;
     _ \<leftarrow> sys_unlink E g_instance_pid_path;
     ret (-1)
   }"

definition write_pid_file :: "env \<Rightarrow> int io" where
  "write_pid_file E = do {
     (fd, errno) \<leftarrow> sys_open_excl E g_instance_pid_path;
     if fd < 0 then ret (if errno = EEXIST then 1 else -1)
     else if 32 \<le> length (pid_text E) then drop_pid_file E fd
     else do {
       written \<leftarrow> sys_write E fd (pid_text E);
       if written \<noteq> int (length (pid_text E)) then drop_pid_file E fd
       else do { sys_close fd; sys_atexit; ret 0 }
     }
   }"

text \<open>
  One turn of the loop: \<open>None\<close> is that the stale file is gone and the loop goes on. The loop has no bound
  of its own; \<open>n\<close> is a number of turns, and \<open>None\<close> that it has not come to an end within them.
\<close>

definition holder_alive :: "env \<Rightarrow> int \<Rightarrow> bool io" where
  "holder_alive E pid =
     (if 0 < pid then do { (r, errno) \<leftarrow> sys_kill E pid; ret (r = 0 \<or> errno = EPERM) } else ret False)"

definition instance_turn :: "env \<Rightarrow> int option io" where
  "instance_turn E = do {
     rc \<leftarrow> write_pid_file E;
     if rc = 0 then ret (Some 0)
     else if rc < 0 then ret (Some (-1))
     else do {
       pid \<leftarrow> read_existing_pid E;
       alive \<leftarrow> holder_alive E pid;
       if alive then ret (Some (-1))
       else do {
         (r, errno) \<leftarrow> sys_unlink E g_instance_pid_path;
         ret (if r \<noteq> 0 \<and> errno \<noteq> ENOENT then Some (-1) else None)
       }
     }
   }"

fun ensure_single_instance :: "env \<Rightarrow> nat \<Rightarrow> int option io" where
  "ensure_single_instance E 0 = ret None"
| "ensure_single_instance E (Suc n) = do {
     x \<leftarrow> instance_turn E;
     case x of Some r \<Rightarrow> ret (Some r) | None \<Rightarrow> ensure_single_instance E n
   }"

section \<open>Descriptors\<close>

lemma write_pid_own: "wp own (write_pid_file E) (\<lambda>r M'. M' = M \<and> r \<in> {0, 1, -1}) M"
  unfolding write_pid_file_def drop_pid_file_def by (intro wp_intros) (auto simp: own_simps)

lemma read_pid_own: "wp own (read_existing_pid E) (\<lambda>_ M'. M' = M) M"
  unfolding read_existing_pid_def by (intro wp_intros) (auto simp: own_simps)

lemma instance_turn_own: "wp own (instance_turn E) (\<lambda>x M'. M' = M \<and> x \<in> {None, Some 0, Some (-1)}) M"
  unfolding instance_turn_def holder_alive_def
  by (intro wp_intros wp_mono [OF write_pid_own] wp_mono [OF read_pid_own])
    (auto simp: own_simps intro!: wp_intros wp_mono [OF read_pid_own])

lemma ensure_single_instance_own:
  "wp own (ensure_single_instance E n) (\<lambda>x M'. M' = M \<and> x \<in> {None, Some 0, Some (-1)}) M"
proof (induction n)
  case (Suc n)
  show ?case
    unfolding ensure_single_instance.simps
    by (intro wp_intros wp_mono [OF instance_turn_own]) (auto intro!: wp_intros wp_mono [OF Suc])
qed (simp add: wp_return)

section \<open>Whose file it is\<close>

text \<open>
  The monitor of the file: whether the file is the one the process has made, and whether the holder
  of the file has been found alive. Removing the file of a live holder is a violation, and so is
  registering its removal at exit without having made it.
\<close>

record instance_view =
  iv_made :: bool
  iv_alive :: bool

definition guard_file :: "event \<Rightarrow> instance_view \<Rightarrow> instance_view option" where
  "guard_file e v =
     (case e of
        Proc (EvOpenExcl _ fd _) \<Rightarrow> Some (if fd < 0 then v else v\<lparr>iv_made := True, iv_alive := False\<rparr>)
      | Proc (EvKill pid r errno) \<Rightarrow> Some (v\<lparr>iv_alive := (r = 0 \<or> errno = EPERM)\<rparr>)
      | Proc (EvUnlink _ _ _) \<Rightarrow> (if iv_alive v then None else Some (v\<lparr>iv_made := False\<rparr>))
      | Proc EvAtexit \<Rightarrow> (if iv_made v then Some v else None)
      | _ \<Rightarrow> Some v)"

lemma guard_rules:
  "(\<And>x. Q x (if fst x < 0 then v else v\<lparr>iv_made := True, iv_alive := False\<rparr>)) \<Longrightarrow> wp guard_file (sys_open_excl E path) Q v"
  "(\<And>x. Q x (v\<lparr>iv_alive := (fst x = 0 \<or> snd x = EPERM)\<rparr>)) \<Longrightarrow> wp guard_file (sys_kill E pid) Q v"
  "\<not> iv_alive v \<Longrightarrow> (\<And>x. Q' x (v\<lparr>iv_made := False\<rparr>)) \<Longrightarrow> wp guard_file (sys_unlink E path) Q' v"
  "iv_made v \<Longrightarrow> Q'' () v \<Longrightarrow> wp guard_file sys_atexit Q'' v"
  by (rule wp_ext wp_emit; simp add: guard_file_def split: if_splits)+

lemma guard_others:
  "(\<And>r. Q1 r v) \<Longrightarrow> wp guard_file (sys_open E path) Q1 v"
  "(\<And>r. Q2 r v) \<Longrightarrow> wp guard_file (sys_read E fd n) Q2 v"
  "(\<And>r. Q3 r v) \<Longrightarrow> wp guard_file (sys_write E fd s) Q3 v"
  "Q4 () v \<Longrightarrow> wp guard_file (sys_close fd) Q4 v"
  by (auto intro!: wp_ext wp_emit simp: guard_file_def)

lemma write_pid_guarded:
  assumes "\<not> iv_made v" and "\<not> iv_alive v"
  shows "wp guard_file (write_pid_file E) (\<lambda>r v'. \<not> iv_alive v' \<and> (iv_made v' \<longleftrightarrow> r = 0) \<and> r \<in> {0, 1, -1}) v"
  using assms unfolding write_pid_file_def drop_pid_file_def
  by (intro wp_intros guard_rules guard_others) auto

lemma read_pid_guarded: "(\<And>r. Q r v) \<Longrightarrow> wp guard_file (read_existing_pid E) Q v"
  unfolding read_existing_pid_def by (intro wp_intros guard_others)

definition instance_end :: "int option \<Rightarrow> instance_view \<Rightarrow> bool" where
  "instance_end x v \<longleftrightarrow> (iv_made v \<longleftrightarrow> x = Some 0) \<and> (iv_alive v \<longrightarrow> x = Some (-1))"

lemma instance_turn_guarded:
  assumes "\<not> iv_made v" and "\<not> iv_alive v"
  shows "wp guard_file (instance_turn E) instance_end v"
  unfolding instance_turn_def holder_alive_def
  by (intro wp_intros wp_mono [OF write_pid_guarded [OF assms]])
    (auto simp: instance_end_def intro!: wp_intros read_pid_guarded guard_rules)

lemma ensure_guarded:
  assumes "\<not> iv_made v" and "\<not> iv_alive v"
  shows "wp guard_file (ensure_single_instance E n) instance_end v"
  using assms
proof (induction n arbitrary: v)
  case (Suc n)
  show ?case
    unfolding ensure_single_instance.simps
    by (intro wp_intros wp_mono [OF instance_turn_guarded [OF Suc.prems]])
      (auto simp: instance_end_def intro!: wp_intros Suc.IH [unfolded instance_end_def])
qed (simp add: wp_return instance_end_def)

section \<open>The properties\<close>

lemma turn_unlinks:
  assumes "run_state (instance_turn E) t = (None, t')"
  shows "\<exists>r e u. t' = Proc (EvUnlink g_instance_pid_path r e) # u"
  using assms unfolding instance_turn_def by (auto simp: split_beta Let_def split: if_splits prod.splits)

lemma turn_after_unlink:
  assumes "\<And>u r e. \<not> (fst (e_open_excl (proc E) (Proc (EvUnlink g_instance_pid_path r e) # u)) < 0
      \<and> snd (e_open_excl (proc E) (Proc (EvUnlink g_instance_pid_path r e) # u)) = EEXIST)"
  shows "fst (run_state (instance_turn E) (Proc (EvUnlink g_instance_pid_path r e) # u)) \<noteq> None"
proof -
  let ?t = "Proc (EvUnlink g_instance_pid_path r e) # u"
  have "fst (run_state (write_pid_file E) ?t) \<in> {0, -1}"
    using assms [of r e u] unfolding write_pid_file_def drop_pid_file_def by (auto simp: split_beta)
  then show ?thesis
    unfolding instance_turn_def by (auto simp: split_beta)
qed


text \<open>A file left by a process that is gone.\<close>

definition stale_env :: env where
  "stale_env = null_env\<lparr>proc := (proc null_env)\<lparr>e_open_excl := \<lambda>t. if t = [] then (-1, EEXIST) else (4, 0),
     e_open := \<lambda>_ _. 5, e_read := \<lambda>_ _. Some ''77'', e_kill := \<lambda>_ _. (-1, 3), e_unlink := \<lambda>_. (0, 0),
     e_write := \<lambda>_ _ s. int (length s)\<rparr>\<rparr>"


text \<open>
  The text a process writes into the instance file is what another one reads out of it: its own
  process id, within the buffers of both.
\<close>

lemma pid_file_roundtrip:
  assumes "0 < e_getpid (proc E)" and "e_getpid (proc E) \<le> INT_MAX_PID"
  shows "parse_pid (take 63 (pid_text E)) = e_getpid (proc E) \<and> length (pid_text E) < 32"
proof -
  let ?pid = "e_getpid (proc E)"
  have out: "pid_text E = dec_nat (nat ?pid) @ [CHR 0x0A]"
    using assms(1) by (simp add: pid_text_def dec_int_def)
  have "length (dec_nat (nat ?pid)) \<le> 10"
    by (rule length_dec_nat) (use assms in \<open>simp_all add: INT_MAX_PID_def\<close>)
  then have len: "length (pid_text E) < 32" using out by simp
  have "takeWhile (\<lambda>c. c \<noteq> CHR 0x00) (pid_text E) = pid_text E"
    using isdigit_not_NUL dec_nat_digits [of _ "nat ?pid"] by (intro takeWhile_all) (auto simp: out NUL_def)
  moreover have "strtol10 (pid_text E) = (int (nat ?pid), [CHR 0x0A], False)"
    unfolding out by (rule strtol10_dec_nat) (use assms in \<open>simp_all add: isdigit_def INT_MAX_PID_def LONG_MAX_def\<close>)
  ultimately show ?thesis
    using assms len out by (simp add: parse_pid_def)
qed

lemma pid_file_roundtrip_example: "parse_pid (take 63 (pid_text stale_env)) = 1"
proof -
  have pid: "e_getpid (proc stale_env) = 1" by (simp add: stale_env_def null_env_def)
  then have "0 < e_getpid (proc stale_env)" "e_getpid (proc stale_env) \<le> INT_MAX_PID"
    by (simp_all add: INT_MAX_PID_def)
  from conjunct1 [OF pid_file_roundtrip [OF this]] show ?thesis by (simp only: pid)
qed

end
