(* ===== verification/Mode_Order.thy ===== *)
theory Mode_Order
  imports Modeset_Own
begin

text \<open>
  What \<open>better\_mode\<close> prefers: a linear order on the rank of a mode, by refresh rate, then area, then
  the preferred flag, then pixel clock. The locale \<open>preference\<close> holds what follows for the loop that
  keeps the best candidate; it is interpreted on \<open>better\_mode\<close> and \<open>best\_loop\<close>.
\<close>

section \<open>Ranks\<close>

datatype mode_rank = Rank int int bool u32

instantiation mode_rank :: linorder
begin

fun less_mode_rank :: "mode_rank \<Rightarrow> mode_rank \<Rightarrow> bool" where
  "less_mode_rank (Rank h a p c) (Rank h' a' p' c') \<longleftrightarrow>
     h < h' \<or> (h = h' \<and> (a < a' \<or> (a = a' \<and> (p < p' \<or> (p = p' \<and> c < c')))))"

definition less_eq_mode_rank :: "mode_rank \<Rightarrow> mode_rank \<Rightarrow> bool" where
  "less_eq_mode_rank x y \<longleftrightarrow> x < y \<or> x = y"

instance
proof
  fix x y z :: mode_rank
  show "x < y \<longleftrightarrow> x \<le> y \<and> \<not> y \<le> x"
    by (cases x; cases y) (auto simp: less_eq_mode_rank_def)
  show "x \<le> x" by (simp add: less_eq_mode_rank_def)
  show "x \<le> y \<Longrightarrow> y \<le> z \<Longrightarrow> x \<le> z"
    by (cases x; cases y; cases z) (auto simp: less_eq_mode_rank_def)
  show "x \<le> y \<Longrightarrow> y \<le> x \<Longrightarrow> x = y"
    by (cases x; cases y) (auto simp: less_eq_mode_rank_def)
  show "x \<le> y \<or> y \<le> x"
    by (cases x; cases y) (auto simp: less_eq_mode_rank_def)
qed

end

definition mode_rank_of :: "drmModeModeInfo \<Rightarrow> mode_rank" where
  "mode_rank_of m = Rank (vrefresh m) (uint (hdisplay m) * uint (vdisplay m))
     (and (mode_type m) DRM_MODE_TYPE_PREFERRED \<noteq> 0) (clock m)"

lemma better_mode_rank: "better_mode a b \<longleftrightarrow> mode_rank_of b < mode_rank_of a"
  by (auto simp: better_mode_def mode_rank_of_def Let_def)

section \<open>Keeping the best\<close>

locale preference =
  fixes better :: "'a \<Rightarrow> 'a \<Rightarrow> bool"
    and rank :: "'a \<Rightarrow> 'k :: linorder"
    and pick :: "'a \<Rightarrow> 'a list \<Rightarrow> 'a"
  assumes better_rank: "better a b \<longleftrightarrow> rank b < rank a"
    and pick_Nil: "pick b [] = b"
    and pick_Cons: "pick b (m # ms) = pick (if better m b then m else b) ms"
begin

lemma pick_ge_start: "rank b \<le> rank (pick b ms)"
proof (induction ms arbitrary: b)
  case (Cons m ms)
  then show ?case
    using order_trans by (auto simp: pick_Cons better_rank intro: less_imp_le order_trans)
qed (simp add: pick_Nil)

text \<open>The pick is one of the candidates, every one before it ranks lower and none ranks higher.\<close>

lemma pick_split:
  "\<exists>pre post. b # ms = pre @ pick b ms # post
     \<and> (\<forall>m \<in> set pre. rank m < rank (pick b ms)) \<and> (\<forall>m \<in> set post. rank m \<le> rank (pick b ms))"
proof (induction ms arbitrary: b)
  case Nil
  show ?case by (intro exI [of _ "[]"]) (simp add: pick_Nil)
next
  case (Cons m ms)
  show ?case
  proof (cases "better m b")
    case True
    obtain pre post where p: "m # ms = pre @ pick m ms # post"
      "\<forall>x \<in> set pre. rank x < rank (pick m ms)" "\<forall>x \<in> set post. rank x \<le> rank (pick m ms)"
      using Cons.IH [of m] by blast
    have "rank b < rank (pick m ms)"
      using True pick_ge_start [of m ms] by (auto simp: better_rank intro: less_le_trans)
    moreover have "pick b (m # ms) = pick m ms" using True by (simp add: pick_Cons)
    ultimately show ?thesis
      using p by - (rule exI [of _ "b # pre"], rule exI [of _ post], simp)
  next
    case False
    then have le: "rank m \<le> rank b" by (simp add: better_rank not_less)
    have e: "pick b (m # ms) = pick b ms" using False by (simp add: pick_Cons)
    obtain pre post where p: "b # ms = pre @ pick b ms # post"
      "\<forall>x \<in> set pre. rank x < rank (pick b ms)" "\<forall>x \<in> set post. rank x \<le> rank (pick b ms)"
      using Cons.IH [of b] by blast
    show ?thesis
    proof (cases pre)
      case Nil
      then have "pick b ms = b" "post = ms" using p(1) by auto
      then show ?thesis
        unfolding e using p le by - (rule exI [of _ "[]"], rule exI [of _ "m # post"], simp)
    next
      case (Cons c pre')
      then have b: "c = b" "ms = pre' @ pick b ms # post" using p(1) by auto
      have "rank m < rank (pick b ms)" using le p(2) Cons b(1) by (auto intro: le_less_trans)
      then show ?thesis
        unfolding e using p b Cons by - (rule exI [of _ "b # m # pre'"], rule exI [of _ post], simp)
    qed
  qed
qed

end

interpretation modes: preference better_mode mode_rank_of best_loop
  by unfold_locales (simp_all add: better_mode_rank)

section \<open>Properties\<close>


text \<open>
  \<open>better\_mode\<close> is a strict order whose incomparable modes are the ones of equal rank, so the
  choice does not depend on anything else of a mode.
\<close>

theorem better_mode_strict_order:
  "\<not> better_mode a a \<and> (better_mode a b \<longrightarrow> \<not> better_mode b a)
   \<and> (better_mode a b \<and> better_mode b c \<longrightarrow> better_mode a c)
   \<and> (\<not> better_mode a b \<and> \<not> better_mode b a \<longleftrightarrow> mode_rank_of a = mode_rank_of b)"
  by (auto simp: better_mode_rank)

text \<open>The two roundings of the quotient never show.\<close>

lemma vrefresh_quotient:
  assumes "mode_vrefresh m = 0" and "htotal m \<noteq> 0" and "vtotal m \<noteq> 0"
    and "uint (htotal m) * uint (vtotal m) < 2 ^ 31"
    and "uint (clock m) * 1000 < 2 ^ 17 * (uint (htotal m) * uint (vtotal m))"
  shows "vrefresh m = (2 * (uint (clock m) * 1000) + uint (htotal m) * uint (vtotal m))
           div (2 * (uint (htotal m) * uint (vtotal m)))"
proof -
  define d where "d = uint (htotal m) * uint (vtotal m)"
  define n where "n = uint (clock m) * 1000"
  have h: "0 < uint (htotal m)" "0 < uint (vtotal m)"
    using assms(2,3) by (simp_all add: word_neq_0_conv word_less_def)
  then have d: "0 < d" "d < 2 ^ 31" using assms(4) by (auto simp: d_def)
  have c: "0 \<le> uint (clock m)" "uint (clock m) < 2 ^ 32"
    using uint_lt2p [of "clock m"] by simp_all
  then have n: "0 \<le> n" "n < 2 ^ 42" by (simp_all add: n_def)
  have cd: "cast_int d = d" using d by (intro cast_int_id) (simp add: int_range_def)
  define q where "q = rnd (rnd (of_int n / of_int d) + 1/2)"
  have qk: "\<lfloor>q\<rfloor> = (2 * n + d) div (2 * d)"
    unfolding q_def using n d assms(5) by (intro round_quotient) (auto simp: n_def d_def)
  have q0: "0 \<le> q" by (simp add: q_def rnd_nonneg)
  have "d_mul (d_int (uint (clock m))) (d_int 1000) = Fin (drnd (of_int (uint (clock m)) * of_int 1000))"
    using c d_int_exact [of "uint (clock m)"] d_int_exact [of 1000] by simp
  also have "(of_int (uint (clock m)) * of_int 1000 :: rat) = of_int n" by (simp only: n_def of_int_mult)
  also have "drnd (of_int n) = of_int n" using n by (simp add: rnd_int)
  finally have num: "d_mul (d_int (uint (clock m))) (d_int 1000) = Fin (of_int n)" .
  have den: "d_int (cast_int (uint (htotal m) * uint (vtotal m))) = Fin (of_int d)"
    using d cd by (simp add: d_int_exact flip: d_def)
  have "vrefresh m = d_to_int (Fin q)"
    using assms(1-3) d n rnd_nonneg [of "of_int n / of_int d"] unfolding vrefresh_def Let_def num den
    by (simp add: q_def)
  also have "\<dots> = \<lfloor>q\<rfloor>"
  proof -
    have "(2 * n + d) div (2 * d) \<le> 2 ^ 17"
    proof -
      have "2 * n + d < 2 * d * (2 ^ 17 + 1)" using assms(5) d by (simp add: n_def d_def distrib_left)
      moreover have "2 * d * ((2 * n + d) div (2 * d)) \<le> 2 * n + d"
        using d(1) mult_div_mod_eq [of "2 * d" "2 * n + d"] pos_mod_sign [of "2 * d" "2 * n + d"] by linarith
      ultimately have "2 * d * ((2 * n + d) div (2 * d)) < 2 * d * (2 ^ 17 + 1)" by linarith
      then have "(2 * n + d) div (2 * d) < 2 ^ 17 + 1" using d(1) by (simp only: mult_less_cancel_left_pos)
      then show ?thesis by simp
    qed
    moreover have "0 \<le> (2 * n + d) div (2 * d)" using n d by (simp add: pos_imp_zdiv_nonneg_iff)
    ultimately show ?thesis using q0 qk by (simp add: d_to_int_def trunc_def)
  qed
  finally show ?thesis using qk by (simp add: n_def d_def)
qed

text \<open>
  C33. The refresh rate the code computes in floating point for a mode without one is the exact quotient
  \<open>clock * 1000 / (htotal * vtotal)\<close> rounded to the nearest integer, halves upwards, whenever the
  product is an \<open>int\<close> and the rate below \<open>2^17\<close>: the two roundings of the \<open>double\<close>s never show.
\<close>

theorem vrefresh_exact:
  assumes "mode_vrefresh m = 0" and "htotal m \<noteq> 0" and "vtotal m \<noteq> 0"
    and "uint (htotal m) * uint (vtotal m) < 2 ^ 31"
    and "uint (clock m) * 1000 < 2 ^ 17 * (uint (htotal m) * uint (vtotal m))"
  shows "vrefresh m = (2 * (uint (clock m) * 1000) + uint (htotal m) * uint (vtotal m))
           div (2 * (uint (htotal m) * uint (vtotal m)))"
  using assms by (rule vrefresh_quotient)

definition fhd :: drmModeModeInfo where
  "fhd = \<lparr>clock = 148500, hdisplay = 1920, htotal = 2200, vdisplay = 1080, vtotal = 1125,
     mode_vrefresh = 0, mode_type = 0, mode_name = ''1920x1080''\<rparr>"

definition hd60 :: drmModeModeInfo where
  "hd60 = \<lparr>clock = 74250, hdisplay = 1280, htotal = 1650, vdisplay = 720, vtotal = 750,
     mode_vrefresh = 60, mode_type = 8, mode_name = ''1280x720''\<rparr>"

theorem vrefresh_exact_witness: "vrefresh fhd = 60"
  using vrefresh_exact [of fhd] by (simp add: fhd_def)

lemma fhd_rank: "mode_rank_of fhd = Rank 60 2073600 False 148500"
proof -
  have "vrefresh fhd = 60" using vrefresh_quotient [of fhd] by (simp add: fhd_def)
  then show ?thesis by (simp add: mode_rank_of_def fhd_def DRM_MODE_TYPE_PREFERRED_def)
qed

lemma hd60_rank: "mode_rank_of hd60 = Rank 60 921600 True 74250"
proof -
  have "vrefresh hd60 = 60" by (simp add: vrefresh_def hd60_def cast_int_id int_range_def)
  then show ?thesis by (simp add: mode_rank_of_def hd60_def DRM_MODE_TYPE_PREFERRED_def)
qed

theorem better_mode_strict_order_witness: "better_mode fhd hd60 \<and> \<not> better_mode hd60 fhd"
  using better_mode_strict_order [of fhd hd60] by (simp add: better_mode_rank fhd_rank hd60_rank)


end
