(* ===== verification/Modeset_Properties.thy ===== *)
theory Modeset_Properties
  imports Mode_Order
begin

text \<open>
  The properties of the modeset as a whole: what it leaves behind, which connector it takes, and the
  hot-plug check.
\<close>

lemma modeset_own:
  assumes "small_ids E"
  shows "wp own (atomic_modeset_maxhz E fd cfg out)
     (\<lambda>(r, _) M'. M' = M \<and> r \<in> {0, -1, -2, -3, -4, -5, -9}) M"
  unfolding atomic_modeset_maxhz_def
  by (intro wp_intros wp_own_frame [OF connector_loop_own [OF assms]])
    (auto simp: own_simps conn_res_def crtc_res_def split: option.splits prod.splits
      intro!: wp_intros wp_own_frame [OF commit_choice_own])

text \<open>
  C13. Whatever libdrm and the kernel answer, \<open>atomic\_modeset\_maxhz\<close> gives one of its documented codes
  and holds nothing afterwards: no structure, framebuffer, mapping, blob or request is left on any
  path, and none is released twice.
\<close>

theorem atomic_modeset_balanced:
  assumes "small_ids E"
  shows "wp own (atomic_modeset_maxhz E fd cfg out)
     (\<lambda>(r, _) M'. M' = M \<and> r \<in> {0, -1, -2, -3, -4, -5, -9}) M"
  using modeset_own [OF assms] .

text \<open>One HDMI screen with two modes on a CRTC that its encoder already drives.\<close>

definition hdmi :: drmModeConnector where
  "hdmi = \<lparr>conn_ptr = 21, conn_id = 40, conn_encoder_id = 41, connector_type = 11, connector_type_id = 1,
     connection = 1, conn_modes = [hd60, fhd], conn_encoders = [41]\<rparr>"

definition one_screen :: env where
  "one_screen = granting_env\<lparr>drm := (drm granting_env)
     \<lparr>e_get_resources := \<lambda>_ _. Some \<lparr>res_ptr = 20, res_connectors = [39, 40], res_crtcs = [42]\<rparr>,
      e_get_connector := \<lambda>_ _ n. if n = 40 then Some hdmi else None,
      e_get_encoder := \<lambda>_ _ _. Some \<lparr>enc_ptr = 22, enc_crtc_id = 42, enc_possible_crtcs = 1\<rparr>,
      e_get_crtc := \<lambda>_ _ _. Some \<lparr>crtc_ptr = 23, crtc_object_id = 42\<rparr>,
      e_create_blob := \<lambda>_ _. Some 50, e_atomic_alloc := \<lambda>_. 24\<rparr>\<rparr>"

lemma one_screen_small: "small_ids one_screen"
  by (simp add: small_ids_def one_screen_def)

theorem atomic_modeset_balanced_witness:
  "monitor own {#} (trace_of (atomic_modeset_maxhz one_screen 3 cfg_defaults None)) = Some {#}"
  using wp_trace_of [OF atomic_modeset_balanced [OF one_screen_small, of 3 cfg_defaults None "{#}"]]
  by (auto split: prod.splits)

text \<open>
  C25. The connector the modeset takes is one libdrm reported as connected, with modes, and of the
  configured name when one is configured; the mode is the best of its own modes and there is a CRTC.
\<close>

definition acceptable ::
    "AppCfg \<Rightarrow> drmModeConnector option \<times> drmModeCrtc option \<times> drmModeModeInfo \<Rightarrow> bool" where
  "acceptable cfg x = (case x of
     (Some c, crtc, best) \<Rightarrow> crtc \<noteq> None \<and> connection c = DRM_MODE_CONNECTED \<and> conn_modes c \<noteq> []
       \<and> name_allows cfg c \<and> best = best_loop (hd (conn_modes c)) (tl (conn_modes c))
   | _ \<Rightarrow> True)"

lemma connector_loop_acceptable:
  "returns (connector_loop E fd cfg res ns st) (acceptable cfg)"
proof (induction ns arbitrary: st)
  case Nil
  show ?case by (cases st) (simp add: acceptable_def returns_ret)
next
  case (Cons n ns)
  obtain crtc best where st: "st = (crtc, best)" by (cases st)
  have p: "returns (pick_crtc E fd res c crtc) (\<lambda>_. True)" for c crtc by (simp add: returns_def)
  show ?case
    unfolding st connector_loop.simps Let_def
    by (intro returns_intros Cons.IH returns_mono [OF p]) (auto simp: acceptable_def)
qed

theorem modeset_takes_acceptable_connector:
  "returns (connector_loop E fd cfg res (res_connectors res) (None, zero_mode)) (acceptable cfg)"
  by (rule connector_loop_acceptable)

text \<open>
  C38. While libdrm's answers stay the same, \<open>is\_any\_connected\<close> is 1 exactly when one of the
  connectors can be read, is connected and has the configured name, and it leaves nothing allocated.
\<close>

definition stable_connectors ::
    "env \<Rightarrow> int \<Rightarrow> drmModeRes \<Rightarrow> (u32 \<Rightarrow> drmModeConnector option) \<Rightarrow> bool" where
  "stable_connectors E fd res conns \<longleftrightarrow>
     (\<forall>t. e_get_resources (drm E) t fd = Some res) \<and> (\<forall>t n. e_get_connector (drm E) t fd n = conns n)"

definition screen_present :: "AppCfg \<Rightarrow> (u32 \<Rightarrow> drmModeConnector option) \<Rightarrow> u32 \<Rightarrow> bool" where
  "screen_present cfg conns n = (case conns n of
     None \<Rightarrow> False | Some c \<Rightarrow> connection c = DRM_MODE_CONNECTED \<and> name_allows cfg c)"

lemma connected_loop_wp:
  assumes "stable_connectors E fd res conns"
  shows "Q (list_ex (screen_present cfg conns) ns) M \<Longrightarrow> wp own (connected_loop E fd cfg ns) Q M"
proof (induction ns)
  case (Cons n ns)
  have c: "\<And>t. e_get_connector (drm E) t fd n = conns n" using assms by (simp add: stable_connectors_def)
  have p: "screen_present cfg conns n \<longleftrightarrow>
      (\<exists>c. conns n = Some c \<and> connection c = DRM_MODE_CONNECTED \<and> name_allows cfg c)"
    by (simp add: screen_present_def split: option.split)
  show ?case
    unfolding connected_loop.simps
    by (intro wp_intros) (use Cons p in \<open>auto simp: own_simps c\<close>)
qed (simp add: wp_return)

theorem is_any_connected_spec:
  assumes "stable_connectors E fd res conns"
  shows "wp own (is_any_connected E fd cfg)
     (\<lambda>r M'. M' = M \<and> r = (if \<exists>n \<in> set (res_connectors res). screen_present cfg conns n then 1 else 0)) M"
proof -
  have r: "\<And>t. e_get_resources (drm E) t fd = Some res" using assms by (simp add: stable_connectors_def)
  show ?thesis
    unfolding is_any_connected_def
    by (intro wp_intros connected_loop_wp [OF assms]) (auto simp: own_simps r list_ex_iff)
qed

theorem is_any_connected_spec_witness:
  "monitor own {#} (trace_of (is_any_connected one_screen 3 cfg_defaults)) = Some {#}
   \<and> fst (run_state (is_any_connected one_screen 3 cfg_defaults) []) = 1"
proof -
  let ?res = "\<lparr>res_ptr = 20, res_connectors = [39, 40], res_crtcs = [42]\<rparr>"
  let ?conns = "\<lambda>n. if n = 40 then Some hdmi else None"
  have "stable_connectors one_screen 3 ?res ?conns" by (simp add: stable_connectors_def one_screen_def)
  from wp_trace_of [OF is_any_connected_spec [OF this, of cfg_defaults "{#}"]]
  show ?thesis
    by (auto simp: screen_present_def hdmi_def name_allows_def cfg_defaults_def DRM_MODE_CONNECTED_def)
qed

end
