(* ===== verification/Logging.thy ===== *)
theory Logging
  imports C_Library
begin

text \<open>
  \<open>src/logging.c\<close>: the verbosity flag, the time stamp and the lines of the four macros of \<open>logging.h\<close>. The
  rest of the development leaves out what is logged; here is what a line looks like.
\<close>

section \<open>Verbosity\<close>

text \<open>The process state that the option \<open>--verbose\<close> and its neighbours touch: the flag, and GST\_DEBUG.\<close>

record cli_globals =
  g_verbose :: int
  gst_debug :: "string option"

definition log_set_verbose :: "int \<Rightarrow> cli_globals \<Rightarrow> cli_globals" where
  "log_set_verbose enabled g = g\<lparr>g_verbose := (if enabled \<noteq> 0 then 1 else 0)\<rparr>"

definition log_is_verbose :: "cli_globals \<Rightarrow> int" where
  "log_is_verbose g = g_verbose g"

lemma log_verbose_set: "log_is_verbose (log_set_verbose e g) = (if e = 0 then 0 else 1)"
  by (simp add: log_is_verbose_def log_set_verbose_def)

section \<open>The time stamp\<close>

text \<open>\<open>printf\<close>'s \<open>%0nd\<close>: zeros between the sign and the digits up to the width.\<close>

definition pad_zeros :: "nat \<Rightarrow> string \<Rightarrow> string" where
  "pad_zeros n s = replicate (n - length s) (CHR ''0'') @ s"

definition dec_padded :: "nat \<Rightarrow> int \<Rightarrow> string" where
  "dec_padded n v = (if v < 0 then CHR ''-'' # pad_zeros (n - 1) (dec_nat (nat (- v)))
     else pad_zeros n (dec_nat (nat v)))"

record tm =
  tm_hour :: int
  tm_min :: int
  tm_sec :: int

text \<open>
  \<open>now\<close> is what \<open>clock\_gettime\<close> stores, seconds and nanoseconds, and \<open>localtime\_r\<close> the conversion in the time
  zone of the process. The buffer has 32 bytes. The nanoseconds are not negative, so C's division is \<open>div\<close>.
\<close>

definition log_timestamp :: "(int \<Rightarrow> tm) \<Rightarrow> int \<times> int \<Rightarrow> string" where
  "log_timestamp localtime_r now =
     (let (tv_sec, tv_nsec) = now; tm = localtime_r tv_sec in
      take 31 (dec_padded 2 (tm_hour tm) @ '':'' @ dec_padded 2 (tm_min tm) @ '':'' @ dec_padded 2 (tm_sec tm)
        @ ''.'' @ dec_padded 3 (tv_nsec div 1000000)))"

datatype log_level = LOGI | LOGW | LOGE | LOGV

fun level_letter :: "log_level \<Rightarrow> char" where
  "level_letter LOGI = CHR ''I''" | "level_letter LOGW = CHR ''W''" | "level_letter LOGE = CHR ''E''"
| "level_letter LOGV = CHR ''D''"

text \<open>What a macro writes to \<open>stderr\<close>, with the message already formatted.\<close>

definition log_line :: "cli_globals \<Rightarrow> string \<Rightarrow> log_level \<Rightarrow> string \<Rightarrow> string" where
  "log_line g stamp level msg =
     (if level = LOGV \<and> log_is_verbose g = 0 then []
      else ''['' @ stamp @ ''] ['' @ [level_letter level] @ ''] '' @ msg @ [CHR 0x0A])"

section \<open>What the stamp holds\<close>

lemma dec_value_zeros: "dec_value (replicate k (CHR ''0'') @ ds) = dec_value ds"
  by (induction k) (simp_all add: dec_value_def digit_val_def)

lemma dec_padded_spec:
  assumes "0 \<le> v" and "v < 10 ^ Suc k"
  shows "length (dec_padded (Suc k) v) = Suc k" and "dec_value (dec_padded (Suc k) v) = nat v"
proof -
  have "nat v < 10 ^ Suc k" using assms by (simp add: nat_less_iff)
  then have "length (dec_nat (nat v)) \<le> Suc k" by (rule length_dec_nat) simp
  then show "length (dec_padded (Suc k) v) = Suc k" and "dec_value (dec_padded (Suc k) v) = nat v"
    using assms(1) by (simp_all add: dec_padded_def pad_zeros_def dec_value_zeros)
qed

text \<open>
  For the times that \<open>localtime\_r\<close> and \<open>clock\_gettime\<close> deliver the stamp has twelve characters, so the
  32 bytes of the buffer never cut it, and each number can be read back from its place.
\<close>

lemma log_timestamp_fits:
  fixes localtime_r :: "int \<Rightarrow> tm" and sec nsec :: int
  defines "T \<equiv> localtime_r sec" and "s \<equiv> log_timestamp localtime_r (sec, nsec)"
  assumes "0 \<le> tm_hour T \<and> tm_hour T < 24" and "0 \<le> tm_min T \<and> tm_min T < 60"
    and "0 \<le> tm_sec T \<and> tm_sec T \<le> 60" and "0 \<le> nsec \<and> nsec < 1000000000"
  shows "length s = 12" and "dec_value (take 2 s) = nat (tm_hour T)" and "dec_value (take 2 (drop 3 s)) = nat (tm_min T)"
    and "dec_value (take 2 (drop 6 s)) = nat (tm_sec T)" and "dec_value (drop 9 s) = nat (nsec div 1000000)"
proof -
  note two = dec_padded_spec [of _ 1, simplified] and three = dec_padded_spec [of _ 2, simplified]
  have h: "length (dec_padded 2 (tm_hour T)) = 2" "dec_value (dec_padded 2 (tm_hour T)) = nat (tm_hour T)"
    using two [of "tm_hour T"] assms(3) by (simp_all add: numeral_2_eq_2)
  have m: "length (dec_padded 2 (tm_min T)) = 2" "dec_value (dec_padded 2 (tm_min T)) = nat (tm_min T)"
    using two [of "tm_min T"] assms(4) by (simp_all add: numeral_2_eq_2)
  have sc: "length (dec_padded 2 (tm_sec T)) = 2" "dec_value (dec_padded 2 (tm_sec T)) = nat (tm_sec T)"
    using two [of "tm_sec T"] assms(5) by (simp_all add: numeral_2_eq_2)
  have "0 \<le> nsec div 1000000" "nsec div 1000000 < 1000" using assms(6) by auto
  then have ms: "length (dec_padded 3 (nsec div 1000000)) = 3" "dec_value (dec_padded 3 (nsec div 1000000)) = nat (nsec div 1000000)"
    using three [of "nsec div 1000000"] by (simp_all add: numeral_3_eq_3)
  have s: "s = dec_padded 2 (tm_hour T) @ '':'' @ dec_padded 2 (tm_min T) @ '':'' @ dec_padded 2 (tm_sec T)
      @ ''.'' @ dec_padded 3 (nsec div 1000000)"
    using h(1) m(1) sc(1) ms(1) by (simp add: s_def T_def log_timestamp_def Let_def)
  show "length s = 12" "dec_value (take 2 s) = nat (tm_hour T)" "dec_value (take 2 (drop 3 s)) = nat (tm_min T)"
    "dec_value (take 2 (drop 6 s)) = nat (tm_sec T)" "dec_value (drop 9 s) = nat (nsec div 1000000)"
    using h m sc ms by (simp_all add: s)
qed

lemma log_timestamp_example:
  "log_timestamp (\<lambda>_. \<lparr>tm_hour = 7, tm_min = 30, tm_sec = 5\<rparr>) (1700000000, 42999999) = ''07:30:05.042''"
  by code_simp

end
