(* ===== verification/Config_Cli.thy ===== *)
theory Config_Cli
  imports Ini_Properties Logging
begin

text \<open>
  \<open>parse_cli\<close> of \<open>src/config.c\<close>: two passes over the arguments, the first for \<open>--help\<close> and
  \<open>--config\<close> (which loads the file), the second for every other option. A cursor \<open>i\<close> into \<open>argv\<close> is
  the list of the arguments from \<open>i\<close> on. \<open>cli_parse\<close> is the grammar of the second pass on its own
  and \<open>cli_apply\<close> what an option does; \<open>cli_options_parse\<close> shows the pass to be the one applied to
  the other, from which the precedence of the command line over the file follows.
\<close>

definition maybe_load_config :: "(string \<Rightarrow> string option) \<Rightarrow> AppCfg \<Rightarrow> int \<times> AppCfg" where
  "maybe_load_config fs cfg =
     (if config_path cfg = [] then (0, cfg)
      else case cfg_load_file fs (config_path cfg) cfg of (r, cfg') \<Rightarrow>
             if r \<noteq> 0 then (-1, cfg') else (0, cfg'))"

definition maybe_enable_gst_log :: "AppCfg \<Rightarrow> cli_globals \<Rightarrow> cli_globals" where
  "maybe_enable_gst_log cfg g =
     (if gst_log cfg \<noteq> 0 \<and> gst_debug g = None then g\<lparr>gst_debug := Some ''3''\<rparr> else g)"

fun cli_scan :: "(string \<Rightarrow> string option) \<Rightarrow> string list \<Rightarrow> AppCfg \<Rightarrow> int \<times> AppCfg" where
  "cli_scan fs [] cfg = (0, cfg)"
| "cli_scan fs (arg # rest) cfg =
     (if arg = ''--help'' \<or> arg = ''-h'' then (1, cfg)
      else if arg = ''--config'' then
        (case rest of [] \<Rightarrow> (-1, cfg)
         | path # rest' \<Rightarrow>
             (case maybe_load_config fs
                     (cfg\<lparr>config_path := cli_copy_string (config_path cfg) PATH_MAX (Some path)\<rparr>) of
                (r, cfg') \<Rightarrow> if r \<noteq> 0 then (-1, cfg') else cli_scan fs rest' cfg'))
      else cli_scan fs rest cfg)"

text \<open>\<open>strncmp(argv[i + 1], "--", 2) != 0\<close>: the argument of \<open>--record-video\<close> is optional.\<close>

fun cli_options :: "string list \<Rightarrow> AppCfg \<times> cli_globals \<Rightarrow> int \<times> AppCfg \<times> cli_globals" where
  "cli_options [] (cfg, g) = (0, cfg, g)"
| "cli_options (arg # rest) (cfg, g) =
     (if arg = ''--config'' then cli_options (tl rest) (cfg, g)
      else if arg = ''--card'' then
        (case rest of [] \<Rightarrow> (-1, cfg, g)
         | v # rest' \<Rightarrow>
             cli_options rest' (cfg\<lparr>card_path := cli_copy_string (card_path cfg) 64 (Some v)\<rparr>, g))
      else if arg = ''--connector'' then
        (case rest of [] \<Rightarrow> (-1, cfg, g)
         | v # rest' \<Rightarrow>
             cli_options rest'
               (cfg\<lparr>connector_name := cli_copy_string (connector_name cfg) 32 (Some v)\<rparr>, g))
      else if arg = ''--plane-id'' then
        (case rest of [] \<Rightarrow> (-1, cfg, g)
         | v # rest' \<Rightarrow> (case parse_int_arg (Some v) (plane_id cfg) of (r, n) \<Rightarrow>
             if r \<noteq> 0 then (-1, cfg\<lparr>plane_id := n\<rparr>, g)
             else cli_options rest' (cfg\<lparr>plane_id := n\<rparr>, g)))
      else if arg = ''--udp-port'' then
        (case rest of [] \<Rightarrow> (-1, cfg, g)
         | v # rest' \<Rightarrow> (case parse_int_arg (Some v) (udp_port cfg) of (r, n) \<Rightarrow>
             if r \<noteq> 0 then (-1, cfg\<lparr>udp_port := n\<rparr>, g)
             else cli_options rest' (cfg\<lparr>udp_port := n\<rparr>, g)))
      else if arg = ''--vid-pt'' then
        (case rest of [] \<Rightarrow> (-1, cfg, g)
         | v # rest' \<Rightarrow> (case parse_int_arg (Some v) (vid_pt cfg) of (r, n) \<Rightarrow>
             if r \<noteq> 0 then (-1, cfg\<lparr>vid_pt := n\<rparr>, g)
             else cli_options rest' (cfg\<lparr>vid_pt := n\<rparr>, g)))
      else if arg = ''--appsink-max-buffers'' then
        (case rest of [] \<Rightarrow> (-1, cfg, g)
         | v # rest' \<Rightarrow> (case parse_int_arg (Some v) (appsink_max_buffers cfg) of (r, n) \<Rightarrow>
             if r \<noteq> 0 then (-1, cfg\<lparr>appsink_max_buffers := n\<rparr>, g)
             else cli_options rest' (cfg\<lparr>appsink_max_buffers := n\<rparr>, g)))
      else if arg = ''--record-video'' then
        (let cfg = set_record_enable 1 cfg in
         case rest of [] \<Rightarrow> cli_options rest (cfg, g)
         | v # rest' \<Rightarrow>
             if \<not> strneq v ''--'' 2 then
               cli_options rest'
                 (set_record_path
                    (cli_copy_string (output_path (record_cfg cfg)) PATH_MAX (Some v)) cfg, g)
             else cli_options rest (cfg, g))
      else if arg = ''--record-mode'' then
        (case rest of [] \<Rightarrow> (-1, cfg, g)
         | v # rest' \<Rightarrow> (case cfg_parse_record_mode (Some v) (mode (record_cfg cfg)) of (r, m) \<Rightarrow>
             if r \<noteq> 0 then (-1, cfg, g) else cli_options rest' (set_record_mode m cfg, g)))
      else if arg = ''--no-record-video'' then cli_options rest (set_record_enable 0 cfg, g)
      else if arg = ''--gst-log'' then cli_options rest (cfg\<lparr>gst_log := 1\<rparr>, g)
      else if arg = ''--verbose'' then cli_options rest (cfg, log_set_verbose 1 g)
      else (-1, cfg, g))"

definition parse_cli ::
    "(string \<Rightarrow> string option) \<Rightarrow> string list \<Rightarrow> cli_globals \<Rightarrow> int \<times> AppCfg \<times> cli_globals" where
  "parse_cli fs argv g =
     (case cli_scan fs (tl argv) cfg_defaults of (r, cfg) \<Rightarrow>
        if r \<noteq> 0 then (r, cfg, g)
        else case cli_options (tl argv) (cfg, g) of (r, cfg, g) \<Rightarrow>
               if r \<noteq> 0 then (r, cfg, g) else (0, cfg, maybe_enable_gst_log cfg g))"

section \<open>The grammar of the options and what each one does\<close>

datatype cli_opt =
    OptConfig | OptCard string | OptConnector string | OptPlaneId int | OptUdpPort int
  | OptVidPt int | OptMaxBuffers int | OptRecordVideo "string option" | OptRecordMode RecordMode
  | OptNoRecord | OptGstLog | OptVerbose

definition cli_int_opt :: "(int \<Rightarrow> cli_opt) \<Rightarrow> string \<Rightarrow> cli_opt option" where
  "cli_int_opt mk v = (case parse_int_arg (Some v) 0 of (r, n) \<Rightarrow> if r = 0 then Some (mk n) else None)"

definition cli_mode_opt :: "string \<Rightarrow> cli_opt option" where
  "cli_mode_opt v = (case cfg_parse_record_mode (Some v) RECORD_MODE_STANDARD of
     (r, m) \<Rightarrow> if r = 0 then Some (OptRecordMode m) else None)"

text \<open>The options that take a value, and those that take none.\<close>

definition cli_valued :: "string \<Rightarrow> (string \<Rightarrow> cli_opt option) option" where
  "cli_valued arg =
     (if arg = ''--card'' then Some (\<lambda>v. Some (OptCard v))
      else if arg = ''--connector'' then Some (\<lambda>v. Some (OptConnector v))
      else if arg = ''--plane-id'' then Some (cli_int_opt OptPlaneId)
      else if arg = ''--udp-port'' then Some (cli_int_opt OptUdpPort)
      else if arg = ''--vid-pt'' then Some (cli_int_opt OptVidPt)
      else if arg = ''--appsink-max-buffers'' then Some (cli_int_opt OptMaxBuffers)
      else if arg = ''--record-mode'' then Some cli_mode_opt
      else None)"

definition cli_flag :: "string \<Rightarrow> cli_opt option" where
  "cli_flag arg =
     (if arg = ''--no-record-video'' then Some OptNoRecord
      else if arg = ''--gst-log'' then Some OptGstLog
      else if arg = ''--verbose'' then Some OptVerbose
      else None)"

fun cli_parse :: "string list \<Rightarrow> cli_opt list option" where
  "cli_parse [] = Some []"
| "cli_parse (arg # rest) =
     (if arg = ''--config'' then map_option ((#) OptConfig) (cli_parse (tl rest))
      else if arg = ''--record-video'' then
        (case rest of
           v # rest' \<Rightarrow>
             if \<not> strneq v ''--'' 2
             then map_option ((#) (OptRecordVideo (Some v))) (cli_parse rest')
             else map_option ((#) (OptRecordVideo None)) (cli_parse rest)
         | [] \<Rightarrow> map_option ((#) (OptRecordVideo None)) (cli_parse rest))
      else case cli_valued arg of
        Some mk \<Rightarrow>
          (case rest of [] \<Rightarrow> None
           | v # rest' \<Rightarrow>
               (case mk v of None \<Rightarrow> None | Some opt \<Rightarrow> map_option ((#) opt) (cli_parse rest')))
      | None \<Rightarrow>
          (case cli_flag arg of None \<Rightarrow> None
           | Some opt \<Rightarrow> map_option ((#) opt) (cli_parse rest)))"

fun cli_apply :: "cli_opt \<Rightarrow> AppCfg \<times> cli_globals \<Rightarrow> AppCfg \<times> cli_globals" where
  "cli_apply OptConfig (cfg, g) = (cfg, g)"
| "cli_apply (OptCard v) (cfg, g) =
     (cfg\<lparr>card_path := cli_copy_string (card_path cfg) 64 (Some v)\<rparr>, g)"
| "cli_apply (OptConnector v) (cfg, g) =
     (cfg\<lparr>connector_name := cli_copy_string (connector_name cfg) 32 (Some v)\<rparr>, g)"
| "cli_apply (OptPlaneId n) (cfg, g) = (cfg\<lparr>plane_id := n\<rparr>, g)"
| "cli_apply (OptUdpPort n) (cfg, g) = (cfg\<lparr>udp_port := n\<rparr>, g)"
| "cli_apply (OptVidPt n) (cfg, g) = (cfg\<lparr>vid_pt := n\<rparr>, g)"
| "cli_apply (OptMaxBuffers n) (cfg, g) = (cfg\<lparr>appsink_max_buffers := n\<rparr>, g)"
| "cli_apply (OptRecordVideo None) (cfg, g) = (set_record_enable 1 cfg, g)"
| "cli_apply (OptRecordVideo (Some v)) (cfg, g) =
     (let cfg = set_record_enable 1 cfg in
      (set_record_path (cli_copy_string (output_path (record_cfg cfg)) PATH_MAX (Some v)) cfg, g))"
| "cli_apply (OptRecordMode m) (cfg, g) = (set_record_mode m cfg, g)"
| "cli_apply OptNoRecord (cfg, g) = (set_record_enable 0 cfg, g)"
| "cli_apply OptGstLog (cfg, g) = (cfg\<lparr>gst_log := 1\<rparr>, g)"
| "cli_apply OptVerbose (cfg, g) = (cfg, log_set_verbose 1 g)"

lemma parse_int_arg_indep:
  "parse_int_arg (Some v) out = (r, n) \<Longrightarrow>
   parse_int_arg (Some v) out' = (r, if r = 0 then n else out') \<and> (r = 0 \<or> r = -1)"
  by (auto simp: parse_int_arg_def split: prod.splits if_splits)

lemma parse_mode_indep:
  "cfg_parse_record_mode (Some v) out = (r, m) \<Longrightarrow>
   cfg_parse_record_mode (Some v) out' = (r, if r = 0 then m else out') \<and> (r = 0 \<or> r = -1)"
  by (auto simp: cfg_parse_record_mode_def kRecordModeAliases_def split: if_splits)

definition cli_apply_all :: "cli_opt list \<Rightarrow> AppCfg \<times> cli_globals \<Rightarrow> AppCfg \<times> cli_globals" where
  "cli_apply_all opts s = foldl (\<lambda>s opt. cli_apply opt s) s opts"

lemma cli_apply_all_simps [simp]:
  "cli_apply_all [] s = s"
  "cli_apply_all (opt # opts) s = cli_apply_all opts (cli_apply opt s)"
  by (simp_all add: cli_apply_all_def)

text \<open>How one valued option and one flag act in the pass, with the rest of the pass behind them.\<close>

lemma cli_valued_cases:
  assumes "cli_valued arg = Some mk"
  obtains "arg = ''--card''" "mk = (\<lambda>v. Some (OptCard v))"
  | "arg = ''--connector''" "mk = (\<lambda>v. Some (OptConnector v))"
  | "arg = ''--plane-id''" "mk = cli_int_opt OptPlaneId"
  | "arg = ''--udp-port''" "mk = cli_int_opt OptUdpPort"
  | "arg = ''--vid-pt''" "mk = cli_int_opt OptVidPt"
  | "arg = ''--appsink-max-buffers''" "mk = cli_int_opt OptMaxBuffers"
  | "arg = ''--record-mode''" "mk = cli_mode_opt"
  using assms unfolding cli_valued_def by (simp split: if_splits)

lemma cli_int_opt_Some:
  assumes "cli_int_opt mk v = Some opt"
  obtains n where "opt = mk n" "\<And>out. parse_int_arg (Some v) out = (0, n)"
proof -
  obtain r n where rn: "parse_int_arg (Some v) 0 = (r, n)" by (cases "parse_int_arg (Some v) 0")
  then have "r = 0" "opt = mk n" using assms by (auto simp: cli_int_opt_def split: if_splits)
  then show thesis using that rn parse_int_arg_indep [OF rn] by auto
qed

lemma cli_int_opt_None:
  assumes "cli_int_opt mk v = None"
  shows "parse_int_arg (Some v) out = (-1, out)"
proof -
  obtain r n where rn: "parse_int_arg (Some v) 0 = (r, n)" by (cases "parse_int_arg (Some v) 0")
  then have "r \<noteq> 0" using assms by (auto simp: cli_int_opt_def split: if_splits)
  then show ?thesis using parse_int_arg_indep [OF rn, of out] by auto
qed

lemma cli_mode_opt_Some:
  assumes "cli_mode_opt v = Some opt"
  obtains m where "opt = OptRecordMode m" "\<And>out. cfg_parse_record_mode (Some v) out = (0, m)"
proof -
  obtain r m where rm: "cfg_parse_record_mode (Some v) RECORD_MODE_STANDARD = (r, m)"
    by (cases "cfg_parse_record_mode (Some v) RECORD_MODE_STANDARD")
  then have "r = 0" "opt = OptRecordMode m" using assms by (auto simp: cli_mode_opt_def split: if_splits)
  then show thesis using that rm parse_mode_indep [OF rm] by auto
qed

lemma cli_mode_opt_None:
  assumes "cli_mode_opt v = None"
  shows "cfg_parse_record_mode (Some v) out = (-1, out)"
proof -
  obtain r m where rm: "cfg_parse_record_mode (Some v) RECORD_MODE_STANDARD = (r, m)"
    by (cases "cfg_parse_record_mode (Some v) RECORD_MODE_STANDARD")
  then have "r \<noteq> 0" using assms by (auto simp: cli_mode_opt_def split: if_splits)
  then show ?thesis using parse_mode_indep [OF rm, of out] by auto
qed

lemma cli_valued_ok:
  assumes "cli_valued arg = Some mk" and "mk v = Some opt"
  shows "cli_options (arg # v # rest) (cfg, g) = cli_options rest (cli_apply opt (cfg, g))"
  using assms(1)
proof (cases rule: cli_valued_cases)
qed (use assms(2) in \<open>auto elim!: cli_int_opt_Some cli_mode_opt_Some\<close>)

lemma cli_valued_bad:
  assumes "cli_valued arg = Some mk" and "mk v = None"
  shows "fst (cli_options (arg # v # rest) (cfg, g)) = -1"
  using assms(1)
proof (cases rule: cli_valued_cases)
qed (use assms(2) in \<open>simp_all add: cli_int_opt_None cli_mode_opt_None\<close>)

lemma cli_valued_missing:
  assumes "cli_valued arg = Some mk"
  shows "fst (cli_options [arg] (cfg, g)) = -1"
  using assms by (cases rule: cli_valued_cases) simp_all

lemma cli_valued_not:
  "cli_valued arg = Some mk \<Longrightarrow> arg \<noteq> ''--config'' \<and> arg \<noteq> ''--record-video''"
  by (erule cli_valued_cases) simp_all

lemma cli_flag_step:
  assumes "cli_flag arg = Some opt"
  shows "cli_options (arg # rest) (cfg, g) = cli_options rest (cli_apply opt (cfg, g))"
  using assms unfolding cli_flag_def by (simp split: if_splits)

lemma cli_unknown_step:
  assumes "arg \<noteq> ''--config''" "arg \<noteq> ''--record-video''" "cli_valued arg = None" "cli_flag arg = None"
  shows "cli_options (arg # rest) (cfg, g) = (-1, cfg, g)"
  using assms unfolding cli_flag_def cli_valued_def by (simp split: if_splits)

text \<open>The first argument is an option of one of five kinds.\<close>

lemma cli_arg_cases:
  obtains (config) "arg = ''--config''" | (rec_video) "arg = ''--record-video''"
  | (valued) mk where "cli_valued arg = Some mk" "arg \<noteq> ''--config''" "arg \<noteq> ''--record-video''"
  | (flag) opt where "cli_valued arg = None" "cli_flag arg = Some opt"
      "arg \<noteq> ''--config''" "arg \<noteq> ''--record-video''"
  | (bad) "cli_valued arg = None" "cli_flag arg = None"
      "arg \<noteq> ''--config''" "arg \<noteq> ''--record-video''"
  using that by (cases "cli_valued arg"; cases "cli_flag arg") blast+

lemma cli_record_video_step:
  "cli_options (''--record-video'' # rest) (cfg, g) =
     (case rest of
        v # rest' \<Rightarrow>
          if \<not> strneq v ''--'' 2 then cli_options rest' (cli_apply (OptRecordVideo (Some v)) (cfg, g))
          else cli_options rest (cli_apply (OptRecordVideo None) (cfg, g))
      | [] \<Rightarrow> cli_options rest (cli_apply (OptRecordVideo None) (cfg, g)))"
  by (cases rest) (simp_all add: Let_def)

lemma cli_record_video_parse:
  "cli_parse (''--record-video'' # rest) =
     (case rest of
        v # rest' \<Rightarrow>
          if \<not> strneq v ''--'' 2 then map_option ((#) (OptRecordVideo (Some v))) (cli_parse rest')
          else map_option ((#) (OptRecordVideo None)) (cli_parse rest)
      | [] \<Rightarrow> map_option ((#) (OptRecordVideo None)) (cli_parse rest))"
  by (cases rest) simp_all

lemma cli_options_ok:
  "cli_parse args = Some opts \<Longrightarrow> cli_options args s = (0, cli_apply_all opts s)"
proof (induction args arbitrary: opts s rule: length_induct)
  case (1 args)
  then have IH: "\<And>as os s. length as < length args \<Longrightarrow> cli_parse as = Some os \<Longrightarrow>
      cli_options as s = (0, cli_apply_all os s)" by blast
  obtain cfg g where s: "s = (cfg, g)" by (cases s)
  show ?case
  proof (cases args)
    case Nil
    then show ?thesis using 1(2) s by simp
  next
    case (Cons arg rest)
    show ?thesis
    proof (cases arg rule: cli_arg_cases)
      case config
      then obtain os where "cli_parse (tl rest) = Some os" "opts = OptConfig # os"
        using 1(2) Cons by auto
      then show ?thesis using config Cons s IH [of "tl rest"] by simp
    next
      case rec_video
      then show ?thesis
        using 1(2) Cons s IH [of rest _ "cli_apply (OptRecordVideo None) (cfg, g)"]
          IH [of "tl rest" _ "cli_apply (OptRecordVideo (Some (hd rest))) (cfg, g)"]
        by (auto simp: cli_record_video_step cli_record_video_parse
            simp del: cli_apply.simps cli_options.simps cli_parse.simps split: list.splits if_splits)
    next
      case (valued mk)
      then obtain v r o1 os where "rest = v # r" "mk v = Some o1" "cli_parse r = Some os"
        "opts = o1 # os"
        using 1(2) Cons by (auto split: list.splits option.splits)
      then show ?thesis using cli_valued_ok [OF valued(1)] Cons s IH [of r] by simp
    next
      case (flag opt)
      then obtain os where "cli_parse rest = Some os" "opts = opt # os"
        using 1(2) Cons by auto
      then show ?thesis using cli_flag_step [OF flag(2)] Cons s IH [of rest] by simp
    next
      case bad
      then show ?thesis using 1(2) Cons by simp
    qed
  qed
qed

lemma cli_options_bad: "cli_parse args = None \<Longrightarrow> fst (cli_options args s) = -1"
proof (induction args arbitrary: s rule: length_induct)
  case (1 args)
  then have IH: "\<And>as s. length as < length args \<Longrightarrow> cli_parse as = None \<Longrightarrow>
      fst (cli_options as s) = -1" by blast
  obtain cfg g where s: "s = (cfg, g)" by (cases s)
  show ?case
  proof (cases args)
    case Nil
    then show ?thesis using 1(2) by simp
  next
    case (Cons arg rest)
    show ?thesis
    proof (cases arg rule: cli_arg_cases)
      case config
      then show ?thesis using 1(2) Cons s IH [of "tl rest"] by simp
    next
      case rec_video
      then show ?thesis
        using 1(2) Cons s IH [of rest "cli_apply (OptRecordVideo None) (cfg, g)"]
          IH [of "tl rest" "cli_apply (OptRecordVideo (Some (hd rest))) (cfg, g)"]
        by (auto simp: cli_record_video_step cli_record_video_parse
            simp del: cli_apply.simps cli_options.simps cli_parse.simps split: list.splits if_splits)
    next
      case (valued mk)
      consider "rest = []" | v r where "rest = v # r" "mk v = None"
        | v r opt where "rest = v # r" "mk v = Some opt"
        by (metis list.exhaust option.exhaust)
      then show ?thesis
        using 1(2) Cons s IH valued
        by cases (simp_all add: cli_valued_missing cli_valued_bad cli_valued_ok
            del: cli_options.simps)
    next
      case (flag opt)
      then have "cli_parse rest = None" using 1(2) Cons by simp
      then show ?thesis using cli_flag_step [OF flag(2)] Cons s IH [of rest] by simp
    next
      case bad
      then show ?thesis using cli_unknown_step [OF bad(3,4,1,2)] Cons s by simp
    qed
  qed
qed

section \<open>Well-formedness\<close>

lemma maybe_load_config_wf [wf_intros]:
  assumes "wf_cfg cfg"
  shows "wf_cfg (snd (maybe_load_config fs cfg))"
  using load_file_keeps_wf [OF assms, of fs "config_path cfg"] assms
  by (auto simp: maybe_load_config_def split: prod.splits)

lemma PATH_MAX_pos [simp]: "0 < PATH_MAX"
  by (simp add: PATH_MAX_def)

lemma set_config_path_wf:
  "wf_cfg cfg \<Longrightarrow> NUL \<notin> set v \<Longrightarrow>
   wf_cfg (cfg\<lparr>config_path := cli_copy_string (config_path cfg) PATH_MAX (Some v)\<rparr>)"
  by (simp add: wf_cfg_def c_string_copy)

lemma cli_scan_wf:
  "wf_cfg cfg \<Longrightarrow> \<forall>a \<in> set args. NUL \<notin> set a \<Longrightarrow> wf_cfg (snd (cli_scan fs args cfg))"
proof (induction fs args cfg rule: cli_scan.induct)
  case (2 fs arg rest cfg)
  show ?case
  proof (cases "arg = ''--config'' \<and> rest \<noteq> []")
    case True
    then obtain path rest' where r: "rest = path # rest'" by (cases rest) auto
    define c where "c = cfg\<lparr>config_path := cli_copy_string (config_path cfg) PATH_MAX (Some path)\<rparr>"
    have c: "wf_cfg c" unfolding c_def using 2(3,4) r by (auto intro: set_config_path_wf)
    obtain k c' where m: "maybe_load_config fs c = (k, c')" by (cases "maybe_load_config fs c")
    then have "wf_cfg c'" using maybe_load_config_wf [OF c, of fs] by simp
    then show ?thesis using True r m 2 by (auto simp: c_def)
  next
    case False
    then show ?thesis using 2 by (auto split: list.splits)
  qed
qed simp

text \<open>The values an option carries fit the field it writes.\<close>

fun wf_opt :: "cli_opt \<Rightarrow> bool" where
  "wf_opt (OptCard v) \<longleftrightarrow> NUL \<notin> set v"
| "wf_opt (OptConnector v) \<longleftrightarrow> NUL \<notin> set v"
| "wf_opt (OptPlaneId n) \<longleftrightarrow> int_range n"
| "wf_opt (OptUdpPort n) \<longleftrightarrow> int_range n"
| "wf_opt (OptVidPt n) \<longleftrightarrow> int_range n"
| "wf_opt (OptMaxBuffers n) \<longleftrightarrow> int_range n"
| "wf_opt (OptRecordVideo (Some v)) \<longleftrightarrow> NUL \<notin> set v"
| "wf_opt _ \<longleftrightarrow> True"

lemma cli_apply_wf: "wf_opt opt \<Longrightarrow> wf_cfg (fst s) \<Longrightarrow> wf_cfg (fst (cli_apply opt s))"
  by (cases "(opt, s)" rule: cli_apply.cases)
    (auto simp: wf_cfg_def wf_record_cfg_def set_record_defs c_string_copy Let_def int_range_def)

lemma cli_apply_all_wf:
  "\<forall>opt \<in> set opts. wf_opt opt \<Longrightarrow> wf_cfg (fst s) \<Longrightarrow> wf_cfg (fst (cli_apply_all opts s))"
  unfolding cli_apply_all_def by (rule foldl_invariant) (auto intro: cli_apply_wf)

lemma parse_int_arg_ok_range: "parse_int_arg (Some v) out = (0, n) \<Longrightarrow> int_range n"
  by (auto simp: parse_int_arg_def split: prod.splits if_splits)

lemma cli_int_opt_range: "cli_int_opt mk v = Some opt \<Longrightarrow> \<exists>n. opt = mk n \<and> int_range n"
  by (erule cli_int_opt_Some) (blast intro: parse_int_arg_ok_range)

lemma cli_valued_wf:
  assumes "cli_valued arg = Some mk" "mk v = Some opt" "NUL \<notin> set v"
  shows "wf_opt opt"
  using assms(1)
  by (cases rule: cli_valued_cases)
    (use assms(2,3) in \<open>auto elim!: cli_mode_opt_Some dest: cli_int_opt_range\<close>)

lemma cli_flag_wf: "cli_flag arg = Some opt \<Longrightarrow> wf_opt opt"
  by (auto simp: cli_flag_def split: if_splits)

lemma cli_parse_wf:
  "cli_parse args = Some opts \<Longrightarrow> \<forall>a \<in> set args. NUL \<notin> set a \<Longrightarrow> \<forall>opt \<in> set opts. wf_opt opt"
proof (induction args arbitrary: opts rule: length_induct)
  case (1 args)
  then have IH: "\<And>as os. length as < length args \<Longrightarrow> set as \<subseteq> set args \<Longrightarrow> cli_parse as = Some os \<Longrightarrow>
      \<forall>opt \<in> set os. wf_opt opt" by blast
  show ?case
  proof (cases args)
    case Nil
    then show ?thesis using 1(2) by simp
  next
    case (Cons arg rest)
    have tl: "set (tl rest) \<subseteq> set args" using Cons by (cases rest) auto
    show ?thesis
    proof (cases arg rule: cli_arg_cases)
      case config
      then show ?thesis using 1(2) Cons IH [of "tl rest"] tl by auto
    next
      case rec_video
      then show ?thesis
        using 1(2,3) Cons IH [of rest] IH [of "tl rest"] tl
        by (auto simp: cli_record_video_parse simp del: cli_parse.simps split: list.splits if_splits)
    next
      case (valued mk)
      then show ?thesis
        using 1(2,3) Cons IH [of "tl rest"] tl
        by (auto split: list.splits option.splits dest: cli_valued_wf)
    next
      case (flag opt)
      then obtain os where os: "cli_parse rest = Some os" "opts = opt # os"
        using 1(2) Cons by auto
      have "\<forall>opt \<in> set os. wf_opt opt" by (rule IH [OF _ _ os(1)]) (use Cons in auto)
      then show ?thesis using os(2) cli_flag_wf [OF flag(2)] by simp
    next
      case bad
      then show ?thesis using 1(2) Cons by simp
    qed
  qed
qed

section \<open>Properties of the command line\<close>

text \<open>
  C11. The whole of \<open>parse_cli\<close>, on every branch: a first pass that stops (help, a bad
  \<open>--config\<close>) gives its code and the configuration so far; otherwise the second pass is the
  grammar \<open>cli_parse\<close>, an argument list outside it gives -1, and one inside it gives 0 and the effect
  of its options in order on top of what the file left, then \<open>GST_DEBUG\<close> when \<open>--gst-log\<close> (or the file)
  asks for it and the environment has none.
\<close>

theorem parse_cli_refines:
  "case cli_scan fs (tl argv) cfg_defaults of (r, cfg) \<Rightarrow>
     if r \<noteq> 0 then parse_cli fs argv g = (r, cfg, g)
     else case cli_parse (tl argv) of
         None \<Rightarrow> fst (parse_cli fs argv g) = -1
       | Some opts \<Rightarrow>
           (case cli_apply_all opts (cfg, g) of (cfg', g') \<Rightarrow>
              parse_cli fs argv g =
                (0, cfg', if gst_log cfg' \<noteq> 0 \<and> gst_debug g' = None
                          then g'\<lparr>gst_debug := Some ''3''\<rparr> else g'))"
proof (cases "cli_scan fs (tl argv) cfg_defaults")
  case (Pair r cfg)
  show ?thesis
  proof (cases "cli_parse (tl argv)")
    case None
    then show ?thesis
      using Pair cli_options_bad [OF None, of "(cfg, g)"]
      by (auto simp: parse_cli_def split: prod.splits)
  next
    case (Some opts)
    then show ?thesis
      using Pair cli_options_ok [OF Some, of "(cfg, g)"]
      by (auto simp: parse_cli_def maybe_enable_gst_log_def split: prod.splits)
  qed
qed

text \<open>The last value an option gives a field, or the value before the options.\<close>

definition last_value :: "(cli_opt \<Rightarrow> 'a option) \<Rightarrow> cli_opt list \<Rightarrow> 'a \<Rightarrow> 'a" where
  "last_value f opts d = (case List.map_filter f opts of [] \<Rightarrow> d | vs \<Rightarrow> last vs)"

fun plane_opt :: "cli_opt \<Rightarrow> int option" where
  "plane_opt (OptPlaneId n) = Some n" | "plane_opt _ = None"

fun port_opt :: "cli_opt \<Rightarrow> int option" where
  "port_opt (OptUdpPort n) = Some n" | "port_opt _ = None"

fun pt_opt :: "cli_opt \<Rightarrow> int option" where
  "pt_opt (OptVidPt n) = Some n" | "pt_opt _ = None"

fun buffers_opt :: "cli_opt \<Rightarrow> int option" where
  "buffers_opt (OptMaxBuffers n) = Some n" | "buffers_opt _ = None"

fun card_opt :: "cli_opt \<Rightarrow> string option" where
  "card_opt (OptCard v) = Some (take 63 v)" | "card_opt _ = None"

fun connector_opt :: "cli_opt \<Rightarrow> string option" where
  "connector_opt (OptConnector v) = Some (take 31 v)" | "connector_opt _ = None"

fun mode_opt :: "cli_opt \<Rightarrow> RecordMode option" where
  "mode_opt (OptRecordMode m) = Some m" | "mode_opt _ = None"

fun enable_opt :: "cli_opt \<Rightarrow> int option" where
  "enable_opt (OptRecordVideo _) = Some 1"
| "enable_opt OptNoRecord = Some 0"
| "enable_opt _ = None"

fun record_path_opt :: "cli_opt \<Rightarrow> string option" where
  "record_path_opt (OptRecordVideo (Some v)) = Some (take 4095 v)" | "record_path_opt _ = None"

lemma last_value_simps [simp]:
  "last_value f [] d = d"
  "last_value f (opt # opts) d = last_value f opts (case f opt of None \<Rightarrow> d | Some v \<Rightarrow> v)"
  by (auto simp: last_value_def List.map_filter_def split: list.splits option.splits)

lemma cli_copy_take: "0 < sz \<Longrightarrow> cli_copy_string d sz (Some v) = take (sz - 1) v"
  by (simp add: cli_copy_string_def min_def)

lemma field_last_value:
  assumes "\<And>opt s. field (fst (cli_apply opt s)) = (case f opt of None \<Rightarrow> field (fst s) | Some v \<Rightarrow> v)"
  shows "field (fst (cli_apply_all opts s)) = last_value f opts (field (fst s))"
  by (induction opts arbitrary: s) (simp_all add: assms)

lemma plane_apply: "plane_id (fst (cli_apply opt s)) =
    (case plane_opt opt of None \<Rightarrow> plane_id (fst s) | Some v \<Rightarrow> v)"
  and port_apply: "udp_port (fst (cli_apply opt s)) =
    (case port_opt opt of None \<Rightarrow> udp_port (fst s) | Some v \<Rightarrow> v)"
  and pt_apply: "vid_pt (fst (cli_apply opt s)) =
    (case pt_opt opt of None \<Rightarrow> vid_pt (fst s) | Some v \<Rightarrow> v)"
  and buffers_apply: "appsink_max_buffers (fst (cli_apply opt s)) =
    (case buffers_opt opt of None \<Rightarrow> appsink_max_buffers (fst s) | Some v \<Rightarrow> v)"
  and card_apply: "card_path (fst (cli_apply opt s)) =
    (case card_opt opt of None \<Rightarrow> card_path (fst s) | Some v \<Rightarrow> v)"
  and connector_apply: "connector_name (fst (cli_apply opt s)) =
    (case connector_opt opt of None \<Rightarrow> connector_name (fst s) | Some v \<Rightarrow> v)"
  and mode_apply: "mode (record_cfg (fst (cli_apply opt s))) =
    (case mode_opt opt of None \<Rightarrow> mode (record_cfg (fst s)) | Some v \<Rightarrow> v)"
  and enable_apply: "enable (record_cfg (fst (cli_apply opt s))) =
    (case enable_opt opt of None \<Rightarrow> enable (record_cfg (fst s)) | Some v \<Rightarrow> v)"
  and path_apply: "output_path (record_cfg (fst (cli_apply opt s))) =
    (case record_path_opt opt of None \<Rightarrow> output_path (record_cfg (fst s)) | Some v \<Rightarrow> v)"
  by (cases "(opt, s)" rule: cli_apply.cases;
      simp add: set_record_defs cli_copy_take PATH_MAX_def Let_def)+



text \<open>
  C35. Whatever the file and the arguments (C strings, so without NUL) are, and whichever code
  \<open>parse_cli\<close> gives, the configuration it leaves is well-formed when it reports success: every string
  is terminated inside its buffer and every number is an \<open>int\<close>.
\<close>

theorem parse_cli_wf:
  assumes "\<forall>a \<in> set argv. NUL \<notin> set a" and "fst (parse_cli fs argv g) = 0"
  shows "wf_cfg (fst (snd (parse_cli fs argv g)))"
proof -
  have args: "\<forall>a \<in> set (tl argv). NUL \<notin> set a" using assms(1) by (cases argv) auto
  obtain r cfg where sc: "cli_scan fs (tl argv) cfg_defaults = (r, cfg)"
    by (cases "cli_scan fs (tl argv) cfg_defaults")
  have r: "r = 0" and cfg: "wf_cfg cfg"
    using assms(2) sc cli_scan_wf [OF wf_cfg_defaults args, of fs]
    by (auto simp: parse_cli_def split: if_splits)
  obtain opts where opts: "cli_parse (tl argv) = Some opts"
    using cli_options_bad [of "tl argv" "(cfg, g)"] assms(2) sc r
    by (cases "cli_parse (tl argv)") (auto simp: parse_cli_def split: prod.splits)
  have "wf_cfg (fst (cli_apply_all opts (cfg, g)))"
    by (rule cli_apply_all_wf [OF cli_parse_wf [OF opts args]]) (simp add: cfg)
  then show ?thesis
    using sc r cli_options_ok [OF opts, of "(cfg, g)"] by (auto simp: parse_cli_def split: prod.splits)
qed

theorem parse_cli_wf_witness:
  "wf_cfg (fst (snd (parse_cli (\<lambda>_. None) [''p'', ''--vid-pt'', ''96'']
     \<lparr>g_verbose = 0, gst_debug = None\<rparr>)))"
proof (rule parse_cli_wf)
  show "\<forall>a \<in> set [''p'', ''--vid-pt'', ''96'']. NUL \<notin> set a" by (simp add: NUL_def)
  show "fst (parse_cli (\<lambda>_. None) [''p'', ''--vid-pt'', ''96'']
     \<lparr>g_verbose = 0, gst_debug = None\<rparr>) = 0" by code_simp
qed

text \<open>
  The two passes do not agree on what is a value: the grammar of the second takes any word after
  \<open>--card\<close> as its value, but the first has read \<open>--help\<close> or \<open>-h\<close> there as the option already, so
  \<open>parse_cli\<close> stops and prints the usage whatever else was given.
\<close>

lemma first_pass_reads_values:
  "cli_parse [''--card'', ''-h''] = Some [OptCard ''-h'']
   \<and> parse_cli fs [prog, ''--card'', ''-h''] g = (1, cfg_defaults, g)"
proof
  show "cli_parse [''--card'', ''-h''] = Some [OptCard ''-h'']" by code_simp
  have "cli_scan fs [''--card'', ''-h''] cfg_defaults = (1, cfg_defaults)" by simp
  then show "parse_cli fs [prog, ''--card'', ''-h''] g = (1, cfg_defaults, g)"
    by (simp add: parse_cli_def del: cli_scan.simps cli_options.simps)
qed

end
