(* ===== verification/Main_Loop.thy ===== *)
theory Main_Loop
  imports Instance Pipeline_Life Modeset_Properties Config_Cli
begin

text \<open>
  The rest of \<open>src/main.c\<close>: the signals, the main loop and the order in which everything is set up and
  taken down. A signal is seen at the poll during which the signal thread has handled it.
\<close>

section \<open>Signals\<close>

definition SIGHUP :: int where "SIGHUP = 1"
definition SIGINT :: int where "SIGINT = 2"
definition SIGUSR1 :: int where "SIGUSR1 = 10"
definition SIGUSR2 :: int where "SIGUSR2 = 12"
definition SIGTERM :: int where "SIGTERM = 15"

record sig_flags =
  g_exit_flag :: int
  g_restart_flag :: int
  g_start_record_flag :: int
  g_stop_record_flag :: int

definition no_signals :: sig_flags where
  "no_signals = \<lparr>g_exit_flag = 0, g_restart_flag = 0, g_start_record_flag = 0, g_stop_record_flag = 0\<rparr>"

definition note_signal :: "int \<Rightarrow> sig_flags \<Rightarrow> sig_flags" where
  "note_signal sig f =
     (if sig = SIGINT then f\<lparr>g_exit_flag := 1\<rparr>
      else if sig = SIGTERM then f\<lparr>g_exit_flag := 1\<rparr>
      else if sig = SIGHUP then f\<lparr>g_restart_flag := 1\<rparr>
      else if sig = SIGUSR1 then f\<lparr>g_start_record_flag := g_start_record_flag f + 1\<rparr>
      else if sig = SIGUSR2 then f\<lparr>g_stop_record_flag := g_stop_record_flag f + 1\<rparr>
      else f)"

text \<open>The thread on what \<open>sigwaitinfo\<close> returns one after the other; the flag tells whether it has ended.\<close>

fun signal_thread_func :: "int list \<Rightarrow> sig_flags \<Rightarrow> bool \<times> sig_flags" where
  "signal_thread_func [] f = (False, f)"
| "signal_thread_func (sig # sigs) f =
     (if sig < 0 then signal_thread_func sigs f
      else let f = note_signal sig f in
           if sig = SIGTERM \<and> g_exit_flag f \<noteq> 0 then (True, f) else signal_thread_func sigs f)"

section \<open>The main loop\<close>

record app =
  app_cfg :: AppCfg
  app_flags :: sig_flags
  app_ps :: PipelineState

text \<open>\<open>pipeline_enable_recording\<close> with the configuration of the process; a failure is only logged.\<close>

definition record_now :: "env \<Rightarrow> app \<Rightarrow> app io" where
  "record_now E a = do {
     (r, ps) \<leftarrow> enable_recording E (record_cfg (app_cfg a)) (app_ps a);
     ret (a\<lparr>app_ps := ps\<rparr>)
   }"

definition unrecord_now :: "env \<Rightarrow> app \<Rightarrow> app io" where
  "unrecord_now E a = do {
     ps \<leftarrow> drop_recorder E (app_ps a);
     ret (a\<lparr>app_ps := ps\<rparr>)
   }"

definition start_record_request :: "env \<Rightarrow> app \<Rightarrow> app io" where
  "start_record_request E a =
     (if 0 < g_start_record_flag (app_flags a) then do {
        let a = a\<lparr>app_flags := (app_flags a)\<lparr>g_start_record_flag := 0\<rparr>,
                  app_cfg := (if enable (record_cfg (app_cfg a)) = 0 then set_record_enable 1 (app_cfg a) else app_cfg a)\<rparr>;
        if ps_state (app_ps a) = PIPELINE_RUNNING then record_now E a else ret a
      } else ret a)"

definition stop_record_request :: "env \<Rightarrow> app \<Rightarrow> app io" where
  "stop_record_request E a =
     (if 0 < g_stop_record_flag (app_flags a) then do {
        let a = a\<lparr>app_flags := (app_flags a)\<lparr>g_stop_record_flag := 0\<rparr>,
                  app_cfg := (if enable (record_cfg (app_cfg a)) \<noteq> 0 then set_record_enable 0 (app_cfg a) else app_cfg a)\<rparr>;
        if ps_state (app_ps a) = PIPELINE_RUNNING then unrecord_now E a else ret a
      } else ret a)"

definition after_restart :: "env \<Rightarrow> int \<Rightarrow> app \<Rightarrow> app io" where
  "after_restart E r a =
     (if r \<noteq> 0 then ret (a\<lparr>app_flags := (app_flags a)\<lparr>g_exit_flag := 1\<rparr>\<rparr>)
      else if enable (record_cfg (app_cfg a)) \<noteq> 0 then record_now E a
      else ret a)"

definition restart_request :: "env \<Rightarrow> ModesetResult \<Rightarrow> int \<Rightarrow> nat \<Rightarrow> app \<Rightarrow> app io" where
  "restart_request E ms fd k a =
     (if g_restart_flag (app_flags a) \<noteq> 0 then do {
        let a = a\<lparr>app_flags := (app_flags a)\<lparr>g_restart_flag := 0\<rparr>\<rparr>;
        ps \<leftarrow> stop_pipeline E k 700 (app_ps a);
        (r, ps) \<leftarrow> start_pipeline E (app_cfg a) ms fd ps;
        after_restart E r (a\<lparr>app_ps := ps\<rparr>)
      } else ret a)"

definition serve_requests :: "env \<Rightarrow> ModesetResult \<Rightarrow> int \<Rightarrow> nat \<Rightarrow> app \<Rightarrow> app io" where
  "serve_requests E ms fd k a = do {
     a \<leftarrow> start_record_request E a;
     a \<leftarrow> stop_record_request E a;
     restart_request E ms fd k a
   }"

text \<open>Whether the pipeline has gone; the flag tells whether it was the last turn.\<close>

definition look_at_pipeline :: "env \<Rightarrow> app \<Rightarrow> (bool \<times> app) io" where
  "look_at_pipeline E a = do {
     ps \<leftarrow> poll_child E (app_ps a);
     let a = a\<lparr>app_ps := ps\<rparr>;
     ret (if ps_state ps = PIPELINE_STOPPED then (True, a\<lparr>app_flags := (app_flags a)\<lparr>g_exit_flag := 1\<rparr>\<rparr>)
          else (False, a))
   }"

definition main_turn :: "env \<Rightarrow> ModesetResult \<Rightarrow> int \<Rightarrow> nat \<Rightarrow> app \<Rightarrow> (bool \<times> app) io" where
  "main_turn E ms fd k a = do {
     sigs \<leftarrow> sys_poll E;
     let a = a\<lparr>app_flags := snd (signal_thread_func sigs (app_flags a))\<rparr>;
     if g_exit_flag (app_flags a) \<noteq> 0 then ret (True, a)
     else do {
       a \<leftarrow> serve_requests E ms fd k a;
       look_at_pipeline E a
     }
   }"

fun main_loop :: "env \<Rightarrow> ModesetResult \<Rightarrow> int \<Rightarrow> nat \<Rightarrow> nat \<Rightarrow> app \<Rightarrow> (bool \<times> app) io" where
  "main_loop E ms fd k 0 a = ret (False, a)"
| "main_loop E ms fd k (Suc n) a = do {
     (left, a) \<leftarrow> main_turn E ms fd k a;
     if left then ret (True, a) else main_loop E ms fd k n a
   }"

section \<open>Setting up and taking down\<close>

datatype outcome = Returned int | Exited int | Running

definition pipeline_stop_worker :: "env \<Rightarrow> nat \<Rightarrow> (PipelineState option \<times> int) option \<Rightarrow> PipelineState option io" where
  "pipeline_stop_worker E k arg =
     (case arg of
        Some (Some ps, wait_ms) \<Rightarrow> pipeline_stop E k wait_ms (Some ps)
      | Some (None, _) \<Rightarrow> ret None
      | None \<Rightarrow> ret None)"

text \<open>The end of the signal thread, as every path of \<open>main\<close> behind its creation has it.\<close>

definition end_signals :: "ptr \<Rightarrow> unit io" where
  "end_signals sigt = do { sys_thread_kill sigt SIGTERM; g_thread_join sigt }"

text \<open>
  Stopping in a thread of its own, which \<open>main\<close> waits five seconds for. When the wait times out the worker
  is somewhere inside \<open>pipeline_stop\<close>, and the process exits.
\<close>

definition stop_main :: "env \<Rightarrow> nat \<Rightarrow> ptr \<Rightarrow> int \<Rightarrow> app \<Rightarrow> outcome io" where
  "stop_main E k sigt fd a = do {
     stop_thread \<leftarrow> g_thread_new E ''pipeline-stop'';
     join_rc \<leftarrow> (if stop_thread = 0 then do { _ \<leftarrow> stop_pipeline E k 700 (app_ps a); ret 0 }
                else do {
                  join_rc \<leftarrow> ask (\<lambda>t. e_timed_join (proc E) t);
                  io_when (join_rc = 0)
                    (do { _ \<leftarrow> pipeline_stop_worker E k (Some (Some (app_ps a), 700)); ret () });
                  emit (Proc (EvTimedJoin stop_thread join_rc));
                  ret join_rc
                });
     if join_rc \<noteq> 0 then do { sys_exit 128; ret (Exited 128) }
     else do {
       end_signals sigt;
       sys_close fd;
       ret (Returned 0)
     }
   }"

definition loop_main :: "env \<Rightarrow> ModesetResult \<Rightarrow> nat \<Rightarrow> nat \<Rightarrow> ptr \<Rightarrow> int \<Rightarrow> app \<Rightarrow> outcome io" where
  "loop_main E ms n k sigt fd a = do {
     (left, a) \<leftarrow> main_loop E ms fd k n a;
     if left then stop_main E k sigt fd a else ret Running
   }"

definition run_main :: "env \<Rightarrow> AppCfg \<Rightarrow> ModesetResult \<Rightarrow> nat \<Rightarrow> nat \<Rightarrow> ptr \<Rightarrow> int \<Rightarrow> outcome io" where
  "run_main E cfg ms n k sigt fd = do {
     (r, ps) \<leftarrow> start_pipeline E cfg ms fd zero_pipeline;
     if r \<noteq> 0 then do { end_signals sigt; sys_close fd; ret (Returned 1) }
     else do {
       let a = \<lparr>app_cfg = cfg, app_flags = no_signals, app_ps = ps\<rparr>;
       a \<leftarrow> (if enable (record_cfg cfg) \<noteq> 0 then record_now E a else ret a);
       loop_main E ms n k sigt fd a
     }
   }"

text \<open>\<open>ModesetResult ms = {0}\<close>, and the display.\<close>

definition zero_modeset :: ModesetResult where
  "zero_modeset = \<lparr>ms_connector_id = 0, ms_crtc_id = 0, ms_mode_w = 0, ms_mode_h = 0, ms_mode_hz = 0\<rparr>"

definition show_main :: "env \<Rightarrow> AppCfg \<Rightarrow> nat \<Rightarrow> nat \<Rightarrow> ptr \<Rightarrow> outcome io" where
  "show_main E cfg n k sigt = do {
     fd \<leftarrow> sys_open E (card_path cfg);
     if fd < 0 then do { end_signals sigt; ret (Returned 1) }
     else do {
       (r, ms) \<leftarrow> atomic_modeset_maxhz E fd cfg (Some zero_modeset);
       if r \<noteq> 0 then do { end_signals sigt; sys_close fd; ret (Returned 1) }
       else run_main E cfg (case ms of Some ms \<Rightarrow> ms | None \<Rightarrow> zero_modeset) n k sigt fd
     }
   }"

text \<open>
  The whole program: \<open>fs\<close> is the file system of the configuration files, \<open>i\<close> and \<open>n\<close> bound the turns of
  the two loops, and \<open>Running\<close> is that one of them has not ended.
\<close>

definition main :: "env \<Rightarrow> (string \<Rightarrow> string option) \<Rightarrow> string list \<Rightarrow> cli_globals \<Rightarrow> nat \<Rightarrow> nat \<Rightarrow> nat \<Rightarrow> outcome io" where
  "main E fs argv g i n k =
     (case parse_cli fs argv g of (parse_rc, cfg, _) \<Rightarrow>
        if parse_rc \<noteq> 0 then ret (Returned (if 0 < parse_rc then 0 else 2))
        else do {
          one \<leftarrow> ensure_single_instance E i;
          case one of
            None \<Rightarrow> ret Running
          | Some r \<Rightarrow>
              (if r < 0 then ret (Returned 1)
               else do {
                 masked \<leftarrow> sys_sigmask E;
                 if masked \<noteq> 0 then ret (Returned 1)
                 else do {
                   sigt \<leftarrow> g_thread_new E ''signal-watcher'';
                   if sigt = 0 then ret (Returned 1) else show_main E cfg n k sigt
                 }
               })
        })"

section \<open>What the main thread owns\<close>

definition app_inv :: "app \<Rightarrow> bool" where
  "app_inv a \<longleftrightarrow> ps_inv (app_ps a) \<and> ps_initialized (app_ps a)"

lemma app_inv_flags [simp]:
  "app_inv (a\<lparr>app_flags := f\<rparr>) = app_inv a" "app_inv (a\<lparr>app_cfg := c\<rparr>) = app_inv a"
  by (simp_all add: app_inv_def)

text \<open>
  A step keeps the invariant and may leave something behind. What is left is written before what the
  pipeline owns, so that the rules compose.
\<close>

lemma record_now_wp:
  assumes "app_inv a" and "ps_state (app_ps a) = PIPELINE_RUNNING"
    and "\<And>a' L. app_inv a' \<Longrightarrow> leaky L \<Longrightarrow> Q a' (M + L + ps_owned (app_ps a'))"
  shows "wp own (record_now E a) Q (M + ps_owned (app_ps a))"
proof -
  have "Q (a\<lparr>app_ps := ps'\<rparr>) (M + ps_owned ps' + L)" if "ps_inv ps'" "ps_initialized ps'" "leaky L" for ps' L
    using assms(3) [of "a\<lparr>app_ps := ps'\<rparr>" L] that by (simp add: app_inv_def ac_simps)
  then show ?thesis
    unfolding record_now_def
    by (intro wp_bind enable_recording_wp assms(2)) (use assms(1) in \<open>auto intro!: wp_intros simp: app_inv_def\<close>)
qed

lemma start_record_request_wp:
  assumes "app_inv a" and "\<And>a' L. app_inv a' \<Longrightarrow> leaky L \<Longrightarrow> Q a' (M + L + ps_owned (app_ps a'))"
  shows "wp own (start_record_request E a) Q (M + ps_owned (app_ps a))"
proof -
  have kept: "Q a' (M + ps_owned (app_ps a'))" if "app_inv a'" for a' using assms(2) [OF that, of "{#}"] by simp
  let ?a = "a\<lparr>app_flags := (app_flags a)\<lparr>g_start_record_flag := 0\<rparr>,
      app_cfg := (if enable (record_cfg (app_cfg a)) = 0 then set_record_enable 1 (app_cfg a) else app_cfg a)\<rparr>"
  have "wp own (if ps_state (app_ps ?a) = PIPELINE_RUNNING then record_now E ?a else ret ?a) Q (M + ps_owned (app_ps ?a))"
    by (intro wp_if record_now_wp assms(2) wp_return kept) (use assms(1) in simp_all)
  then show ?thesis
    unfolding start_record_request_def Let_def
    using kept [OF assms(1)] by (auto intro: wp_return)
qed

lemma unrecord_now_wp:
  assumes "app_inv a" and "\<And>a'. app_inv a' \<Longrightarrow> Q a' (M + ps_owned (app_ps a'))"
  shows "wp own (unrecord_now E a) Q (M + ps_owned (app_ps a))"
proof -
  have "Q (a\<lparr>app_ps := ps'\<rparr>) (M + ps_owned ps')" if "ps_inv ps'" "ps_initialized ps'" for ps'
    using assms(2) [of "a\<lparr>app_ps := ps'\<rparr>"] that by (simp add: app_inv_def)
  then show ?thesis
    using assms(1) unfolding unrecord_now_def app_inv_def
    by (intro wp_bind wp_mono [OF disable_recording_keeps]) (auto intro: wp_return)
qed

lemma stop_record_request_wp:
  assumes "app_inv a" and "\<And>a'. app_inv a' \<Longrightarrow> Q a' (M + ps_owned (app_ps a'))"
  shows "wp own (stop_record_request E a) Q (M + ps_owned (app_ps a))"
proof -
  let ?a = "a\<lparr>app_flags := (app_flags a)\<lparr>g_stop_record_flag := 0\<rparr>,
      app_cfg := (if enable (record_cfg (app_cfg a)) \<noteq> 0 then set_record_enable 0 (app_cfg a) else app_cfg a)\<rparr>"
  have "wp own (if ps_state (app_ps ?a) = PIPELINE_RUNNING then unrecord_now E ?a else ret ?a) Q (M + ps_owned (app_ps ?a))"
    by (intro wp_if unrecord_now_wp assms(2) wp_return) (use assms(1) in simp_all)
  then show ?thesis
    unfolding stop_record_request_def Let_def
    using assms by (auto intro: wp_return)
qed

lemma after_restart_wp:
  assumes "app_inv a" and "r = 0 \<Longrightarrow> ps_state (app_ps a) = PIPELINE_RUNNING"
    and "\<And>a' L. app_inv a' \<Longrightarrow> leaky L \<Longrightarrow> Q a' (M + L + ps_owned (app_ps a'))"
  shows "wp own (after_restart E r a) Q (M + ps_owned (app_ps a))"
proof -
  have kept: "Q a' (M + ps_owned (app_ps a'))" if "app_inv a'" for a' using assms(3) [OF that, of "{#}"] by simp
  then have "Q (a\<lparr>app_flags := f\<rparr>) (M + ps_owned (app_ps a))" for f
    using kept [of "a\<lparr>app_flags := f\<rparr>"] assms(1) by simp
  then show ?thesis
    unfolding after_restart_def
    by (intro wp_if record_now_wp assms wp_return kept) simp_all
qed

lemma restart_request_wp:
  assumes "real_objects E" and "app_inv a"
    and "\<And>a' L. app_inv a' \<Longrightarrow> leaky L \<Longrightarrow> Q a' (M + L + ps_owned (app_ps a'))"
  shows "wp own (restart_request E ms fd k a) Q (M + ps_owned (app_ps a))"
proof -
  let ?a = "a\<lparr>app_flags := (app_flags a)\<lparr>g_restart_flag := 0\<rparr>\<rparr>"
  have start: "wp own (start_pipeline E cfg ms fd ps \<bind> (\<lambda>(r, ps). after_restart E r (?a\<lparr>app_ps := ps\<rparr>))) Q (M + ps_owned ps)"
    if "all_stopped ps" for ps cfg
  proof (intro wp_bind start_pipeline_wp assms(1) all_stopped_inv that)
    fix r :: int and ps' L
    assume st: "ps_inv ps'" "ps_initialized ps'" "leaky L"
      "r = 0 \<and> L = {#} \<and> ps_state ps' = PIPELINE_RUNNING \<or> r = -1 \<and> ps_state ps' = ps_state ps"
    have "wp own (after_restart E r (?a\<lparr>app_ps := ps'\<rparr>)) Q (M + L + ps_owned (app_ps (?a\<lparr>app_ps := ps'\<rparr>)))"
    proof (intro after_restart_wp)
      show "Q a1 (M + L + L' + ps_owned (app_ps a1))" if "app_inv a1" "leaky L'" for a1 L'
        using assms(3) [of a1 "L + L'"] that st(3) by (simp add: add.assoc)
    qed (use st in \<open>auto simp: app_inv_def\<close>)
    then show "wp own (case (r, ps') of (r, ps) \<Rightarrow> after_restart E r (?a\<lparr>app_ps := ps\<rparr>)) Q (M + ps_owned ps' + L)"
      by (simp add: ac_simps)
  qed
  have "wp own (stop_pipeline E k 700 (app_ps a)) (\<lambda>ps. wp own (start_pipeline E (app_cfg a) ms fd ps \<bind>
      (\<lambda>(r, ps). after_restart E r (?a\<lparr>app_ps := ps\<rparr>))) Q) (M + ps_owned (app_ps a))"
    by (rule wp_mono [OF stop_pipeline_own]) (use assms(2) start in \<open>auto simp: app_inv_def\<close>)
  then have "wp own (stop_pipeline E k 700 (app_ps a) \<bind> (\<lambda>ps. start_pipeline E (app_cfg a) ms fd ps \<bind>
      (\<lambda>(r, ps). after_restart E r (?a\<lparr>app_ps := ps\<rparr>)))) Q (M + ps_owned (app_ps a))" by (rule wp_bind)
  then show ?thesis
    unfolding restart_request_def Let_def using assms(2) assms(3) [of a "{#}"] by (auto intro: wp_return)
qed

lemma serve_requests_wp:
  assumes "real_objects E" and "app_inv a"
    and "\<And>a' L. app_inv a' \<Longrightarrow> leaky L \<Longrightarrow> Q a' (M + L + ps_owned (app_ps a'))"
  shows "wp own (serve_requests E ms fd k a) Q (M + ps_owned (app_ps a))"
proof -
  have "Q a' (M + L + L' + ps_owned (app_ps a'))" if "app_inv a'" "leaky L" "leaky L'" for a' L L'
    using assms(3) [of a' "L + L'"] that by (simp add: add.assoc)
  then show ?thesis
    unfolding serve_requests_def
    by (intro wp_bind start_record_request_wp stop_record_request_wp restart_request_wp assms(1,2))
qed

lemma look_at_pipeline_wp:
  assumes "app_inv a" and "\<And>x a'. app_inv a' \<Longrightarrow> Q (x, a') (M + ps_owned (app_ps a'))"
  shows "wp own (look_at_pipeline E a) Q (M + ps_owned (app_ps a))"
proof -
  have "Q (x, a\<lparr>app_ps := ps', app_flags := f\<rparr>) (M + ps_owned ps')" "Q (x, a\<lparr>app_ps := ps'\<rparr>) (M + ps_owned ps')"
    if "ps_inv ps'" "ps_initialized ps'" for x ps' f
    using assms(2) [of "a\<lparr>app_ps := ps', app_flags := f\<rparr>" x] assms(2) [of "a\<lparr>app_ps := ps'\<rparr>" x] that
    by (simp_all add: app_inv_def)
  then show ?thesis
    using assms(1) unfolding look_at_pipeline_def Let_def app_inv_def
    by (intro wp_bind wp_mono [OF poll_child_own]) (auto intro!: wp_return)
qed

lemma main_turn_wp:
  assumes "real_objects E" and "app_inv a"
    and "\<And>x a' L. app_inv a' \<Longrightarrow> leaky L \<Longrightarrow> Q (x, a') (M + L + ps_owned (app_ps a'))"
  shows "wp own (main_turn E ms fd k a) Q (M + ps_owned (app_ps a))"
proof -
  have seen: "wp own (let a = a\<lparr>app_flags := f\<rparr> in if g_exit_flag (app_flags a) \<noteq> 0 then ret (True, a)
      else serve_requests E ms fd k a \<bind> look_at_pipeline E) Q (M + ps_owned (app_ps a))" for f
  proof -
    let ?a = "a\<lparr>app_flags := f\<rparr>"
    have "wp own (if g_exit_flag (app_flags ?a) \<noteq> 0 then ret (True, ?a)
        else serve_requests E ms fd k ?a \<bind> look_at_pipeline E) Q (M + ps_owned (app_ps ?a))"
      using assms(3) [of ?a "{#}"]
      by (intro wp_if wp_bind serve_requests_wp look_at_pipeline_wp wp_return assms(1,3)) (use assms(2) in simp_all)
    then show ?thesis by (simp add: Let_def)
  qed
  show ?thesis
    unfolding main_turn_def
    by (intro wp_bind own_ext) (use seen in \<open>simp_all add: own_simps\<close>)
qed

lemma main_loop_wp:
  assumes "real_objects E" and "app_inv a"
    and "\<And>x a' L. app_inv a' \<Longrightarrow> leaky L \<Longrightarrow> Q (x, a') (M + L + ps_owned (app_ps a'))"
  shows "wp own (main_loop E ms fd k n a) Q (M + ps_owned (app_ps a))"
  using assms(2,3)
proof (induction n arbitrary: a M)
  case 0
  then show ?case using 0(2) [of a "{#}" False] by (simp add: wp_return)
next
  case (Suc n)
  show ?case
    unfolding main_loop.simps
  proof (intro wp_bind main_turn_wp assms(1) Suc.prems(1))
    fix x a' L assume turn: "app_inv a'" "leaky L"
    have "Q (y, a1) (M + L + L' + ps_owned (app_ps a1))" if "app_inv a1" "leaky L'" for y a1 L'
      using Suc.prems(2) [of a1 "L + L'" y] that turn(2) by (simp add: add.assoc)
    then have "wp own (main_loop E ms fd k n a') Q (M + L + ps_owned (app_ps a'))"
      by (rule Suc.IH [OF turn(1)])
    then show "wp own (case (x, a') of (left, a) \<Rightarrow> if left then ret (True, a) else main_loop E ms fd k n a) Q
        (M + L + ps_owned (app_ps a'))"
      using Suc.prems(2) [OF turn] by (auto intro: wp_return)
  qed
qed

text \<open>
  What \<open>main\<close> leaves when it returns: the locks of a pipeline that was started, and what failed calls left.
\<close>

definition ps_locks :: "resource multiset" where
  "ps_locks = {#Mutex PsLock, Mutex RecorderLock, Cond PsCond#}"

definition main_leaves :: "resource multiset \<Rightarrow> outcome \<Rightarrow> resource multiset \<Rightarrow> bool" where
  "main_leaves M out M' \<longleftrightarrow>
     (case out of
        Returned c \<Rightarrow> c \<in> {0, 1, 2} \<and> (\<exists>L. leaky L \<and> (M' = M + L \<or> M' = M + ps_locks + L))
      | Exited c \<Rightarrow> c = 128
      | Running \<Rightarrow> True)"

lemma main_leavesI: "c \<in> {0, 1, 2} \<Longrightarrow> leaky L \<Longrightarrow> main_leaves M (Returned c) (M + L)"
  "c \<in> {0, 1, 2} \<Longrightarrow> leaky L \<Longrightarrow> main_leaves M (Returned c) (M + ps_locks + L)"
  by (auto simp: main_leaves_def)

lemma end_signals_wp: "Thread p \<in># M \<Longrightarrow> Q () (M - {#Thread p#}) \<Longrightarrow> wp own (end_signals p) Q M"
  unfolding end_signals_def by (intro wp_intros) (simp_all add: own_simps)

lemma all_stopped_owned: "all_stopped ps \<Longrightarrow> ps_owned ps = ps_locks"
  by (simp add: all_stopped_def ps_empty_owned locks_owned_def ps_locks_def)

lemma stop_frame:
  assumes "ps_inv ps" and "ps_initialized ps"
  shows "wp own (stop_pipeline E k ms ps) (\<lambda>_ M'. M' = M + ps_locks \<and> True) (M + ps_owned ps)"
  by (rule wp_mono [OF stop_pipeline_own [OF assms]]) (simp add: all_stopped_owned)

lemma stop_main_wp:
  assumes "app_inv a" and "0 \<le> fd"
    and "Q (Returned 0) (M + ps_locks)" and "\<And>M'. Q (Exited 128) M'"
  shows "wp own (stop_main E k sigt fd a) Q (M + {#Thread sigt, Fd fd#} + ps_owned (app_ps a))"
  using assms unfolding stop_main_def app_inv_def pipeline_stop_worker_def pipeline_stop_def option.case prod.case
  apply (intro wp_intros wp_own_frame [OF stop_frame] end_signals_wp)
  apply (simp_all add: own_simps)
  done

lemma stop_main_leaves:
  assumes "app_inv a" and "0 \<le> fd" and "leaky L"
  shows "wp own (stop_main E k sigt fd a) (main_leaves M) (M + {#Thread sigt, Fd fd#} + L + ps_owned (app_ps a))"
proof -
  have "wp own (stop_main E k sigt fd a) (main_leaves M) (M + L + {#Thread sigt, Fd fd#} + ps_owned (app_ps a))"
  proof (rule stop_main_wp [OF assms(1,2)])
    show "main_leaves M (Returned 0) (M + L + ps_locks)"
      using main_leavesI(2) [of 0 L M] assms(3) by (simp add: ac_simps)
  qed (simp add: main_leaves_def)
  then show ?thesis by (simp add: ac_simps)
qed

lemma loop_main_leaves:
  assumes "real_objects E" and "app_inv a" and "0 \<le> fd" and "leaky L"
  shows "wp own (loop_main E ms n k sigt fd a) (main_leaves M) (M + {#Thread sigt, Fd fd#} + L + ps_owned (app_ps a))"
  unfolding loop_main_def
proof (intro wp_bind main_loop_wp assms(1,2))
  fix left a' L' assume "app_inv a'" "leaky L'"
  then show "wp own (case (left, a') of (left, a) \<Rightarrow> if left then stop_main E k sigt fd a else ret Running) (main_leaves M)
      (M + {#Thread sigt, Fd fd#} + L + L' + ps_owned (app_ps a'))"
    using stop_main_leaves [of a' fd "L + L'" E k sigt M] assms(3,4)
    by (auto simp: main_leaves_def add.assoc intro: wp_return)
qed

lemma run_main_leaves:
  assumes "real_objects E" and "0 \<le> fd"
  shows "wp own (run_main E cfg ms n k sigt fd) (main_leaves M) (M + {#Thread sigt, Fd fd#})"
proof -
  let ?M = "M + {#Thread sigt, Fd fd#}"
  have "wp own (run_main E cfg ms n k sigt fd) (main_leaves M) (?M + ps_owned zero_pipeline)"
    unfolding run_main_def
  proof (intro wp_bind start_pipeline_wp assms(1) zero_empty(3))
    fix r :: int and ps' L
    assume st: "ps_inv ps'" "ps_initialized ps'" "leaky L"
      "r = 0 \<and> L = {#} \<and> ps_state ps' = PIPELINE_RUNNING \<or> r = -1 \<and> ps_state ps' = ps_state zero_pipeline"
    let ?a = "\<lparr>app_cfg = cfg, app_flags = no_signals, app_ps = ps'\<rparr>"
    have inv: "app_inv ?a" using st by (simp add: app_inv_def)
    show "wp own (case (r, ps') of (r, ps) \<Rightarrow>
        if r \<noteq> 0 then end_signals sigt \<bind> (\<lambda>_. sys_close fd \<bind> (\<lambda>_. ret (Returned 1)))
        else let a = \<lparr>app_cfg = cfg, app_flags = no_signals, app_ps = ps\<rparr> in
          (if enable (record_cfg cfg) \<noteq> 0 then record_now E a else ret a) \<bind> loop_main E ms n k sigt fd) (main_leaves M) (?M + ps_owned ps' + L)"
    proof (cases "r = 0")
      case False
      then have "ps_state ps' = PIPELINE_STOPPED" using st(4) by (simp add: zero_pipeline_def)
      then have "ps_owned ps' = ps_locks" using st(1,2) by (intro all_stopped_owned) (simp add: all_stopped_def ps_inv_def)
      then show ?thesis
        using False assms(2) main_leavesI(2) [of 1 L M] st(3)
        by (auto intro!: wp_intros end_signals_wp simp: own_simps ac_simps)
    next
      case True
      have loop: "wp own (loop_main E ms n k sigt fd a) (main_leaves M) (?M + L' + ps_owned (app_ps a))"
        if "app_inv a" "leaky L'" for a L'
        by (rule loop_main_leaves [OF assms(1) that(1) assms(2) that(2)])
      have "wp own ((if enable (record_cfg cfg) \<noteq> 0 then record_now E ?a else ret ?a) \<bind> loop_main E ms n k sigt fd)
          (main_leaves M) (?M + ps_owned (app_ps ?a))"
        using loop [OF inv, of "{#}"]
        by (intro wp_bind wp_if record_now_wp inv loop wp_return) (use True st in simp_all)
      then show ?thesis using True st(4) by (simp add: Let_def)
    qed
  qed
  then show ?thesis by (simp add: zero_empty(2))
qed

lemma show_main_leaves:
  assumes "real_objects E" and "small_ids E" and "0 < sigt"
  shows "wp own (show_main E cfg n k sigt) (main_leaves M) (M + {#Thread sigt#})"
proof -
  have end1: "main_leaves M (Returned 1) M" using main_leavesI(1) [of 1 "{#}" M] by simp
  have show1: "wp own (atomic_modeset_maxhz E fd cfg (Some zero_modeset)) (\<lambda>x. wp own (case x of (r, ms) \<Rightarrow>
      if r \<noteq> 0 then end_signals sigt \<bind> (\<lambda>_. sys_close fd \<bind> (\<lambda>_. ret (Returned 1)))
      else run_main E cfg (case ms of None \<Rightarrow> zero_modeset | Some ms \<Rightarrow> ms) n k sigt fd) (main_leaves M))
      (add_mset (Fd fd) (add_mset (Thread sigt) M))" if "0 \<le> fd" for fd
    using that end1 run_main_leaves [OF assms(1) that, of cfg _ n k sigt M]
    by (intro wp_mono [OF modeset_own [OF assms(2)]])
      (auto intro!: wp_intros end_signals_wp simp: own_simps add_mset_commute)
  show ?thesis
    unfolding show_main_def
    by (intro wp_bind own_ext wp_if) (use end1 show1 in \<open>auto intro!: wp_intros end_signals_wp simp: own_simps\<close>)
qed

section \<open>What the signals do\<close>

lemmas signal_numbers = SIGINT_def SIGTERM_def SIGHUP_def SIGUSR1_def SIGUSR2_def

lemma exit_stays: "g_exit_flag f \<noteq> 0 \<Longrightarrow> g_exit_flag (snd (signal_thread_func sigs f)) \<noteq> 0"
  by (induction sigs arbitrary: f) (auto simp: Let_def note_signal_def)

lemma exit_signals:
  "SIGINT \<in> set sigs \<or> SIGTERM \<in> set sigs \<Longrightarrow> g_exit_flag (snd (signal_thread_func sigs f)) \<noteq> 0"
  by (induction sigs arbitrary: f) (auto simp: Let_def note_signal_def exit_stays signal_numbers)

lemma other_signals:
  assumes "SIGINT \<notin> set sigs" and "SIGTERM \<notin> set sigs"
  shows "snd (signal_thread_func sigs f) = f\<lparr>g_restart_flag := (if SIGHUP \<in> set sigs then 1 else g_restart_flag f),
     g_start_record_flag := g_start_record_flag f + int (count_list sigs SIGUSR1),
     g_stop_record_flag := g_stop_record_flag f + int (count_list sigs SIGUSR2)\<rparr>"
  using assms by (induction sigs arbitrary: f) (auto simp: Let_def note_signal_def signal_numbers)

text \<open>What a step leaves of the configuration and the flags, whatever the calls answer.\<close>

definition settings :: "app \<Rightarrow> AppCfg \<times> sig_flags" where
  "settings a = (app_cfg a, app_flags a)"

lemma record_now_settings: "returns (record_now E a) (\<lambda>a'. settings a' = settings a)"
  unfolding record_now_def settings_def by (intro returns_bind_any returns_case_prod returns_ret) simp

lemma unrecord_now_settings: "returns (unrecord_now E a) (\<lambda>a'. settings a' = settings a)"
  unfolding unrecord_now_def settings_def by (intro returns_bind_any returns_ret) simp

lemma start_record_settings:
  assumes "0 \<le> g_start_record_flag (app_flags a)"
  shows "returns (start_record_request E a) (\<lambda>a'. settings a' =
     (if 0 < g_start_record_flag (app_flags a) \<and> enable (record_cfg (app_cfg a)) = 0
      then set_record_enable 1 (app_cfg a) else app_cfg a,
      (app_flags a)\<lparr>g_start_record_flag := 0\<rparr>))"
  unfolding start_record_request_def Let_def
  using assms by (intro returns_if returns_mono [OF record_now_settings] returns_ret) (auto simp: settings_def)

lemma stop_record_settings:
  assumes "0 \<le> g_stop_record_flag (app_flags a)"
  shows "returns (stop_record_request E a) (\<lambda>a'. settings a' =
     (if 0 < g_stop_record_flag (app_flags a) \<and> enable (record_cfg (app_cfg a)) \<noteq> 0
      then set_record_enable 0 (app_cfg a) else app_cfg a,
      (app_flags a)\<lparr>g_stop_record_flag := 0\<rparr>))"
  unfolding stop_record_request_def Let_def
  using assms by (intro returns_if returns_mono [OF unrecord_now_settings] returns_ret) (auto simp: settings_def)

lemma restart_settings:
  "returns (restart_request E ms fd k a) (\<lambda>a'. app_cfg a' = app_cfg a
     \<and> g_start_record_flag (app_flags a') = g_start_record_flag (app_flags a)
     \<and> g_stop_record_flag (app_flags a') = g_stop_record_flag (app_flags a) \<and> g_restart_flag (app_flags a') = 0)"
proof -
  have after: "returns (after_restart E r b) (\<lambda>a'. app_cfg a' = app_cfg b
      \<and> g_start_record_flag (app_flags a') = g_start_record_flag (app_flags b)
      \<and> g_stop_record_flag (app_flags a') = g_stop_record_flag (app_flags b)
      \<and> g_restart_flag (app_flags a') = g_restart_flag (app_flags b))" for r b
    unfolding after_restart_def
    by (intro returns_if returns_ret returns_mono [OF record_now_settings]) (auto simp: settings_def)
  show ?thesis
    unfolding restart_request_def Let_def
    by (intro returns_if returns_bind_any returns_case_prod returns_mono [OF after] returns_ret) simp_all
qed

lemma serve_settings:
  assumes "0 \<le> g_start_record_flag (app_flags a)" and "0 \<le> g_stop_record_flag (app_flags a)"
  shows "returns (serve_requests E ms fd k a) (\<lambda>a'. g_start_record_flag (app_flags a') = 0
     \<and> g_stop_record_flag (app_flags a') = 0 \<and> g_restart_flag (app_flags a') = 0
     \<and> (enable (record_cfg (app_cfg a')) \<noteq> 0 \<longleftrightarrow> g_stop_record_flag (app_flags a) = 0
          \<and> (0 < g_start_record_flag (app_flags a) \<or> enable (record_cfg (app_cfg a)) \<noteq> 0)))"
  unfolding serve_requests_def
  apply (intro returns_bind returns_mono [OF start_record_settings] returns_mono [OF stop_record_settings]
      returns_mono [OF restart_settings])
  using assms
  apply (auto simp: settings_def set_record_enable_def)
  done


text \<open>A start request, a stop request and another start request in one turn; and a termination.\<close>

definition usr_env :: env where
  "usr_env = plane_env\<lparr>proc := (proc null_env)\<lparr>e_signals := \<lambda>_. [SIGUSR1, SIGUSR2, SIGUSR1]\<rparr>\<rparr>"

definition term_env :: env where
  "term_env = plane_env\<lparr>proc := (proc null_env)\<lparr>e_signals := \<lambda>_. [SIGUSR1, SIGTERM]\<rparr>\<rparr>"

definition running_app :: app where
  "running_app = \<lparr>app_cfg = cfg_defaults, app_flags = no_signals, app_ps = zero_pipeline\<lparr>ps_state := PIPELINE_RUNNING\<rparr>\<rparr>"



text \<open>A process that takes the instance file and finds no display: \<open>main\<close> returns 1 and everything is given back.\<close>

definition headless_env :: env where
  "headless_env = plane_env\<lparr>proc := (proc null_env)\<lparr>e_open_excl := \<lambda>_. (4, 0), e_open := \<lambda>_ _. 3,
     e_write := \<lambda>_ _ s. int (length s), e_sigmask := \<lambda>_. 0\<rparr>,
     sys := (sys plane_env)\<lparr>e_thread_new := \<lambda>_ _. 8\<rparr>\<rparr>"

lemma headless_objects: "real_objects headless_env" "small_ids headless_env"
  by (simp_all add: real_objects_def small_ids_def headless_env_def plane_env_def mpp_only_env_def null_env_def)

lemma headless_simps:
  "e_open_excl (proc headless_env) t = (4, 0)" "e_open (proc headless_env) t p = 3"
  "e_write (proc headless_env) t fd s = int (length s)" "e_sigmask (proc headless_env) t = 0"
  "e_thread_new (sys headless_env) t x = 8" "e_get_resources (drm headless_env) t fd = None"
  "e_getpid (proc headless_env) = 1"
  by (simp_all add: headless_env_def plane_env_def mpp_only_env_def null_env_def)

lemma headless_shows:
  "returns (show_main headless_env cfg n k sigt) (\<lambda>x. x = Returned 1)"
  unfolding show_main_def atomic_modeset_maxhz_def
  by (auto intro!: returns_bind returns_ext returns_ret returns_any [where m = "end_signals p" for p]
      returns_any [where m = "sys_close fd" for fd] simp: headless_simps)

lemma headless_returns:
  "returns (main headless_env (\<lambda>_. None) [''pixelpilot''] \<lparr>g_verbose = 0, gst_debug = None\<rparr> 1 1 1) (\<lambda>x. x = Returned 1)"
proof -
  have parse: "fst (parse_cli (\<lambda>_. None) [''pixelpilot''] \<lparr>g_verbose = 0, gst_debug = None\<rparr>) = 0" by code_simp
  have pid: "length (pid_text headless_env) < 32"
    using pid_file_roundtrip [of headless_env] by (simp add: headless_simps INT_MAX_PID_def)
  have one: "returns (ensure_single_instance headless_env 1) (\<lambda>x. x = Some 0)"
    using pid by (auto simp: instance_turn_def write_pid_file_def headless_simps intro!: returns_bind returns_ext returns_emit returns_ret)
  obtain cfg g where "parse_cli (\<lambda>_. None) [''pixelpilot''] \<lparr>g_verbose = 0, gst_debug = None\<rparr> = (0, cfg, g)"
    using parse by (metis prod.collapse)
  then show ?thesis
    unfolding main_def
    by (simp del: ensure_single_instance.simps One_nat_def, intro returns_bind returns_mono [OF one])
      (auto simp: headless_simps intro!: returns_bind returns_ext returns_ret headless_shows)
qed


end
