(* ===== verification/Spec2Isabelle.thy ===== *)
theory Spec2Isabelle
  imports Ini_Roundtrip Recorder_Order Player_Live Main_Loop
begin

text \<open>
  pixelpilot\_stripped\_rk shows an RTP/H.265 stream on a Rockchip DRM plane and can record it as MP4. This
  library models its C code under \<open>src/src\<close> and \<open>src/include\<close> and proves what makes it correct.

  \<^bold>\<open>The program.\<close> \<open>main\<close> (\<open>main.c\<close>) reads the command line and an INI file (\<open>config.c\<close>, \<open>config\_ini.c\<close>), takes
  the instance file, starts a thread for the signals, sets the display mode (\<open>drm\_modeset.c\<close> with
  \<open>drm\_fb.c\<close> and \<open>drm\_props.c\<close>) and starts the pipeline (\<open>pipeline.c\<close>). The pipeline makes the UDP receiver
  (\<open>udp\_receiver.c\<close>), whose thread pushes RTP packets into GStreamer; its appsink thread takes access
  units out again and gives them to the recorder (\<open>video\_recorder.c\<close>, on the vendored minimp4) and to
  the decoder (\<open>video\_decoder.c\<close>, on Rockchip's MPP), which has a thread that fetches frames and one that
  shows them; its bus thread looks for errors and the end of the stream. \<open>main\<close> polls the signals and the
  pipeline and at the end stops everything.

  \<^bold>\<open>How code is modelled.\<close> A pure function is a HOL function. A function that calls anything outside the
  repository is a state monad over the trace of those calls (\<open>Effects\<close>); the environment \<open>env\<close> is a
  record of answer functions, one per external call, which may depend on the whole trace before the call
  and of which nothing is assumed (\<open>External\<close>, \<open>Media\_Events\<close>, \<open>Media\_Calls\<close>). Structs are records that are
  returned updated, \<open>NULL\<close> is \<open>None\<close> or 0, unsigned integers are words, a C \<open>int\<close> is an \<open>int\<close> with the
  casts written out (\<open>Prelude\<close>), strings are byte lists. \<open>C\_Library\<close> holds the functions of the C
  library that the logic runs through, \<open>Doubles\<close> the floating-point arithmetic of the refresh rate.
  A property of the calls is a monitor with its weakest precondition \<open>wp\<close>; the monitor \<open>own\<close> keeps the
  multiset of resources held (heap objects, descriptors, locks, threads, references, framebuffers, blobs,
  mappings) and fails on a use or release of what is not held. \<open>returns\<close> is what a function returns
  whatever the answers.

  \<^bold>\<open>Theories and what they show.\<close>
  \<^item> \<open>Config\<close>, \<open>Config\_Ini\<close>, \<open>Ini\_Spec\<close>, \<open>Ini\_Properties\<close>, \<open>Ini\_Roundtrip\<close>: \<open>AppCfg\<close> and its readers; the INI loader on
    its line buffer, refined to a specification on lines; well-formedness; printing and reading back.
    The locales \<open>bounded\_copy\<close>, \<open>int\_reader\<close>, \<open>key\_handler\<close> are the contracts that both readers meet.
  \<^item> \<open>Config\_Cli\<close>: the two passes of \<open>parse\_cli\<close>, refined to an option grammar; precedence over the file.
  \<^item> \<open>Logging\<close>: the verbosity flag, the time stamp, which its buffer never cuts, and the log line.
  \<^item> \<open>Transitions\<close>: the locales \<open>invariant\_system\<close>, \<open>waiting\_system\<close> and \<open>ending\_system\<close> of a step relation with an
    invariant and a wait that ends, interpreted on the step relations of the receiver, the decoder, the pipeline and the player.
  \<^item> \<open>Service\<close>: the locale of an object that is started, stopped and destroyed, interpreted on the
    receiver and on the decoder.
  \<^item> \<open>Udp\_Receiver\<close>, \<open>Udp\_Threads\<close>: what the receiver forwards, its life cycle, and the step relation
    \<open>udp\_step\<close> of its thread beside its owner, with safety and that stopping returns.
  \<^item> \<open>Drm\_Props\<close>, \<open>Drm\_Fb\<close> (locale \<open>framebuffer\<close>), \<open>Drm\_Modeset\<close>, \<open>Mode\_Order\<close> (locale \<open>preference\<close>, with
    \<open>linorder\<close> on the rank of a mode), \<open>Modeset\_Own\<close>, \<open>Modeset\_Properties\<close>: the property search, the
    framebuffer, the order on modes with the exact refresh rate, the connector and CRTC that are chosen,
    and that a modeset leaves nothing behind on any path.
  \<^item> \<open>Video\_Recorder\<close>, \<open>Recorder\_Own\<close> (locale \<open>mux\_client\<close>: the muxer as a tree of write callbacks),
    \<open>Recorder\_Properties\<close>, \<open>Recorder\_Order\<close>: life cycle, byte count, durations, file names, and that the
    delay by one unit refines writing every unit with its own duration.
  \<^item> \<open>Video\_Decoder\<close>, \<open>Decoder\_Planes\<close>, \<open>Decoder\_Frames\<close>, \<open>Decoder\_Life\<close>: the decoder. \<open>Decoder\_Own\<close> and
    \<open>Decoder\_Lifecycle\<close>: what it owns between its calls. \<open>Decoder\_Threads\<close> and \<open>Decoder\_Live\<close>: the step
    relation \<open>dec\_step\<close> of its two threads beside their owner, safety, no missed wake-up, stopping
    returns. \<open>Decoder\_Properties\<close>: the NEON copy is \<open>memcpy\<close>, the frame's rectangle, what is fed, the bounded
    end of stream, the pending frame.
  \<^item> \<open>Pipeline\<close>, \<open>Pipeline\_Run\<close>: building, starting, the two threads turn by turn, stopping, polling,
    recording. \<open>Pipeline\_Own\<close>, \<open>Pipeline\_Life\<close>: what it owns and its whole life. \<open>Pipeline\_Feed\<close>: what a turn of
    the appsink thread hands to MPP and what the bus thread makes of its messages. \<open>Pipeline\_Threads\<close>,
    \<open>Pipeline\_Live\<close>: the step relation \<open>pipe\_step\<close> of the two threads beside \<open>main\<close>, safety, that stopping
    returns, and two states in which a poll waits for a thread that has no reason to end.
  \<^item> \<open>Pipeline\_Parts\<close>, \<open>Player\<close>, \<open>Player\_Inv\<close>, \<open>Player\_Main\<close>, \<open>Player\_Steps\<close>, \<open>Player\_Live\<close>: the whole player.
    \<open>main\_part\<close> is one part of \<open>pipeline\_start\<close>, \<open>pipeline\_stop\<close>, \<open>pipeline\_poll\_child\<close> and the cleanup, and the
    parts one after the other are those functions; \<open>player\_step\<close> is \<open>main\<close>, part by part, beside the threads of
    the receiver, the pipeline and the decoder; its invariant, which is built from the component's own; safety of all
    interleavings, and that a call returns once a stop has been requested.
  \<^item> \<open>Instance\<close>, \<open>Main\_Loop\<close>: the instance file (monitor \<open>guard\_file\<close>), the signals, the turns of the main loop,
    and \<open>main\<close> from the command line to its exit code with everything given back.

  \<^bold>\<open>Bounds.\<close> A loop that the code does not bound itself takes a number of turns, and its result says whether it
  has come to its end: \<open>n\<close> turns of \<open>main\<close>'s loop and \<open>i\<close> of the one on the instance file (\<open>Running\<close> when they do not
  suffice, two suffice for the instance file when nobody else makes it), \<open>n\<close> offers of a packet to MPP
  (\<open>None\<close>, or \<open>TurnBusy\<close> in the appsink thread, when it is still refused), turns of the threads' loops, and \<open>k\<close>
  wake-ups while \<open>stop\_bus\_thread\<close> waits for its deadline. The theorems hold for every number. The loop that
  sends the end of the stream is bounded in the code, by 51 offers, and modelled without a bound of its own.

  \<^bold>\<open>Concurrency.\<close> In the step relations every critical section and every part of a function that waits for
  nobody is one step, and a join is a step that needs the thread to have ended. A flag that another
  thread writes is read from the shared struct (\<open>seeing\<close>) there, and in the sequential theories it is the
  environment's answer. \<open>udp\_step\<close>, \<open>dec\_step\<close> and \<open>pipe\_step\<close> have one component's threads beside their
  owner (in \<open>pipe\_step\<close> a start is one step, and the decoder is used through the contract of \<open>Service\<close>);
  \<open>player\_step\<close> has all five threads beside \<open>main\<close>, which a thread can interrupt at every creation and
  before every join of another. Its waits are bounded by the parts that are to come, at most 44 steps of \<open>main\<close> and
  of the threads it awaits.

  \<^bold>\<open>Not modelled.\<close> minimp4, MPP, libdrm, GStreamer and GLib are parameters: what their calls answer is left open, and
  where a theorem needs documented behaviour (\<open>real\_objects\<close>: identifiers of objects are not zero; \<open>small\_ids\<close>:
  CRTC ids are below \<open>2^31\<close>; \<open>g\_thread\_new\<close> does not return \<open>NULL\<close>) it says so. The
  messages that the other components log (\<open>Logging\<close> has the form of a line) and \<open>usage\<close>, which only
  prints, are left out, and so is what a stop has done when
  \<open>main\<close> gives up waiting for it and exits. \<open>remove\_instance\_pid\<close> is run by \<open>exit\<close>, behind the end of \<open>main\<close>.
\<close>

end
